(* ===== verification/Prelude.thy ===== *)
theory Prelude
  imports Main "HOL-Library.List_Lexorder" "HOL-Library.Char_ord" "HOL-Library.AList"
    "HOL-Library.Sublist" "HOL-Library.Multiset"
begin

text \<open>
  The vocabulary every component shares: Go strings and the parts of the packages
  \<open>strings\<close>, \<open>strconv\<close> and \<open>sort\<close> that the code calls, Go errors with their unwrap
  chains, and the result type of fallible calls.

  A Go string and a byte slice are both byte sequences, so both are the type
  \<open>string\<close> (a list of 8-bit characters). Conversions between the two are the identity.
\<close>

section \<open>Collections of facts\<close>

named_theorems emits_intros "introduction rules for the events a step may emit"
named_theorems post_intros "introduction rules for results and events of a step"
named_theorems run_simps "evaluation of steps"

section \<open>Strings\<close>

type_synonym bytes = string

text \<open>
  Package \<open>strings\<close>. White space is the ASCII white space of \<open>unicode.IsSpace\<close>; the
  multi-byte space characters are outside the model.
\<close>

definition isSpace :: "char \<Rightarrow> bool" where
  "isSpace c \<longleftrightarrow> c \<in> {CHR '' '', CHR 0x09, CHR 0x0A, CHR 0x0B, CHR 0x0C, CHR 0x0D}"

definition TrimSpace :: "string \<Rightarrow> string" where
  "TrimSpace s = rev (dropWhile isSpace (rev (dropWhile isSpace s)))"

definition HasPrefix :: "string \<Rightarrow> string \<Rightarrow> bool" where
  "HasPrefix s p \<longleftrightarrow> take (length p) s = p"

definition HasSuffix :: "string \<Rightarrow> string \<Rightarrow> bool" where
  "HasSuffix s p \<longleftrightarrow> HasPrefix (rev s) (rev p)"

fun Join :: "string list \<Rightarrow> string \<Rightarrow> string" where
  "Join [] sep = []"
| "Join [x] sep = x"
| "Join (x # y # xs) sep = x @ sep @ Join (y # xs) sep"

text \<open>\<open>strings.Split\<close> for a one-character separator.\<close>

fun SplitChar :: "string \<Rightarrow> char \<Rightarrow> string list" where
  "SplitChar [] c = [[]]"
| "SplitChar (x # xs) c =
     (if x = c then [] # SplitChar xs c
      else (case SplitChar xs c of [] \<Rightarrow> [[x]] | y # ys \<Rightarrow> (x # y) # ys))"

text \<open>\<open>strings.SplitN\<close> with a one-character separator and limit 2.\<close>

definition SplitN2 :: "string \<Rightarrow> char \<Rightarrow> string list" where
  "SplitN2 s c = (case dropWhile (\<lambda>x. x \<noteq> c) s of
      [] \<Rightarrow> [s]
    | _ # rest \<Rightarrow> [takeWhile (\<lambda>x. x \<noteq> c) s, rest])"

text \<open>
  \<open>strings.ReplaceAll\<close>. The counter skips the rest of a match. An empty pattern matches
  before every character and at the end (for ASCII text, one byte per character).
\<close>

fun replaceFrom :: "nat \<Rightarrow> string \<Rightarrow> string \<Rightarrow> string \<Rightarrow> string" where
  "replaceFrom n [] old new = []"
| "replaceFrom (Suc n) (x # xs) old new = replaceFrom n xs old new"
| "replaceFrom 0 (x # xs) old new =
     (if HasPrefix (x # xs) old then new @ replaceFrom (length old - 1) xs old new
      else x # replaceFrom 0 xs old new)"

definition ReplaceAll :: "string \<Rightarrow> string \<Rightarrow> string \<Rightarrow> string" where
  "ReplaceAll s old new =
     (if old = [] then concat (map (\<lambda>c. new @ [c]) s) @ new else replaceFrom 0 s old new)"

text \<open>\<open>strconv\<close>: decimal text of integers.\<close>

definition digit_char :: "nat \<Rightarrow> char" where
  "digit_char d = char_of (48 + d)"

fun string_of_nat :: "nat \<Rightarrow> string" where
  "string_of_nat n = (if n < 10 then [digit_char n]
     else string_of_nat (n div 10) @ [digit_char (n mod 10)])"

declare string_of_nat.simps [simp del]

definition string_of_int :: "int \<Rightarrow> string" where
  "string_of_int i = (if i < 0 then ''-'' @ string_of_nat (nat (- i)) else string_of_nat (nat i))"

lemma HasPrefix_append [simp]: "HasPrefix (p @ s) p"
  by (simp add: HasPrefix_def)

lemma HasPrefix_iff: "HasPrefix s p \<longleftrightarrow> (\<exists>r. s = p @ r)"
  by (metis HasPrefix_append HasPrefix_def append_take_drop_id)

lemma HasSuffix_iff: "HasSuffix s p \<longleftrightarrow> (\<exists>r. s = r @ p)"
  by (metis HasPrefix_iff HasSuffix_def rev_append rev_rev_ident)

lemma dropWhile_dropWhile_same: "dropWhile P (dropWhile P xs) = dropWhile P xs"
  by (induction xs) auto

lemma takeWhile_id_hd: "xs = [] \<or> \<not> P (hd xs) \<Longrightarrow> dropWhile P xs = xs"
  by (cases xs) auto

lemma rev_dropWhile_rev_prefix: "prefix (rev (dropWhile P (rev xs))) xs"
  by (metis rev_rev_ident suffix_dropWhile suffix_to_prefix)

lemma TrimSpace_idem [simp]: "TrimSpace (TrimSpace s) = TrimSpace s"
proof -
  let ?t = "dropWhile isSpace s"
  let ?r = "rev (dropWhile isSpace (rev ?t))"
  have r: "?r = [] \<or> \<not> isSpace (hd ?r)"
  proof (cases "?r = []")
    case False
    moreover have "prefix ?r ?t" by (rule rev_dropWhile_rev_prefix)
    ultimately have "?t \<noteq> []" and "hd ?r = hd ?t"
      by (metis prefix_Nil, metis hd_append2 prefix_def)
    then show ?thesis using hd_dropWhile [of isSpace s] by simp
  qed simp
  then have "dropWhile isSpace ?r = ?r" by (rule takeWhile_id_hd)
  then show ?thesis by (simp only: TrimSpace_def rev_rev_ident dropWhile_dropWhile_same)
qed

text \<open>\<open>strconv.Quote\<close> (the verb \<open>%q\<close>) on bytes below 128; other bytes are kept.\<close>

definition hexdigit :: "nat \<Rightarrow> char" where
  "hexdigit d = (if d < 10 then char_of (48 + d) else char_of (87 + d))"

definition quoteChar :: "char \<Rightarrow> string" where
  "quoteChar c =
     (if c = CHR 0x22 \<or> c = CHR 0x5C then [CHR 0x5C, c]
      else if c = CHR 0x0A then [CHR 0x5C, CHR ''n'']
      else if c = CHR 0x09 then [CHR 0x5C, CHR ''t'']
      else if c = CHR 0x0D then [CHR 0x5C, CHR ''r'']
      else if c = CHR 0x07 then [CHR 0x5C, CHR ''a'']
      else if c = CHR 0x08 then [CHR 0x5C, CHR ''b'']
      else if c = CHR 0x0C then [CHR 0x5C, CHR ''f'']
      else if c = CHR 0x0B then [CHR 0x5C, CHR ''v'']
      else let n = of_char c in
        if n < (32::nat) \<or> n = 127 then [CHR 0x5C, CHR ''x'', hexdigit (n div 16), hexdigit (n mod 16)]
        else [c])"

definition goquote :: "string \<Rightarrow> string" where
  "goquote s = [CHR 0x22] @ concat (map quoteChar s) @ [CHR 0x22]"

section \<open>Errors\<close>

text \<open>
  The error values the code inspects with \<open>errors.Is\<close> and \<open>errors.As\<close>, directly or
  through \<open>apierrors.IsNotFound\<close> and its kin. An error is its text and its unwrap
  chain, outermost first. \<open>fmt.Errorf\<close> with \<open>%w\<close> keeps the chain of the wrapped error, with
  \<open>%v\<close> it keeps the text only.
\<close>

datatype errnode =
    NotFound | AlreadyExists | Conflict
  | Canceled | DeadlineExceeded
  | StoreClientStale | TemplateParse | TemplateExecution
  | ClientError string                         \<comment> \<open>legacy SDK error: its code\<close>
  | SDKError "string option" "int option"      \<comment> \<open>tea.SDKError: code and status, each may be nil\<close>
  | URLError bool                              \<comment> \<open>url.Error: Timeout()\<close>
  | OpError bool                               \<comment> \<open>net.OpError: Timeout(); the rest of the chain is its Err\<close>
  | DNSError bool bool                         \<comment> \<open>net.DNSError: IsTimeout, IsTemporary\<close>
  | Errno nat bool                             \<comment> \<open>syscall.Errno: number, Timeout()\<close>

record goerror =
  err_msg :: string
  err_chain :: "errnode list"

definition errorf :: "string \<Rightarrow> goerror" where
  "errorf m = \<lparr>err_msg = m, err_chain = []\<rparr>"

definition wrap_w :: "string \<Rightarrow> goerror \<Rightarrow> goerror" where
  "wrap_w pre e = \<lparr>err_msg = pre @ err_msg e, err_chain = err_chain e\<rparr>"

definition wrap_v :: "string \<Rightarrow> goerror \<Rightarrow> goerror" where
  "wrap_v pre e = \<lparr>err_msg = pre @ err_msg e, err_chain = []\<rparr>"

definition errors_Is :: "goerror \<Rightarrow> errnode \<Rightarrow> bool" where
  "errors_Is e n \<longleftrightarrow> n \<in> set (err_chain e)"

type_synonym 'a res = "goerror + 'a"

lemma err_chain_simps [simp]:
  "err_chain (errorf m) = []" "err_chain (wrap_v m e) = []" "err_chain (wrap_w m e) = err_chain e"
  by (simp_all add: errorf_def wrap_v_def wrap_w_def)

lemma err_msg_simps [simp]:
  "err_msg (errorf m) = m" "err_msg (wrap_v m e) = m @ err_msg e" "err_msg (wrap_w m e) = m @ err_msg e"
  by (simp_all add: errorf_def wrap_v_def wrap_w_def)

lemma errors_Is_simps [simp]:
  "\<not> errors_Is (errorf m) n" "\<not> errors_Is (wrap_v m e) n"
  "errors_Is (wrap_w m e) n \<longleftrightarrow> errors_Is e n"
  by (simp_all add: errors_Is_def)

end
