(* ===== verification/GoMap.thy ===== *)
theory GoMap
  imports Prelude
begin

text \<open>
  Go maps with string keys. A map is the list of its entries in one order in which a
  \<open>range\<close> loop may deliver them; its keys are distinct (\<open>gm_ok\<close>). Theorems hold for
  every such list, so for every iteration order. A \<open>map[string]struct{}\<close> (a set) is a
  list of distinct strings.

  The interface \<open>go_map\<close> states the laws of the map operations the components use;
  the facts about copying and overlaying loops are proved from these laws alone.
\<close>

type_synonym 'v gomap = "(string \<times> 'v) list"
type_synonym strset = "string list"

definition gm_ok :: "'v gomap \<Rightarrow> bool" where
  "gm_ok m \<longleftrightarrow> distinct (map fst m)"

definition gm_empty :: "'v gomap" where
  "gm_empty = []"

definition gm_get :: "'v gomap \<Rightarrow> string \<Rightarrow> 'v option" where
  "gm_get m k = map_of m k"

definition gm_put :: "'v gomap \<Rightarrow> string \<Rightarrow> 'v \<Rightarrow> 'v gomap" where
  "gm_put m k v = AList.update k v m"

definition gm_del :: "'v gomap \<Rightarrow> string \<Rightarrow> 'v gomap" where
  "gm_del m k = AList.delete k m"

definition gm_has :: "'v gomap \<Rightarrow> string \<Rightarrow> bool" where
  "gm_has m k \<longleftrightarrow> gm_get m k \<noteq> None"

definition gm_len :: "'v gomap \<Rightarrow> nat" where
  "gm_len m = length m"

definition gm_keys :: "'v gomap \<Rightarrow> string list" where
  "gm_keys m = map fst m"

text \<open>Reading a missing key of a \<open>map[string]string\<close> gives the zero value.\<close>

definition gm_str :: "string gomap \<Rightarrow> string \<Rightarrow> string" where
  "gm_str m k = (case gm_get m k of None \<Rightarrow> [] | Some v \<Rightarrow> v)"

text \<open>The loop \<open>for k, v := range src { dst[k] = v }\<close>.\<close>

fun gm_overlay :: "'v gomap \<Rightarrow> 'v gomap \<Rightarrow> 'v gomap" where
  "gm_overlay dst [] = dst"
| "gm_overlay dst ((k, v) # src) = gm_overlay (gm_put dst k v) src"

text \<open>\<open>reflect.DeepEqual\<close> on two non-nil maps: equal lengths, and each entry of the first
  is an entry of the second.\<close>

definition gm_eq :: "'v gomap \<Rightarrow> 'v gomap \<Rightarrow> bool" where
  "gm_eq m n \<longleftrightarrow> length m = length n \<and> list_all (\<lambda>(k, v). gm_get n k = Some v) m"

text \<open>Adding a key to a set.\<close>

definition ss_add :: "string \<Rightarrow> strset \<Rightarrow> strset" where
  "ss_add k s = (if k \<in> set s then s else s @ [k])"

section \<open>The interface\<close>

locale go_map =
  fixes ok :: "'m \<Rightarrow> bool"
    and empty :: "'m"
    and get :: "'m \<Rightarrow> string \<Rightarrow> 'v option"
    and put :: "'m \<Rightarrow> string \<Rightarrow> 'v \<Rightarrow> 'm"
    and del :: "'m \<Rightarrow> string \<Rightarrow> 'm"
    and len :: "'m \<Rightarrow> nat"
  assumes ok_empty: "ok empty"
    and ok_put: "ok m \<Longrightarrow> ok (put m k v)"
    and ok_del: "ok m \<Longrightarrow> ok (del m k)"
    and get_empty: "get empty k = None"
    and get_put: "get (put m k v) k' = (if k' = k then Some v else get m k')"
    and get_del: "ok m \<Longrightarrow> get (del m k) k' = (if k' = k then None else get m k')"
    and len_card: "ok m \<Longrightarrow> len m = card {k. get m k \<noteq> None}"
    and fin: "finite {k. get m k \<noteq> None}"
begin

fun copy_into :: "'m \<Rightarrow> (string \<times> 'v) list \<Rightarrow> 'm" where
  "copy_into m [] = m"
| "copy_into m ((k, v) # xs) = copy_into (put m k v) xs"

lemma ok_copy_into: "ok m \<Longrightarrow> ok (copy_into m xs)"
  by (induction m xs rule: copy_into.induct) (auto intro: ok_put)

lemma get_copy_into:
  "distinct (map fst xs) \<Longrightarrow>
   get (copy_into m xs) k = (case map_of xs k of None \<Rightarrow> get m k | Some v \<Rightarrow> Some v)"
proof (induction m xs rule: copy_into.induct)
  case (1 m)
  then show ?case by simp
next
  case (2 m k' v xs)
  then have "map_of xs k' = None" by (auto simp: map_of_eq_None_iff image_iff)
  with 2 show ?case by (auto simp: get_put split: option.splits)
qed

lemma len_zero: "ok m \<Longrightarrow> len m = 0 \<longleftrightarrow> (\<forall>k. get m k = None)"
  using fin [of m] by (auto simp: len_card)

lemma len_put_pos: "ok m \<Longrightarrow> len (put m k v) > 0"
  using len_zero [OF ok_put, of m k v] by (metis get_put gr0I option.distinct(1))

lemma put_put_same: "get (put (put m k v) k w) = get (put m k w)"
  by (auto simp: fun_eq_iff get_put)

end

section \<open>The laws hold for the model's maps\<close>

lemma gm_ok_put: "gm_ok m \<Longrightarrow> gm_ok (gm_put m k v)"
  by (simp add: gm_ok_def gm_put_def distinct_update)

lemma gm_ok_del: "gm_ok m \<Longrightarrow> gm_ok (gm_del m k)"
  by (simp add: gm_ok_def gm_del_def distinct_delete)

lemma gm_len_card: "gm_ok m \<Longrightarrow> gm_len m = card {k. gm_get m k \<noteq> None}"
proof -
  assume ok: "gm_ok m"
  have "{k. gm_get m k \<noteq> None} = set (map fst m)"
    by (auto simp: gm_get_def map_of_eq_None_iff dom_map_of_conv_image_fst [symmetric])
  then show ?thesis using ok distinct_card [of "map fst m"] by (simp add: gm_ok_def gm_len_def)
qed

interpretation gm: go_map gm_ok gm_empty gm_get gm_put gm_del gm_len
proof (unfold_locales, goal_cases)
  case 1 show ?case by (simp add: gm_ok_def gm_empty_def)
next
  case (2 m k v) then show ?case by (rule gm_ok_put)
next
  case (3 m k) then show ?case by (rule gm_ok_del)
next
  case (4 k) show ?case by (simp add: gm_get_def gm_empty_def)
next
  case (5 m k v k') show ?case by (simp add: gm_get_def gm_put_def update_conv')
next
  case (6 m k k') then show ?case by (simp add: gm_get_def gm_del_def delete_conv')
next
  case (7 m) then show ?case by (rule gm_len_card)
next
  case (8 m) show ?case using finite_dom_map_of [of m] by (simp only: gm_get_def dom_def)
qed

lemmas gm_laws [simp] = gm.get_empty gm.get_put gm.ok_empty
lemmas gm_ok_intros [simp, intro] = gm.ok_put gm.ok_del

lemma gm_get_del [simp]: "gm_ok m \<Longrightarrow> gm_get (gm_del m k) k' = (if k' = k then None else gm_get m k')"
  by (rule gm.get_del)

lemma gm_overlay_copy: "gm_overlay m xs = gm.copy_into m xs"
  by (induction m xs rule: gm_overlay.induct) auto

lemma gm_ok_overlay [simp, intro]: "gm_ok m \<Longrightarrow> gm_ok (gm_overlay m xs)"
  by (simp add: gm_overlay_copy gm.ok_copy_into)

lemma gm_get_overlay:
  "gm_ok xs \<Longrightarrow> gm_get (gm_overlay m xs) k = (case gm_get xs k of None \<Rightarrow> gm_get m k | Some v \<Rightarrow> Some v)"
  unfolding gm_overlay_copy by (subst gm.get_copy_into) (simp_all add: gm_ok_def gm_get_def)

lemma gm_get_copy [simp]: "gm_ok xs \<Longrightarrow> gm_get (gm_overlay gm_empty xs) = gm_get xs"
  by (auto simp: gm_get_overlay fun_eq_iff split: option.splits)

lemma gm_has_overlay: "gm_ok xs \<Longrightarrow> gm_has (gm_overlay m xs) k \<longleftrightarrow> gm_has xs k \<or> gm_has m k"
  by (auto simp: gm_has_def gm_get_overlay split: option.splits)

lemma gm_has_put [simp]: "gm_has (gm_put m k v) k' \<longleftrightarrow> k' = k \<or> gm_has m k'"
  by (simp add: gm_has_def)

lemma gm_has_empty [simp]: "\<not> gm_has gm_empty k"
  by (simp add: gm_has_def)

lemma gm_has_keys: "gm_has m k \<longleftrightarrow> k \<in> set (gm_keys m)"
  by (auto simp: gm_has_def gm_get_def gm_keys_def map_of_eq_None_iff)

lemma gm_has_iff: "gm_has m k \<longleftrightarrow> (\<exists>v. gm_get m k = Some v)"
  by (simp add: gm_has_def)

lemma gm_get_in_set: "gm_ok m \<Longrightarrow> gm_get m k = Some v \<longleftrightarrow> (k, v) \<in> set m"
  by (simp add: gm_get_def gm_ok_def)

lemma gm_len_pos: "gm_len m > 0 \<longleftrightarrow> (\<exists>k. gm_has m k)"
  by (cases m) (auto simp: gm_len_def gm_has_def gm_get_def split: if_splits)

lemma gm_len_empty [simp]: "gm_len gm_empty = 0"
  by (simp add: gm_len_def gm_empty_def)

lemma gm_len_0 [simp]: "gm_len m = 0 \<longleftrightarrow> m = gm_empty"
  by (simp add: gm_len_def gm_empty_def)

lemma gm_eq_iff:
  assumes m: "gm_ok m" and n: "gm_ok n"
  shows "gm_eq m n \<longleftrightarrow> gm_get m = gm_get n"
proof
  assume "gm_eq m n"
  then have len: "length m = length n" and sub: "set m \<subseteq> set n"
    using n by (auto simp: gm_eq_def list_all_iff gm_get_in_set)
  have "card (set m) = length m" "card (set n) = length n"
    using m n by (auto simp: gm_ok_def distinct_map distinct_card)
  with len sub have "set m = set n" by (metis card_subset_eq finite_set)
  then have "map_of m = map_of n"
    using m n by (simp add: gm_ok_def map_of_inject_set)
  then show "gm_get m = gm_get n" by (simp add: gm_get_def fun_eq_iff)
next
  assume eq: "gm_get m = gm_get n"
  then have "map_of m = map_of n" by (simp add: gm_get_def fun_eq_iff)
  then have "set m = set n" using m n by (simp add: gm_ok_def map_of_inject_set)
  then have "length m = length n" using m n by (metis distinct_card distinct_map gm_ok_def)
  moreover have "list_all (\<lambda>(k, v). gm_get n k = Some v) m"
    using m by (auto simp: list_all_iff eq [symmetric] gm_get_in_set)
  ultimately show "gm_eq m n" by (simp add: gm_eq_def)
qed

lemma gm_eq_refl: "gm_ok m \<Longrightarrow> gm_eq m m"
  by (simp add: gm_eq_iff)

lemma set_ss_add [simp]: "set (ss_add k s) = insert k (set s)"
  by (auto simp: ss_add_def)

lemma distinct_ss_add [simp]: "distinct (ss_add k s) \<longleftrightarrow> distinct s"
  by (auto simp: ss_add_def)

end
