(* ===== verification/Api_Types.thy ===== *)
theory Api_Types
  imports GoMap
begin

text \<open>
  The custom resources of \<open>pkg/apis/alibabacloud/v1alpha1\<close> and the fields of the built-in
  objects the controllers read. A pointer is an option, a \<open>string\<close>-based enumeration stays a
  string (the code compares with literals and has a default branch), \<open>int64\<close> counters are
  integers, a \<open>metav1.Time\<close> is an integer.
\<close>

section \<open>Object metadata\<close>

record ObjectMeta =
  m_Name :: string
  m_Namespace :: string
  m_UID :: string
  m_ResourceVersion :: string
  m_Generation :: int
  m_Labels :: "string gomap"
  m_Annotations :: "string gomap"
  m_Finalizers :: "string list"
  m_DeletionTimestamp :: "int option"

section \<open>ExternalSecret\<close>

record SecretStoreRef =
  ssr_Name :: string
  ssr_Kind :: string
  ssr_Namespace :: string

record JMESPathObject =
  jp_Path :: string
  jp_ObjectAlias :: string

record DataSource =
  ds_SecretStoreRef :: "SecretStoreRef option"
  ds_Key :: string
  ds_Name :: string
  ds_VersionStage :: string
  ds_VersionId :: string
  ds_JMESPath :: "JMESPathObject list"
  ds_KmsEndpoint :: string

record ReplaceRule =
  rr_Target :: string
  rr_Source :: string

record DataProcess =
  dp_Extract :: "DataSource option"
  dp_ReplaceKey :: "ReplaceRule list"

record TemplateRefItem =
  tri_Key :: string
  tri_TemplateAs :: string

record TemplateRef =
  tr_Name :: string
  tr_Items :: "TemplateRefItem list"

record TemplateFrom =
  tf_ConfigMap :: "TemplateRef option"
  tf_Secret :: "TemplateRef option"
  tf_Target :: string
  tf_Literal :: "string option"

record ExternalSecretTemplateMetadata =
  tm_Annotations :: "string gomap"
  tm_Labels :: "string gomap"

record ExternalSecretTemplate =
  t_Data :: "string gomap option"
  t_TemplateFrom :: "TemplateFrom list"
  t_Metadata :: "ExternalSecretTemplateMetadata option"
  t_Type :: string
  t_MergePolicy :: string

record ExternalSecretTarget =
  tg_Name :: string
  tg_Template :: "ExternalSecretTemplate option"

record ExternalSecretSpec =
  sp_Provider :: string
  sp_Data :: "DataSource list"
  sp_DataProcess :: "DataProcess list"
  sp_Type :: string
  sp_Target :: "ExternalSecretTarget option"
  sp_RotationInterval :: "int option"

record DataSyncResult =
  r_ExternalSecretKey :: string
  r_Status :: string
  r_Reason :: string
  r_SynchronizationTime :: int

record ExternalSecret =
  es_meta :: ObjectMeta
  es_Spec :: ExternalSecretSpec
  es_DataSyncResults :: "DataSyncResult list"

section \<open>Stores\<close>

record SecretRef =
  sr_Name :: string
  sr_Namespace :: string
  sr_Key :: string

record ServiceAccountRef =
  sa_Name :: string
  sa_Namespace :: string
  sa_Audiences :: "string list"

text \<open>\<open>KMSAuth\<close> and \<open>OOSAuth\<close> declare the same fields; both are this record.\<close>

record StoreAuth =
  au_AccessKey :: "SecretRef option"
  au_AccessKeySecret :: "SecretRef option"
  au_RAMRoleARN :: string
  au_RAMRoleSessionName :: string
  au_OIDCProviderARN :: string
  au_OIDCTokenFilePath :: string
  au_RoleSessionExpiration :: string
  au_RemoteRAMRoleARN :: string
  au_RemoteRAMRoleSessionName :: string
  au_ServiceAccountRef :: "ServiceAccountRef option"

text \<open>\<open>KMSProvider\<close> and \<open>OOSProvider\<close> hold one pointer to their auth block.\<close>

record StoreProvider =
  pr_Auth :: "StoreAuth option"

record SecretStoreSpec =
  ss_KMS :: "StoreProvider option"
  ss_OOS :: "StoreProvider option"

record SecretStoreStatusCondition =
  c_Type :: string
  c_Status :: string
  c_Reason :: string
  c_Message :: string
  c_LastTransitionTime :: int
  c_ObservedGeneration :: int

record SecretStoreStatus =
  st_Conditions :: "SecretStoreStatusCondition list"
  st_Capabilities :: string
  st_ClientGeneration :: int

record SecretStore =
  ss_meta :: ObjectMeta
  ss_Spec :: SecretStoreSpec
  ss_Status :: SecretStoreStatus

text \<open>
  \<open>metav1.LabelSelector\<close> is a library type: the code only hands it to
  \<open>LabelSelectorAsSelector\<close>.
\<close>

record LabelSelector =
  ls_MatchLabels :: "string gomap"
  ls_MatchExpressions :: "(string \<times> string \<times> string list) list"

text \<open>
  \<open>ClusterSecretStoreCondition\<close> and \<open>ClusterExternalSecretCondition\<close> declare the same
  fields; both are this record.
\<close>

record NamespaceCondition =
  nc_NamespaceSelector :: "LabelSelector option"
  nc_Namespaces :: "string list"
  nc_NamespaceRegexes :: "string list"

record ClusterSecretStoreSpec =
  css_KMS :: "StoreProvider option"
  css_OOS :: "StoreProvider option"
  css_Conditions :: "NamespaceCondition list"

text \<open>\<open>ClusterSecretStoreStatus\<close> has the fields of \<open>SecretStoreStatus\<close>.\<close>

record ClusterSecretStore =
  css_meta :: ObjectMeta
  css_Spec :: ClusterSecretStoreSpec
  css_Status :: SecretStoreStatus

definition SecretStoreReady :: string where "SecretStoreReady = ''Ready''"
definition ReasonValidationFailed :: string where "ReasonValidationFailed = ''ValidationFailed''"
definition ReasonStoreValid :: string where "ReasonStoreValid = ''Valid''"
definition ReasonClientCreationFailed :: string where "ReasonClientCreationFailed = ''ClientCreationFailed''"
definition SecretStoreReadOnly :: string where "SecretStoreReadOnly = ''ReadOnly''"
definition ConditionTrue :: string where "ConditionTrue = ''True''"
definition ConditionFalse :: string where "ConditionFalse = ''False''"
definition MergePolicyReplace :: string where "MergePolicyReplace = ''Replace''"
definition TemplateTargetData :: string where "TemplateTargetData = ''Data''"
definition TemplateTargetAnnotations :: string where "TemplateTargetAnnotations = ''Annotations''"
definition TemplateTargetLabels :: string where "TemplateTargetLabels = ''Labels''"
definition TemplateScopeValues :: string where "TemplateScopeValues = ''Values''"
definition TemplateScopeKeysAndValues :: string where "TemplateScopeKeysAndValues = ''KeysAndValues''"

section \<open>ClusterExternalSecret\<close>

record ClusterExternalSecretSpec =
  ces_ExternalSecretSpec :: ExternalSecretSpec
  ces_ExternalSecretName :: string
  ces_MetaLabels :: "string gomap"
  ces_MetaAnnotations :: "string gomap"
  ces_NamespaceSelectors :: "LabelSelector option list"
  ces_Conditions :: "NamespaceCondition list"
  ces_RotationInterval :: "int option"

record CesCondition =
  cc_Type :: string
  cc_Status :: string
  cc_LastTransitionTime :: int
  cc_Message :: string

record NamespaceFailure =
  nf_Namespace :: string
  nf_Reason :: string

record ClusterExternalSecretStatus =
  cst_ExternalSecretName :: string
  cst_FailedNamespaces :: "NamespaceFailure list option"
  cst_ProvisionedNamespaces :: "string list option"
  cst_Conditions :: "CesCondition list"

record ClusterExternalSecret =
  ces_meta :: ObjectMeta
  ces_Spec :: ClusterExternalSecretSpec
  ces_Status :: ClusterExternalSecretStatus

section \<open>Built-in objects\<close>

record Secret =
  sec_meta :: ObjectMeta
  sec_Data :: "bytes gomap"
  sec_Type :: string

record Namespace =
  ns_meta :: ObjectMeta
  ns_Phase :: string

record ServiceAccount =
  sacc_meta :: ObjectMeta

section \<open>Shorthands\<close>

abbreviation es_Name :: "ExternalSecret \<Rightarrow> string" where "es_Name e \<equiv> m_Name (es_meta e)"
abbreviation es_Namespace :: "ExternalSecret \<Rightarrow> string" where "es_Namespace e \<equiv> m_Namespace (es_meta e)"
abbreviation es_UID :: "ExternalSecret \<Rightarrow> string" where "es_UID e \<equiv> m_UID (es_meta e)"
abbreviation es_Finalizers :: "ExternalSecret \<Rightarrow> string list" where
  "es_Finalizers e \<equiv> m_Finalizers (es_meta e)"

text \<open>The name of the target Secret (\<open>spec.target.name\<close>, or the resource's own name).\<close>

definition target_secret_name :: "ExternalSecret \<Rightarrow> string" where
  "target_secret_name es = (case sp_Target (es_Spec es) of
      Some t \<Rightarrow> if tg_Name t \<noteq> [] then tg_Name t else es_Name es
    | None \<Rightarrow> es_Name es)"

definition es_template :: "ExternalSecret \<Rightarrow> ExternalSecretTemplate option" where
  "es_template es = (case sp_Target (es_Spec es) of Some t \<Rightarrow> tg_Template t | None \<Rightarrow> None)"

text \<open>The extract blocks of \<open>spec.dataProcess\<close>, entries without one skipped.\<close>

definition extracts :: "ExternalSecret \<Rightarrow> DataSource list" where
  "extracts es = List.map_filter dp_Extract (sp_DataProcess (es_Spec es))"

section \<open>Empty objects\<close>

definition noMeta :: ObjectMeta where
  "noMeta = \<lparr>m_Name = [], m_Namespace = [], m_UID = [], m_ResourceVersion = [], m_Generation = 0,
     m_Labels = [], m_Annotations = [], m_Finalizers = [], m_DeletionTimestamp = None\<rparr>"

definition emptyDataSource :: DataSource where
  "emptyDataSource = \<lparr>ds_SecretStoreRef = None, ds_Key = [], ds_Name = [], ds_VersionStage = [],
     ds_VersionId = [], ds_JMESPath = [], ds_KmsEndpoint = []\<rparr>"

definition emptyExternalSecret :: ExternalSecret where
  "emptyExternalSecret = \<lparr>es_meta = noMeta,
     es_Spec = \<lparr>sp_Provider = [], sp_Data = [], sp_DataProcess = [], sp_Type = [], sp_Target = None,
       sp_RotationInterval = None\<rparr>,
     es_DataSyncResults = []\<rparr>"

end
