(* ===== verification/Utils.thy ===== *)
theory Utils
  imports Api_Types
begin

text \<open>
  \<open>pkg/utils/util.go\<close>: namespace scoping, list helpers, error classification and the bounded
  retry loop, namespace admission of cluster-scoped resources, and the default OIDC ARN.

  Library engines are arguments: \<open>regex\<close> compiles a pattern (an error, or the match
  predicate of \<open>regexp.MatchString\<close>), \<open>selector\<close> is \<open>metav1.LabelSelectorAsSelector\<close>
  (an error, or the match predicate on labels).
\<close>

type_synonym regex = "string \<Rightarrow> (string \<Rightarrow> bool) res"
type_synonym selector = "LabelSelector \<Rightarrow> (string gomap \<Rightarrow> bool) res"

definition TriggerReconcileAnnotation :: string where
  "TriggerReconcileAnnotation = ''ack-secret-manager.alibabacloud.com/trigger-reconcile''"

section \<open>Conditions and lists\<close>

fun ReadyConditionObservedGeneration :: "SecretStoreStatusCondition list \<Rightarrow> int \<times> bool" where
  "ReadyConditionObservedGeneration [] = (0, False)"
| "ReadyConditionObservedGeneration (c # cs) =
     (if c_Type c = SecretStoreReady then (c_ObservedGeneration c, True)
      else ReadyConditionObservedGeneration cs)"

fun Contains :: "string list \<Rightarrow> string \<Rightarrow> bool" where
  "Contains [] s = False"
| "Contains (v # vs) s = (if v = s then True else Contains vs s)"

fun Remove :: "string list \<Rightarrow> string \<Rightarrow> string list" where
  "Remove [] s = []"
| "Remove (v # vs) s = (if v \<noteq> s then v # Remove vs s else Remove vs s)"

lemma Contains_iff [simp]: "Contains xs s \<longleftrightarrow> s \<in> set xs"
  by (induction xs) auto

lemma Remove_filter: "Remove xs s = filter (\<lambda>v. v \<noteq> s) xs"
  by (induction xs) auto

lemma set_Remove [simp]: "set (Remove xs s) = set xs - {s}"
  by (auto simp: Remove_filter)

lemma Ready_found_iff:
  "snd (ReadyConditionObservedGeneration cs) \<longleftrightarrow> (\<exists>c \<in> set cs. c_Type c = SecretStoreReady)"
  by (induction cs) auto

section \<open>Namespace scope\<close>

text \<open>The loop of \<open>IsNamespaceWatched\<close> over the scope map, in its iteration order.\<close>

fun watchLoop :: "bool gomap \<Rightarrow> bool gomap \<Rightarrow> string \<Rightarrow> bool" where
  "watchLoop [] watchNs namespace =
     (case gm_get watchNs namespace of None \<Rightarrow> True | Some watch \<Rightarrow> watch)"
| "watchLoop ((_, watch) # rest) watchNs namespace =
     (if watch then (case gm_get watchNs namespace of None \<Rightarrow> False | Some b \<Rightarrow> b)
      else watchLoop rest watchNs namespace)"

definition IsNamespaceWatched :: "bool gomap \<Rightarrow> string \<Rightarrow> bool" where
  "IsNamespaceWatched watchNs namespace = watchLoop watchNs watchNs namespace"

lemma watchLoop_include:
  "(\<exists>kv \<in> set xs. snd kv) \<Longrightarrow> watchLoop xs w ns \<longleftrightarrow> gm_get w ns = Some True"
proof (induction xs)
  case (Cons kv xs)
  then show ?case by (cases kv; cases "snd kv") (auto split: option.splits)
qed simp

lemma watchLoop_exclude:
  "\<not> (\<exists>kv \<in> set xs. snd kv) \<Longrightarrow> watchLoop xs w ns \<longleftrightarrow> gm_get w ns \<noteq> Some False"
proof (induction xs)
  case (Cons kv xs)
  then show ?case by (cases kv; cases "snd kv") (auto split: option.splits)
qed (auto split: option.splits)

section \<open>Error classification\<close>

definition isRetryableErrorCode :: "string \<Rightarrow> bool" where
  "isRetryableErrorCode code \<longleftrightarrow>
     code = ''Rejected.Throttling'' \<or> code = ''ServiceUnavailableTemporary'' \<or> code = ''InternalFailure''"

definition ECONNRESET :: nat where "ECONNRESET = 104"
definition EPIPE :: nat where "EPIPE = 32"

text \<open>\<open>errors.As\<close> with a concrete target type is a search for the first node of that type.\<close>

fun asErrno :: "errnode list \<Rightarrow> nat option" where
  "asErrno [] = None"
| "asErrno (Errno n t # _) = Some n"
| "asErrno (_ # ns) = asErrno ns"

definition isConnectionInterruption :: "errnode list \<Rightarrow> bool" where
  "isConnectionInterruption chain = (case asErrno chain of
      Some n \<Rightarrow> n = ECONNRESET \<or> n = EPIPE | None \<Rightarrow> False)"

fun asDNS :: "errnode list \<Rightarrow> (bool \<times> bool) option" where
  "asDNS [] = None"
| "asDNS (DNSError t tmp # _) = Some (t, tmp)"
| "asDNS (_ # ns) = asDNS ns"

definition isRetryableOpError :: "bool \<Rightarrow> errnode list \<Rightarrow> bool" where
  "isRetryableOpError timeout inner =
     (if timeout then True
      else (case asDNS inner of
              Some (t, tmp) \<Rightarrow> t \<or> tmp
            | None \<Rightarrow> isConnectionInterruption inner))"

fun asURL :: "errnode list \<Rightarrow> bool option" where
  "asURL [] = None"
| "asURL (URLError t # _) = Some t"
| "asURL (_ # ns) = asURL ns"

fun asOp :: "errnode list \<Rightarrow> (bool \<times> errnode list) option" where
  "asOp [] = None"
| "asOp (OpError t # inner) = Some (t, inner)"
| "asOp (_ # ns) = asOp ns"

text \<open>The nodes that implement \<open>net.Error\<close>, with their \<open>Timeout()\<close>.\<close>

fun netTimeout :: "errnode \<Rightarrow> bool option" where
  "netTimeout (URLError t) = Some t"
| "netTimeout (OpError t) = Some t"
| "netTimeout (DNSError t tmp) = Some t"
| "netTimeout (Errno n t) = Some t"
| "netTimeout DeadlineExceeded = Some True"
| "netTimeout _ = None"

fun asNet :: "errnode list \<Rightarrow> bool option" where
  "asNet [] = None"
| "asNet (n # ns) = (case netTimeout n of Some t \<Rightarrow> Some t | None \<Rightarrow> asNet ns)"

definition isRetryableNetworkError :: "errnode list \<Rightarrow> bool" where
  "isRetryableNetworkError chain =
     (if asURL chain = Some True then True
      else (case asOp chain of
              Some (t, inner) \<Rightarrow> isRetryableOpError t inner
            | None \<Rightarrow> (case asNet chain of Some t \<Rightarrow> t | None \<Rightarrow> False)))"

fun asClientError :: "errnode list \<Rightarrow> string option" where
  "asClientError [] = None"
| "asClientError (ClientError c # _) = Some c"
| "asClientError (_ # ns) = asClientError ns"

fun asSDKError :: "errnode list \<Rightarrow> (string option \<times> int option) option" where
  "asSDKError [] = None"
| "asSDKError (SDKError c s # _) = Some (c, s)"
| "asSDKError (_ # ns) = asSDKError ns"

definition JudgeNeedRetry :: "goerror option \<Rightarrow> bool" where
  "JudgeNeedRetry err = (case err of
      None \<Rightarrow> False
    | Some e \<Rightarrow>
       (case asClientError (err_chain e) of
          Some code \<Rightarrow> isRetryableErrorCode code
        | None \<Rightarrow>
          (case asSDKError (err_chain e) of
             Some (code, status) \<Rightarrow>
               (if (case code of Some c \<Rightarrow> isRetryableErrorCode c | None \<Rightarrow> False) then True
                else if (case status of Some s \<Rightarrow> s \<ge> 500 \<or> s = 429 | None \<Rightarrow> False) then True
                else False)
           | None \<Rightarrow> isRetryableNetworkError (err_chain e))))"

section \<open>Bounded retry\<close>

text \<open>
  \<open>RetryOnTransient\<close>: \<open>fn n\<close> is the outcome of the n-th call (an error, or success), and
  \<open>done n\<close> the error of the context when it is cancelled during the wait that follows the
  n-th attempt. The result carries the number of calls made. The loop counter \<open>left\<close> is the
  number of attempts still allowed after this one.
\<close>

fun retryLoop :: "nat \<Rightarrow> nat \<Rightarrow> (nat \<Rightarrow> 'a res) \<Rightarrow> (nat \<Rightarrow> goerror option) \<Rightarrow> nat \<times> 'a res" where
  "retryLoop attempt left fn done =
     (case fn attempt of
        Inr v \<Rightarrow> (attempt, Inr v)
      | Inl e \<Rightarrow>
          if \<not> JudgeNeedRetry (Some e) then (attempt, Inl e)
          else (case left of
                  0 \<Rightarrow> (attempt, Inl e)
                | Suc k \<Rightarrow>
                   (case done attempt of
                      Some c \<Rightarrow> (attempt, Inl \<lparr>err_msg = err_msg c @ '': last transient error: '' @ err_msg e,
                                            err_chain = err_chain c\<rparr>)
                    | None \<Rightarrow> retryLoop (Suc attempt) k fn done)))"

declare retryLoop.simps [simp del]

definition RetryOnTransient ::
    "(nat \<Rightarrow> goerror option) \<Rightarrow> int \<Rightarrow> (nat \<Rightarrow> 'a res) \<Rightarrow> nat \<times> 'a res" where
  "RetryOnTransient done maxAttempts fn =
     (if maxAttempts \<le> 0
      then (0, Inl (errorf (''maxAttempts ('' @ string_of_int maxAttempts @ '') should be > 0'')))
      else retryLoop 1 (nat maxAttempts - 1) fn done)"

definition defaultFetchMaxAttempts :: int where "defaultFetchMaxAttempts = 3"

definition FetchWithRetry :: "(nat \<Rightarrow> goerror option) \<Rightarrow> (nat \<Rightarrow> 'a res) \<Rightarrow> nat \<times> 'a res" where
  "FetchWithRetry done fn = RetryOnTransient done defaultFetchMaxAttempts fn"

lemma retryLoop_bound:
  "attempt \<le> fst (retryLoop attempt left fn done) \<and> fst (retryLoop attempt left fn done) \<le> attempt + left"
proof (induction attempt left fn "done" rule: retryLoop.induct)
  case (1 attempt left fn "done")
  then show ?case
    by (subst (1 2) retryLoop.simps) (fastforce split: sum.splits nat.splits option.splits)
qed

text \<open>Each call before the last one failed with a transient error.\<close>

lemma retryLoop_transient:
  "attempt \<le> n \<Longrightarrow> n < fst (retryLoop attempt left fn done) \<Longrightarrow>
   \<exists>e. fn n = Inl e \<and> JudgeNeedRetry (Some e)"
proof (induction attempt left fn "done" rule: retryLoop.induct)
  case (1 attempt left fn "done")
  from "1.prems"(2) show ?case
    by (subst (asm) retryLoop.simps)
       (use 1 in \<open>auto split: sum.splits nat.splits option.splits if_splits simp: le_less_Suc_eq not_less_eq_eq le_Suc_eq dest: le_neq_implies_less\<close>)
qed

lemma retryLoop_result:
  assumes "retryLoop attempt left fn done = (n, r)"
  shows "r = fn n \<or> (\<exists>c e. done n = Some c \<and> fn n = Inl e \<and> r = Inl \<lparr>err_msg = err_msg c @ '': last transient error: '' @ err_msg e,
                                            err_chain = err_chain c\<rparr>)"
  using assms
proof (induction attempt left fn "done" rule: retryLoop.induct)
  case (1 attempt left fn "done")
  from "1.prems" show ?case
    by (subst (asm) retryLoop.simps) (use "1.IH" in \<open>auto split: sum.splits nat.splits option.splits if_splits\<close>)
qed

section \<open>Backoff\<close>

text \<open>
  \<open>GetWaitTimeExponential\<close> in nanoseconds. A \<open>time.Duration\<close> is an \<open>int64\<close>, so the
  product wraps (\<open>int64\<close>). The jitter factor of the source, \<open>1.0 + (rand*0.4 - 0.2)\<close>, is the
  fraction \<open>num/den\<close>, and the conversion of the float product truncates toward zero.
\<close>

definition int64 :: "int \<Rightarrow> int" where
  "int64 x = (x + 2 ^ 63) mod 2 ^ 64 - 2 ^ 63"

definition trunc_div :: "int \<Rightarrow> int \<Rightarrow> int" where
  "trunc_div a b = (if a < 0 then - ((- a) div b) else a div b)"

definition BACKOFF_DEFAULT_RETRY_INTERVAL :: int where "BACKOFF_DEFAULT_RETRY_INTERVAL = 1000000000"
definition BACKOFF_DEFAULT_CAPACITY :: int where "BACKOFF_DEFAULT_CAPACITY = 10000000000"

definition GetWaitTimeExponential :: "nat \<Rightarrow> int \<Rightarrow> int \<Rightarrow> int" where
  "GetWaitTimeExponential retryTimes num den =
     (let sleepInterval = int64 (2 ^ retryTimes * BACKOFF_DEFAULT_RETRY_INTERVAL);
          sleepInterval = trunc_div (sleepInterval * num) den
      in if sleepInterval \<ge> BACKOFF_DEFAULT_CAPACITY then BACKOFF_DEFAULT_CAPACITY else sleepInterval)"

lemma int64_id: "0 \<le> x \<Longrightarrow> x < 2 ^ 63 \<Longrightarrow> int64 x = x"
  by (simp add: int64_def)

section \<open>Namespace admission of cluster-scoped resources\<close>

text \<open>
  One condition decides (\<open>Some\<close> of the returned value) or falls through to the next
  (\<open>None\<close>). An invalid selector or pattern decides \<open>False\<close>: the check fails closed.
\<close>

definition selectorDecision :: "selector \<Rightarrow> string gomap \<Rightarrow> LabelSelector option \<Rightarrow> bool option" where
  "selectorDecision selector labels sel = (case sel of
      None \<Rightarrow> None
    | Some s \<Rightarrow> (case selector s of
         Inl _ \<Rightarrow> Some False
       | Inr m \<Rightarrow> if m labels then Some True else None))"

fun regexLoop :: "regex \<Rightarrow> string \<Rightarrow> string list \<Rightarrow> bool option" where
  "regexLoop regex name [] = None"
| "regexLoop regex name (r # rs) = (case regex r of
      Inl _ \<Rightarrow> Some False
    | Inr m \<Rightarrow> if m name then Some True else regexLoop regex name rs)"

definition conditionDecision ::
    "regex \<Rightarrow> selector \<Rightarrow> string \<Rightarrow> string gomap \<Rightarrow> NamespaceCondition \<Rightarrow> bool option" where
  "conditionDecision regex selector name labels c =
     (case selectorDecision selector labels (nc_NamespaceSelector c) of
        Some b \<Rightarrow> Some b
      | None \<Rightarrow> if Contains (nc_Namespaces c) name then Some True
                else regexLoop regex name (nc_NamespaceRegexes c))"

fun conditionLoop ::
    "regex \<Rightarrow> selector \<Rightarrow> string \<Rightarrow> string gomap \<Rightarrow> NamespaceCondition list \<Rightarrow> bool" where
  "conditionLoop regex selector name labels [] = False"
| "conditionLoop regex selector name labels (c # cs) =
     (case conditionDecision regex selector name labels c of
        Some b \<Rightarrow> b
      | None \<Rightarrow> conditionLoop regex selector name labels cs)"

text \<open>The namespace is the answer of the API server (an error denies).\<close>

definition IsNamespaceAllowedForClusterSecretStore ::
    "regex \<Rightarrow> selector \<Rightarrow> ClusterSecretStore \<Rightarrow> string \<Rightarrow> Namespace res \<Rightarrow> bool" where
  "IsNamespaceAllowedForClusterSecretStore regex selector css namespaceName got =
     (if css_Conditions (css_Spec css) = [] then True
      else (case got of
              Inl _ \<Rightarrow> False
            | Inr namespace \<Rightarrow> conditionLoop regex selector namespaceName
                (m_Labels (ns_meta namespace)) (css_Conditions (css_Spec css))))"

fun selectorLoop :: "selector \<Rightarrow> string gomap \<Rightarrow> LabelSelector option list \<Rightarrow> bool option" where
  "selectorLoop selector labels [] = None"
| "selectorLoop selector labels (s # ss) = (case selectorDecision selector labels s of
      Some b \<Rightarrow> Some b
    | None \<Rightarrow> selectorLoop selector labels ss)"

definition IsNamespaceAllowedForClusterExternalSecret ::
    "regex \<Rightarrow> selector \<Rightarrow> ClusterExternalSecret \<Rightarrow> Namespace \<Rightarrow> bool" where
  "IsNamespaceAllowedForClusterExternalSecret regex selector ces namespace =
     (if ces_NamespaceSelectors (ces_Spec ces) = [] \<and> ces_Conditions (ces_Spec ces) = [] then True
      else (case selectorLoop selector (m_Labels (ns_meta namespace)) (ces_NamespaceSelectors (ces_Spec ces)) of
              Some b \<Rightarrow> b
            | None \<Rightarrow> conditionLoop regex selector (m_Name (ns_meta namespace))
                (m_Labels (ns_meta namespace)) (ces_Conditions (ces_Spec ces))))"

text \<open>What a valid selection means, without the order of evaluation.\<close>

definition selects :: "selector \<Rightarrow> string gomap \<Rightarrow> LabelSelector option \<Rightarrow> bool" where
  "selects selector labels sel \<longleftrightarrow> (\<exists>s m. sel = Some s \<and> selector s = Inr m \<and> m labels)"

definition condition_matches ::
    "regex \<Rightarrow> selector \<Rightarrow> string \<Rightarrow> string gomap \<Rightarrow> NamespaceCondition \<Rightarrow> bool" where
  "condition_matches regex selector name labels c \<longleftrightarrow>
     selects selector labels (nc_NamespaceSelector c) \<or> name \<in> set (nc_Namespaces c) \<or>
     (\<exists>r \<in> set (nc_NamespaceRegexes c). \<exists>m. regex r = Inr m \<and> m name)"

definition condition_valid :: "regex \<Rightarrow> selector \<Rightarrow> NamespaceCondition \<Rightarrow> bool" where
  "condition_valid regex selector c \<longleftrightarrow>
     (case nc_NamespaceSelector c of None \<Rightarrow> True | Some s \<Rightarrow> \<not> isl (selector s)) \<and>
     list_all (\<lambda>r. \<not> isl (regex r)) (nc_NamespaceRegexes c)"

lemma regexLoop_True: "regexLoop regex name rs = Some True \<Longrightarrow> \<exists>r \<in> set rs. \<exists>m. regex r = Inr m \<and> m name"
  by (induction rs) (auto split: sum.splits if_splits)

lemma regexLoop_valid:
  "list_all (\<lambda>r. \<not> isl (regex r)) rs \<Longrightarrow>
   regexLoop regex name rs = (if \<exists>r \<in> set rs. \<exists>m. regex r = Inr m \<and> m name then Some True else None)"
  by (induction rs) (auto split: sum.splits if_splits)

lemma conditionDecision_True:
  "conditionDecision regex selector name labels c = Some True \<Longrightarrow> condition_matches regex selector name labels c"
  by (auto simp: conditionDecision_def condition_matches_def selectorDecision_def selects_def
      split: option.splits sum.splits if_splits dest: regexLoop_True)

lemma conditionDecision_valid:
  assumes "condition_valid regex selector c"
  shows "conditionDecision regex selector name labels c =
     (if condition_matches regex selector name labels c then Some True else None)"
proof -
  have "selectorDecision selector labels (nc_NamespaceSelector c) =
      (if selects selector labels (nc_NamespaceSelector c) then Some True else None)"
    using assms by (auto simp: condition_valid_def selectorDecision_def selects_def split: option.splits sum.splits)
  then show ?thesis
    using assms by (auto simp: conditionDecision_def condition_matches_def condition_valid_def regexLoop_valid)
qed

lemma conditionLoop_sound:
  "conditionLoop regex selector name labels cs \<Longrightarrow> \<exists>c \<in> set cs. condition_matches regex selector name labels c"
  by (induction cs) (auto split: option.splits dest: conditionDecision_True)

lemma conditionLoop_valid:
  "\<forall>c \<in> set cs. condition_valid regex selector c \<Longrightarrow>
   conditionLoop regex selector name labels cs \<longleftrightarrow> (\<exists>c \<in> set cs. condition_matches regex selector name labels c)"
  by (induction cs) (auto simp: conditionDecision_valid split: option.splits if_splits)

lemma selectorLoop_True:
  "selectorLoop selector labels ss = Some True \<Longrightarrow> \<exists>s \<in> set ss. selects selector labels s"
  by (induction ss) (auto simp: selectorDecision_def selects_def split: option.splits sum.splits if_splits)

section \<open>Secret references and OIDC ARNs\<close>

text \<open>\<open>GetConfigFromSecret\<close>: \<open>get\<close> is the API server's answer for a namespace and name.\<close>

definition GetConfigFromSecret ::
    "(string \<Rightarrow> string \<Rightarrow> Secret res) \<Rightarrow> SecretRef option \<Rightarrow> bytes res" where
  "GetConfigFromSecret get secretRef = (case secretRef of
      None \<Rightarrow> Inl (errorf ''empty secretRef'')
    | Some ref \<Rightarrow>
       if sr_Key ref = [] \<or> sr_Name ref = [] \<or> sr_Namespace ref = [] then Inl (errorf ''empty secretRef'')
       else (case get (sr_Namespace ref) (sr_Name ref) of
               Inl e \<Rightarrow> Inl e
             | Inr secret \<Rightarrow> (case gm_get (sec_Data secret) (sr_Key ref) of
                 None \<Rightarrow> Inl (errorf (''key '' @ sr_Key ref @ '' not found''))
               | Some data \<Rightarrow> Inr data)))"

definition GenerateDefaultOidcProviderArn :: "string \<Rightarrow> int \<Rightarrow> string" where
  "GenerateDefaultOidcProviderArn clusterId uid =
     ''acs:ram::'' @ string_of_int uid @ '':oidc-provider/'' @ (''ack-rrsa-'' @ clusterId)"

definition is_digit :: "char \<Rightarrow> bool" where
  "is_digit c \<longleftrightarrow> CHR ''0'' \<le> c \<and> c \<le> CHR ''9''"

definition dropPrefix :: "string \<Rightarrow> string \<Rightarrow> string option" where
  "dropPrefix p s = (if HasPrefix s p then Some (drop (length p) s) else None)"

text \<open>
  The fixed pattern \<open>^acs:ram:[^:]*:\d+:oidc-provider/[^/]+$\<close>. The classes of neighbouring
  parts are disjoint from the separators, so the leftmost split is the only one.
\<close>

definition IsValidOidcProviderArn :: "string \<Rightarrow> bool" where
  "IsValidOidcProviderArn arn = (case dropPrefix ''acs:ram:'' arn of
      None \<Rightarrow> False
    | Some r1 \<Rightarrow> (case dropPrefix '':'' (dropWhile (\<lambda>c. c \<noteq> CHR '':'') r1) of
         None \<Rightarrow> False
       | Some r2 \<Rightarrow> takeWhile is_digit r2 \<noteq> [] \<and>
           (case dropPrefix '':oidc-provider/'' (dropWhile is_digit r2) of
              None \<Rightarrow> False
            | Some r3 \<Rightarrow> r3 \<noteq> [] \<and> CHR ''/'' \<notin> set r3)))"

lemma digit_char_is_digit: "d < 10 \<Longrightarrow> is_digit (digit_char d)"
  by (simp add: is_digit_def digit_char_def less_eq_char_def)

lemma string_of_nat_digits: "string_of_nat n \<noteq> [] \<and> list_all is_digit (string_of_nat n)"
proof (induction n rule: string_of_nat.induct)
  case (1 n)
  then show ?case
    by (cases "n < 10") (simp_all add: string_of_nat.simps [of n] digit_char_is_digit)
qed

lemma default_arn_valid:
  assumes "0 \<le> uid" and "CHR ''/'' \<notin> set clusterId"
  shows "IsValidOidcProviderArn (GenerateDefaultOidcProviderArn clusterId uid)"
proof -
  let ?n = "string_of_int uid"
  let ?tail = "'':oidc-provider/'' @ ''ack-rrsa-'' @ clusterId"
  have n: "?n \<noteq> []" "list_all is_digit ?n"
    using assms(1) string_of_nat_digits [of "nat uid"] by (simp_all add: string_of_int_def)
  have colon: "\<not> is_digit (CHR '':'')" by (simp add: is_digit_def less_eq_char_def)
  have t: "takeWhile is_digit (?n @ ?tail) = ?n" "dropWhile is_digit (?n @ ?tail) = ?tail"
    using n(2) colon by (simp_all add: list_all_iff takeWhile_append2 dropWhile_append2)
  have r1: "dropPrefix ''acs:ram:'' (GenerateDefaultOidcProviderArn clusterId uid) = Some ('':'' @ ?n @ ?tail)"
    by (simp add: dropPrefix_def GenerateDefaultOidcProviderArn_def HasPrefix_def)
  have r2: "dropPrefix '':'' (dropWhile (\<lambda>c. c \<noteq> CHR '':'') ('':'' @ ?n @ ?tail)) = Some (?n @ ?tail)"
    by (simp add: dropPrefix_def HasPrefix_def)
  have r3: "dropPrefix '':oidc-provider/'' ?tail = Some (''ack-rrsa-'' @ clusterId)"
    by (simp add: dropPrefix_def HasPrefix_def)
  show ?thesis
    unfolding IsValidOidcProviderArn_def r1 option.case r2 t r3
    using n(1) assms(2) by simp
qed

section \<open>Integers in text\<close>

text \<open>\<open>strconv.ParseInt(s, 10, 64)\<close>: an optional sign and decimal digits, in range.\<close>

fun digitsVal :: "string \<Rightarrow> nat \<Rightarrow> nat option" where
  "digitsVal [] acc = Some acc"
| "digitsVal (c # cs) acc =
     (if is_digit c then digitsVal cs (10 * acc + (of_char c - 48)) else None)"

definition parseDigits :: "string \<Rightarrow> nat option" where
  "parseDigits s = (if s = [] then None else digitsVal s 0)"

definition parseSigned :: "string \<Rightarrow> int option" where
  "parseSigned s = (case s of
      [] \<Rightarrow> None
    | c # cs \<Rightarrow>
       if c = CHR ''-'' then map_option (\<lambda>n. - int n) (parseDigits cs)
       else if c = CHR ''+'' then map_option int (parseDigits cs)
       else map_option int (parseDigits s))"

definition ParseInt64 :: "string \<Rightarrow> int option" where
  "ParseInt64 s = (case parseSigned s of
      None \<Rightarrow> None
    | Some n \<Rightarrow> if - (2 ^ 63) \<le> n \<and> n < 2 ^ 63 then Some n else None)"

text \<open>Printing and parsing a number is the identity in the range.\<close>

lemma digit_char_val: "d < 10 \<Longrightarrow> of_char (digit_char d) - 48 = (d::nat)"
  by (simp add: digit_char_def)

lemma digitsVal_append:
  "digitsVal (xs @ ys) acc = (case digitsVal xs acc of None \<Rightarrow> None | Some a \<Rightarrow> digitsVal ys a)"
  by (induction xs arbitrary: acc) auto

lemma digitsVal_string_of_nat: "digitsVal (string_of_nat n) 0 = Some n"
proof (induction n rule: string_of_nat.induct)
  case (1 n)
  show ?case
  proof (cases "n < 10")
    case True
    then show ?thesis by (simp add: string_of_nat.simps [of n] digit_char_is_digit digit_char_val)
  next
    case False
    with 1 have "digitsVal (string_of_nat (n div 10)) 0 = Some (n div 10)" by simp
    then show ?thesis using False
      by (simp add: string_of_nat.simps [of n] digitsVal_append digit_char_is_digit digit_char_val)
  qed
qed

lemma ParseInt64_string_of_int:
  assumes "- (2 ^ 63) \<le> i" "i < 2 ^ 63"
  shows "ParseInt64 (string_of_int i) = Some i"
proof -
  have d: "string_of_nat n \<noteq> [] \<and> hd (string_of_nat n) \<noteq> CHR ''-'' \<and> hd (string_of_nat n) \<noteq> CHR ''+''" for n
    using string_of_nat_digits [of n] by (cases "string_of_nat n") (auto simp: is_digit_def less_eq_char_def)
  have p: "parseDigits (string_of_nat n) = Some n" for n
    using d [of n] by (simp add: parseDigits_def digitsVal_string_of_nat)
  have pos: "parseSigned (string_of_nat n) = Some (int n)" for n
    using d [of n] p [of n] by (cases "string_of_nat n") (auto simp: parseSigned_def)
  have "parseSigned (string_of_int i) = Some i"
    using pos [of "nat i"] p [of "nat (- i)"] by (auto simp: string_of_int_def parseSigned_def)
  then show ?thesis using assms by (simp add: ParseInt64_def)
qed

end
