(* ===== verification/Client_Registry.thy ===== *)
theory Client_Registry
  imports Utils
begin

text \<open>
  The client registry: the key formats of \<open>pkg/backend/client_keys.go\<close>, the client pools of
  \<open>provider/kms/client_manager.go\<close> and \<open>provider/oos/client_manager.go\<close>, and the pool of
  credential refreshers of \<open>provider/provider_manager.go\<close>.

  An operation on a pool returns the new pool and the refreshers it stopped, in order. A
  refresher is a number; a nil entry is \<open>None\<close>. Operations are atomic steps: the code runs
  them under \<open>RamLock\<close> or on a \<open>sync.Map\<close>.
\<close>

section \<open>Keys\<close>

definition EnvClient :: string where "EnvClient = ''env.client''"
definition ProviderKMSName :: string where "ProviderKMSName = ''kms''"
definition ProviderOOSName :: string where "ProviderOOSName = ''oos''"

definition SecretStoreKey :: "string \<Rightarrow> string \<Rightarrow> string" where
  "SecretStoreKey namespace name = ''namespace/'' @ namespace @ ''/'' @ name"

definition ClusterStoreKey :: "string \<Rightarrow> string" where
  "ClusterStoreKey name = ''cluster/'' @ name"

definition CompositeClientKey :: "string \<Rightarrow> string \<Rightarrow> string" where
  "CompositeClientKey clientName endpoint =
     (if endpoint = [] then clientName else clientName @ ''#'' @ endpoint)"

text \<open>Names of Kubernetes objects contain neither \<open>/\<close> nor \<open>#\<close>.\<close>

definition clean_name :: "string \<Rightarrow> bool" where
  "clean_name s \<longleftrightarrow> CHR ''/'' \<notin> set s \<and> CHR ''#'' \<notin> set s"

lemma append_sep_inj:
  "c \<notin> set xs \<Longrightarrow> c \<notin> set ys \<Longrightarrow> xs @ c # us = ys @ c # vs \<longleftrightarrow> xs = ys \<and> us = vs"
proof (induction xs arbitrary: ys)
  case Nil
  then show ?case by (cases ys) auto
next
  case (Cons x xs)
  then show ?case by (cases ys) auto
qed

lemma SecretStoreKey_inj:
  "clean_name ns \<Longrightarrow> clean_name ns' \<Longrightarrow>
   SecretStoreKey ns n = SecretStoreKey ns' n' \<longleftrightarrow> ns = ns' \<and> n = n'"
  by (simp add: SecretStoreKey_def clean_name_def append_sep_inj)

lemma store_keys_disjoint [simp]:
  "SecretStoreKey ns n \<noteq> ClusterStoreKey m" "ClusterStoreKey m \<noteq> SecretStoreKey ns n"
  "SecretStoreKey ns n \<noteq> EnvClient" "ClusterStoreKey m \<noteq> EnvClient"
  by (simp_all add: SecretStoreKey_def ClusterStoreKey_def EnvClient_def)

lemma SecretStoreKey_hash_free: "clean_name ns \<Longrightarrow> clean_name n \<Longrightarrow> CHR ''#'' \<notin> set (SecretStoreKey ns n)"
  by (simp add: SecretStoreKey_def clean_name_def)

lemma ClusterStoreKey_hash_free: "clean_name n \<Longrightarrow> CHR ''#'' \<notin> set (ClusterStoreKey n)"
  by (simp add: ClusterStoreKey_def clean_name_def)

lemma EnvClient_hash_free: "CHR ''#'' \<notin> set EnvClient"
  by (simp add: EnvClient_def)

text \<open>The plain key of a client and all its endpoint variants.\<close>

definition key_family :: "string \<Rightarrow> string \<Rightarrow> bool" where
  "key_family clientName k \<longleftrightarrow> k = clientName \<or> HasPrefix k (clientName @ ''#'')"

lemma key_family_composite [simp]: "key_family n (CompositeClientKey n e)"
  by (simp add: key_family_def CompositeClientKey_def HasPrefix_iff)

lemma CompositeClientKey_inj:
  "CHR ''#'' \<notin> set n \<Longrightarrow> CHR ''#'' \<notin> set n' \<Longrightarrow>
   CompositeClientKey n e = CompositeClientKey n' e' \<longleftrightarrow> n = n' \<and> e = e'"
  by (auto simp: CompositeClientKey_def append_sep_inj)

lemma key_family_disjoint:
  assumes "CHR ''#'' \<notin> set n" "CHR ''#'' \<notin> set n'" "key_family n k" "key_family n' k"
  shows "n = n'"
  using assms by (auto simp: key_family_def HasPrefix_iff append_sep_inj)

section \<open>Clients and pools\<close>

record ClientObj =
  cl_clientName :: string
  cl_sdk :: "nat option"   \<comment> \<open>the SDK client, nil is None\<close>

text \<open>An interface value: a typed (possibly nil) pointer, or the nil interface.\<close>

datatype SecretClient =
    KMSClient "ClientObj option"
  | OOSClient "ClientObj option"
  | NilClient

record Manager =
  mg_Region :: string
  mg_KmsClientMap :: "SecretClient gomap"
  mg_OosClientMap :: "SecretClient gomap"
  mg_RamLock :: bool         \<comment> \<open>whether the lock is set\<close>
  mg_RamProvider :: "nat option gomap"

definition NewManager :: "string \<Rightarrow> Manager" where
  "NewManager region = \<lparr>mg_Region = region, mg_KmsClientMap = gm_empty, mg_OosClientMap = gm_empty,
     mg_RamLock = True, mg_RamProvider = gm_empty\<rparr>"

definition stopped :: "nat option option \<Rightarrow> nat list" where
  "stopped old = (case old of Some (Some s) \<Rightarrow> [s] | _ \<Rightarrow> [])"

definition RegisterRamProvider :: "string \<Rightarrow> nat option \<Rightarrow> Manager \<Rightarrow> Manager \<times> nat list" where
  "RegisterRamProvider clientName stopper m =
     (if \<not> mg_RamLock m then (m, [])
      else (m\<lparr>mg_RamProvider := gm_put (mg_RamProvider m) clientName stopper\<rparr>,
            stopped (gm_get (mg_RamProvider m) clientName)))"

definition StopProvider :: "string \<Rightarrow> Manager \<Rightarrow> Manager \<times> nat list" where
  "StopProvider clientName m =
     (if \<not> mg_RamLock m then (m, [])
      else (case gm_get (mg_RamProvider m) clientName of
              None \<Rightarrow> (m, [])
            | Some ins \<Rightarrow> (m\<lparr>mg_RamProvider := gm_del (mg_RamProvider m) clientName\<rparr>, stopped (Some ins))))"

subsection \<open>KMS\<close>

definition kms_Register :: "Manager \<Rightarrow> string \<Rightarrow> SecretClient \<Rightarrow> Manager" where
  "kms_Register m clientName client = (case client of
      KMSClient None \<Rightarrow> m
    | KMSClient (Some c) \<Rightarrow>
        if cl_sdk c \<noteq> None then m\<lparr>mg_KmsClientMap := gm_put (mg_KmsClientMap m) clientName client\<rparr> else m
    | _ \<Rightarrow> m)"

definition kms_Delete :: "Manager \<Rightarrow> string \<Rightarrow> Manager \<times> nat list" where
  "kms_Delete m clientName =
     StopProvider clientName (m\<lparr>mg_KmsClientMap := gm_del (mg_KmsClientMap m) clientName\<rparr>)"

fun deleteAll :: "(Manager \<Rightarrow> string \<Rightarrow> Manager \<times> nat list) \<Rightarrow> Manager \<Rightarrow> string list \<Rightarrow> Manager \<times> nat list" where
  "deleteAll del m [] = (m, [])"
| "deleteAll del m (k # ks) = (let (m', s) = del m k; (m'', s') = deleteAll del m' ks in (m'', s @ s'))"

definition staleKeys :: "SecretClient gomap \<Rightarrow> string \<Rightarrow> string list" where
  "staleKeys pool clientName = filter (\<lambda>k. k = clientName \<or> HasPrefix k (clientName @ ''#'')) (gm_keys pool)"

definition kms_DeletePrefixed :: "Manager \<Rightarrow> string \<Rightarrow> Manager \<times> nat list" where
  "kms_DeletePrefixed m clientName = deleteAll kms_Delete m (staleKeys (mg_KmsClientMap m) clientName)"

definition kms_GetClient :: "Manager \<Rightarrow> string \<Rightarrow> SecretClient res" where
  "kms_GetClient m clientName = (case gm_get (mg_KmsClientMap m) clientName of
      Some (KMSClient (Some c)) \<Rightarrow> Inr (KMSClient (Some \<lparr>cl_clientName = clientName, cl_sdk = cl_sdk c\<rparr>))
    | Some _ \<Rightarrow> Inl (errorf (''client type error,clientName '' @ clientName))
    | None \<Rightarrow> Inl (errorf (''client not register,clientName '' @ clientName)))"

subsection \<open>OOS\<close>

definition oos_Register :: "Manager \<Rightarrow> string \<Rightarrow> SecretClient \<Rightarrow> Manager" where
  "oos_Register m clientName client = (case client of
      OOSClient None \<Rightarrow> m
    | OOSClient (Some c) \<Rightarrow>
        if cl_sdk c \<noteq> None then m\<lparr>mg_OosClientMap := gm_put (mg_OosClientMap m) clientName client\<rparr> else m
    | _ \<Rightarrow> m)"

definition oos_Delete :: "Manager \<Rightarrow> string \<Rightarrow> Manager \<times> nat list" where
  "oos_Delete m clientName =
     StopProvider clientName (m\<lparr>mg_OosClientMap := gm_del (mg_OosClientMap m) clientName\<rparr>)"

definition oos_DeletePrefixed :: "Manager \<Rightarrow> string \<Rightarrow> Manager \<times> nat list" where
  "oos_DeletePrefixed m clientName = deleteAll oos_Delete m (staleKeys (mg_OosClientMap m) clientName)"

definition oos_GetClient :: "Manager \<Rightarrow> string \<Rightarrow> SecretClient res" where
  "oos_GetClient m clientName = (case gm_get (mg_OosClientMap m) clientName of
      Some (OOSClient (Some c)) \<Rightarrow> Inr (OOSClient (Some \<lparr>cl_clientName = clientName, cl_sdk = cl_sdk c\<rparr>))
    | Some _ \<Rightarrow> Inl (errorf (''client type error,clientName '' @ clientName))
    | None \<Rightarrow> Inl (errorf (''client not register,clientName '' @ clientName)))"

section \<open>The contract of a client pool\<close>

text \<open>
  \<open>backend.ClientManager\<close>: what the controllers rely on. \<open>registrable\<close> says which clients
  \<open>Register\<close> accepts, \<open>renamed\<close> is the view \<open>GetClient\<close> hands out, \<open>missing\<close> its error.
\<close>

locale client_manager =
  fixes ok :: "'m \<Rightarrow> bool"
    and register :: "'m \<Rightarrow> string \<Rightarrow> 'c \<Rightarrow> 'm"
    and get :: "'m \<Rightarrow> string \<Rightarrow> 'c res"
    and delete :: "'m \<Rightarrow> string \<Rightarrow> 'm"
    and delete_prefixed :: "'m \<Rightarrow> string \<Rightarrow> 'm"
    and registrable :: "'c \<Rightarrow> bool"
    and renamed :: "string \<Rightarrow> 'c \<Rightarrow> 'c"
    and missing :: "string \<Rightarrow> goerror"
  assumes ok_register: "ok m \<Longrightarrow> ok (register m k c)"
    and ok_delete: "ok m \<Longrightarrow> ok (delete m k)"
    and ok_delete_prefixed: "ok m \<Longrightarrow> ok (delete_prefixed m n)"
    and get_register: "ok m \<Longrightarrow> registrable c \<Longrightarrow>
          get (register m k c) k' = (if k' = k then Inr (renamed k c) else get m k')"
    and register_ignored: "\<not> registrable c \<Longrightarrow> register m k c = m"
    and get_delete: "ok m \<Longrightarrow> get (delete m k) k' = (if k' = k then Inl (missing k') else get m k')"
    and get_delete_prefixed: "ok m \<Longrightarrow>
          get (delete_prefixed m n) k = (if key_family n k then Inl (missing k) else get m k)"
begin

definition rebuild :: "'m \<Rightarrow> string \<Rightarrow> 'c \<Rightarrow> 'm" where
  "rebuild m n c = register (delete_prefixed m n) n c"

lemma ok_rebuild: "ok m \<Longrightarrow> ok (rebuild m n c)"
  by (simp add: rebuild_def ok_register ok_delete_prefixed)

lemma get_rebuild: "ok m \<Longrightarrow> registrable c \<Longrightarrow>
   get (rebuild m n c) k =
     (if k = n then Inr (renamed n c) else if key_family n k then Inl (missing k) else get m k)"
  by (simp add: rebuild_def get_register ok_delete_prefixed get_delete_prefixed)

lemma family_retired: "ok m \<Longrightarrow> get (delete_prefixed m n) (CompositeClientKey n e) = Inl (missing (CompositeClientKey n e))"
  by (simp add: get_delete_prefixed)

lemma other_store_untouched:
  assumes "ok m" "CHR ''#'' \<notin> set n" "CHR ''#'' \<notin> set n'" "n \<noteq> n'"
  shows "get (delete_prefixed m n) (CompositeClientKey n' e) = get m (CompositeClientKey n' e)"
  using assms key_family_disjoint [of n n' "CompositeClientKey n' e"] by (auto simp: get_delete_prefixed)

lemma delete_prefixed_idem:
  "ok m \<Longrightarrow> get (delete_prefixed (delete_prefixed m n) n) = get (delete_prefixed m n)"
  by (auto simp: fun_eq_iff get_delete_prefixed ok_delete_prefixed)

end

subsection \<open>The KMS and OOS pools fulfil it\<close>

definition kms_client :: "SecretClient \<Rightarrow> bool" where
  "kms_client c \<longleftrightarrow> (\<exists>o1. c = KMSClient (Some o1) \<and> cl_sdk o1 \<noteq> None)"

definition oos_client :: "SecretClient \<Rightarrow> bool" where
  "oos_client c \<longleftrightarrow> (\<exists>o1. c = OOSClient (Some o1) \<and> cl_sdk o1 \<noteq> None)"

definition pool_ok :: "Manager \<Rightarrow> bool" where
  "pool_ok m \<longleftrightarrow> mg_RamLock m \<and> gm_ok (mg_RamProvider m) \<and>
     gm_ok (mg_KmsClientMap m) \<and> gm_ok (mg_OosClientMap m) \<and>
     (\<forall>k c. gm_get (mg_KmsClientMap m) k = Some c \<longrightarrow> kms_client c) \<and>
     (\<forall>k c. gm_get (mg_OosClientMap m) k = Some c \<longrightarrow> oos_client c)"

fun rename_client :: "string \<Rightarrow> SecretClient \<Rightarrow> SecretClient" where
  "rename_client n (KMSClient (Some c)) = KMSClient (Some \<lparr>cl_clientName = n, cl_sdk = cl_sdk c\<rparr>)"
| "rename_client n (OOSClient (Some c)) = OOSClient (Some \<lparr>cl_clientName = n, cl_sdk = cl_sdk c\<rparr>)"
| "rename_client n c = c"

definition not_registered :: "string \<Rightarrow> goerror" where
  "not_registered k = errorf (''client not register,clientName '' @ k)"

lemma kms_Delete_maps [simp]:
  "mg_KmsClientMap (fst (kms_Delete m k)) = gm_del (mg_KmsClientMap m) k"
  "mg_OosClientMap (fst (kms_Delete m k)) = mg_OosClientMap m"
  "mg_RamLock (fst (kms_Delete m k)) = mg_RamLock m"
  by (auto simp: kms_Delete_def StopProvider_def split: option.splits)

lemma oos_Delete_maps [simp]:
  "mg_OosClientMap (fst (oos_Delete m k)) = gm_del (mg_OosClientMap m) k"
  "mg_KmsClientMap (fst (oos_Delete m k)) = mg_KmsClientMap m"
  "mg_RamLock (fst (oos_Delete m k)) = mg_RamLock m"
  by (auto simp: oos_Delete_def StopProvider_def split: option.splits)

lemma StopProvider_ram: "gm_ok (mg_RamProvider m) \<Longrightarrow> gm_ok (mg_RamProvider (fst (StopProvider k m)))"
  by (auto simp: StopProvider_def split: option.splits)

lemma pool_ok_kms_Delete [intro]: "pool_ok m \<Longrightarrow> pool_ok (fst (kms_Delete m k))"
  using StopProvider_ram [of "m\<lparr>mg_KmsClientMap := gm_del (mg_KmsClientMap m) k\<rparr>" k]
  by (simp add: pool_ok_def) (simp add: kms_Delete_def)

lemma pool_ok_oos_Delete [intro]: "pool_ok m \<Longrightarrow> pool_ok (fst (oos_Delete m k))"
  using StopProvider_ram [of "m\<lparr>mg_OosClientMap := gm_del (mg_OosClientMap m) k\<rparr>" k]
  by (simp add: pool_ok_def) (simp add: oos_Delete_def)

lemma fst_deleteAll_Cons [simp]: "fst (deleteAll del m (k # ks)) = fst (deleteAll del (fst (del m k)) ks)"
  by (simp add: split_beta)

lemma deleteAll_ok:
  assumes "\<And>m k. pool_ok m \<Longrightarrow> pool_ok (fst (del m k))" and "pool_ok m"
  shows "pool_ok (fst (deleteAll del m ks))"
  using assms(2) by (induction ks arbitrary: m) (auto intro: assms(1) simp del: deleteAll.simps(2) simp: )

lemma deleteAll_kms_get: "pool_ok m \<Longrightarrow>
   gm_get (mg_KmsClientMap (fst (deleteAll kms_Delete m ks))) k =
     (if k \<in> set ks then None else gm_get (mg_KmsClientMap m) k)"
proof (induction ks arbitrary: m)
  case (Cons a ks)
  then have "gm_ok (mg_KmsClientMap m)" by (simp add: pool_ok_def)
  with Cons.IH [OF pool_ok_kms_Delete [OF Cons.prems], of a] show ?case
    by (simp del: deleteAll.simps(2))
qed simp

lemma deleteAll_oos_get: "pool_ok m \<Longrightarrow>
   gm_get (mg_OosClientMap (fst (deleteAll oos_Delete m ks))) k =
     (if k \<in> set ks then None else gm_get (mg_OosClientMap m) k)"
proof (induction ks arbitrary: m)
  case (Cons a ks)
  then have "gm_ok (mg_OosClientMap m)" by (simp add: pool_ok_def)
  with Cons.IH [OF pool_ok_oos_Delete [OF Cons.prems], of a] show ?case
    by (simp del: deleteAll.simps(2))
qed simp

lemma staleKeys_iff: "k \<in> set (staleKeys pool n) \<longleftrightarrow> key_family n k \<and> gm_get pool k \<noteq> None"
  by (auto simp: staleKeys_def key_family_def gm_has_keys [symmetric] gm_has_def)

lemma kms_GetClient_pool:
  "pool_ok m \<Longrightarrow> kms_GetClient m k = (case gm_get (mg_KmsClientMap m) k of
     None \<Rightarrow> Inl (not_registered k) | Some c \<Rightarrow> Inr (rename_client k c))"
  by (fastforce simp: kms_GetClient_def pool_ok_def kms_client_def not_registered_def
      split: option.splits SecretClient.splits)

lemma oos_GetClient_pool:
  "pool_ok m \<Longrightarrow> oos_GetClient m k = (case gm_get (mg_OosClientMap m) k of
     None \<Rightarrow> Inl (not_registered k) | Some c \<Rightarrow> Inr (rename_client k c))"
  by (fastforce simp: oos_GetClient_def pool_ok_def oos_client_def not_registered_def
      split: option.splits SecretClient.splits)

lemma kms_Register_eq: "kms_Register m k c =
    (if kms_client c then m\<lparr>mg_KmsClientMap := gm_put (mg_KmsClientMap m) k c\<rparr> else m)"
  by (auto simp: kms_Register_def kms_client_def split: SecretClient.splits option.splits)

lemma oos_Register_eq: "oos_Register m k c =
    (if oos_client c then m\<lparr>mg_OosClientMap := gm_put (mg_OosClientMap m) k c\<rparr> else m)"
  by (auto simp: oos_Register_def oos_client_def split: SecretClient.splits option.splits)

lemma pool_ok_Register [intro]:
  "pool_ok m \<Longrightarrow> pool_ok (kms_Register m k c)" "pool_ok m \<Longrightarrow> pool_ok (oos_Register m k c)"
  by (auto simp: kms_Register_eq oos_Register_eq pool_ok_def)

interpretation kms: client_manager pool_ok kms_Register kms_GetClient
  "\<lambda>m k. fst (kms_Delete m k)" "\<lambda>m n. fst (kms_DeletePrefixed m n)" kms_client rename_client not_registered
proof (unfold_locales, goal_cases)
  case (1 m k c) then show ?case by blast
next
  case (2 m k) then show ?case by blast
next
  case (3 m n) then show ?case unfolding kms_DeletePrefixed_def by (intro deleteAll_ok) auto
next
  case (4 m c k k')
  then have "pool_ok (kms_Register m k c)" by blast
  with 4 show ?case by (simp add: kms_GetClient_pool) (simp add: kms_Register_eq)
next
  case (5 c m k) then show ?case by (simp add: kms_Register_eq)
next
  case (6 m k k')
  then have "pool_ok (fst (kms_Delete m k))" by blast
  moreover have "gm_ok (mg_KmsClientMap m)" using 6 by (simp add: pool_ok_def)
  ultimately show ?case using 6 by (simp add: kms_GetClient_pool)
next
  case (7 m n k)
  have "pool_ok (fst (kms_DeletePrefixed m n))"
    using 7 unfolding kms_DeletePrefixed_def by (intro deleteAll_ok) auto
  with 7 show ?case
    by (auto simp: kms_GetClient_pool kms_DeletePrefixed_def deleteAll_kms_get staleKeys_iff split: option.splits)
qed

interpretation oos: client_manager pool_ok oos_Register oos_GetClient
  "\<lambda>m k. fst (oos_Delete m k)" "\<lambda>m n. fst (oos_DeletePrefixed m n)" oos_client rename_client not_registered
proof (unfold_locales, goal_cases)
  case (1 m k c) then show ?case by blast
next
  case (2 m k) then show ?case by blast
next
  case (3 m n) then show ?case unfolding oos_DeletePrefixed_def by (intro deleteAll_ok) auto
next
  case (4 m c k k')
  then have "pool_ok (oos_Register m k c)" by blast
  with 4 show ?case by (simp add: oos_GetClient_pool) (simp add: oos_Register_eq)
next
  case (5 c m k) then show ?case by (simp add: oos_Register_eq)
next
  case (6 m k k')
  then have "pool_ok (fst (oos_Delete m k))" by blast
  moreover have "gm_ok (mg_OosClientMap m)" using 6 by (simp add: pool_ok_def)
  ultimately show ?case using 6 by (simp add: oos_GetClient_pool)
next
  case (7 m n k)
  have "pool_ok (fst (oos_DeletePrefixed m n))"
    using 7 unfolding oos_DeletePrefixed_def by (intro deleteAll_ok) auto
  with 7 show ?case
    by (auto simp: oos_GetClient_pool oos_DeletePrefixed_def deleteAll_oos_get staleKeys_iff split: option.splits)
qed

lemma pool_ok_NewManager: "pool_ok (NewManager region)"
  by (simp add: pool_ok_def NewManager_def)

end
