(* ===== verification/Auth_Chain.thy ===== *)
theory Auth_Chain
  imports Client_Registry
begin

text \<open>
  The pure part of \<open>pkg/backend/auth/auth.go\<close>: the authentication settings of one client, which
  tiers of the chain they admit and in which order, and the refresh windows. The providers of the
  credential library are recorded by the arguments they are built from.
\<close>

section \<open>Settings\<close>

record AuthConfig =
  ac_ClientName :: string
  ac_RoleArn :: string
  ac_OidcArn :: string
  ac_OidcArnFromDefault :: bool
  ac_AccessKey :: string
  ac_AccessSecretKey :: string
  ac_RoleSessionName :: string
  ac_RoleSessionExpiration :: string
  ac_RemoteRoleArn :: string
  ac_RemoteRoleSessionName :: string
  ac_RefreshPeriod :: int
  ac_TokenFilePath :: string
  ac_ServiceAccountName :: string
  ac_ServiceAccountNamespace :: string
  ac_KubeClient :: bool     \<comment> \<open>whether the client is set\<close>
  ac_TokenAudiences :: "string list"

definition emptyAuthConfig :: AuthConfig where
  "emptyAuthConfig = \<lparr>ac_ClientName = [], ac_RoleArn = [], ac_OidcArn = [], ac_OidcArnFromDefault = False,
     ac_AccessKey = [], ac_AccessSecretKey = [], ac_RoleSessionName = [], ac_RoleSessionExpiration = [],
     ac_RemoteRoleArn = [], ac_RemoteRoleSessionName = [], ac_RefreshPeriod = 0, ac_TokenFilePath = [],
     ac_ServiceAccountName = [], ac_ServiceAccountNamespace = [], ac_KubeClient = False, ac_TokenAudiences = []\<rparr>"

definition defaultRoleSessionName :: string where "defaultRoleSessionName = ''ack-secret-manager''"
definition oidcRoleSessionName :: string where "oidcRoleSessionName = ''ack-secret-manager''"
definition oidcTokenFilePath :: string where
  "oidcTokenFilePath = ''/var/run/secrets/tokens/ack-secret-manager''"
definition oidcProviderCreationErrPrefix :: string where
  "oidcProviderCreationErrPrefix = ''failed to create OIDC provider''"

text \<open>The providers of the chain.\<close>

datatype cred_provider =
    OidcToken string string string string string   \<comment> \<open>STS endpoint, session, token, role, provider ARN\<close>
  | OidcFile string string string string string    \<comment> \<open>STS endpoint, session, file, role, provider ARN\<close>
  | AkAssumeRole string string string string string \<comment> \<open>key, secret, role, STS endpoint, session\<close>
  | AccessKeyPair string string
  | EcsMetadata

text \<open>A credential: the chain, the cross-account role and its session, and the concurrency bound.\<close>

datatype auth_cred = AuthCred (cred_chain: "cred_provider list") (cred_remote: "(string \<times> string) option") (cred_weight: int)

definition NormalizeSessionNames :: "AuthConfig \<Rightarrow> AuthConfig" where
  "NormalizeSessionNames a =
     (let a = (if ac_RoleSessionName a = [] then a\<lparr>ac_RoleSessionName := defaultRoleSessionName\<rparr> else a)
      in if ac_RemoteRoleSessionName a = [] then a\<lparr>ac_RemoteRoleSessionName := defaultRoleSessionName\<rparr> else a)"

definition oidcTierAllowed :: "AuthConfig \<Rightarrow> bool" where
  "oidcTierAllowed a =
     (if ac_OidcArn a = [] \<or> ac_RoleArn a = [] then False
      else if ac_ServiceAccountName a \<noteq> [] then True
      else if \<not> ac_OidcArnFromDefault a then True
      else if ac_AccessKey a = [] \<or> ac_AccessSecretKey a = [] then True
      else False)"

definition emptyAuthChainErrorMessage :: "string \<Rightarrow> string" where
  "emptyAuthChainErrorMessage clientName =
     (let docHint = ''see docs/auth_guide.md for configuration details''
      in if clientName = EnvClient
         then ''no usable authentication tier in the ENV auth chain: '' @
           ''configure ENV credentials (ACCESS_KEY_ID/SECRET_ACCESS_KEY), ENV RRSA variables (ALICLOUD_ROLE_ARN/ALICLOUD_OIDC_PROVIDER_ARN), '' @
           ''or pass --enable-worker-role=true explicitly to use the cluster WorkerRole on a supporting cluster; '' @ docHint
         else ''no usable authentication tier configured for client '' @ goquote clientName @ '': '' @
           ''set authentication fields in the SecretStore/ClusterSecretStore (accessKey/accessKeySecret, serviceAccountRef or oidcProviderArn), '' @
           ''or pass --enable-worker-role=true explicitly to use the cluster WorkerRole on a supporting cluster; '' @ docHint)"

text \<open>An explicit ServiceAccount without the OIDC prerequisites.\<close>

definition oidcPrerequisitesMissing :: "AuthConfig \<Rightarrow> bool" where
  "oidcPrerequisitesMissing a \<longleftrightarrow> ac_ServiceAccountName a \<noteq> [] \<and> (ac_OidcArn a = [] \<or> ac_RoleArn a = [])"

text \<open>The tiers after OIDC; \<open>sts\<close> is the STS endpoint of the region.\<close>

definition akTiers :: "AuthConfig \<Rightarrow> string \<Rightarrow> cred_provider list" where
  "akTiers a sts =
     (if ac_AccessKey a \<noteq> [] \<and> ac_AccessSecretKey a \<noteq> [] \<and> ac_RoleSessionName a \<noteq> [] \<and> ac_RoleArn a \<noteq> []
      then [AkAssumeRole (ac_AccessKey a) (ac_AccessSecretKey a) (ac_RoleArn a) sts (ac_RoleSessionName a)] else []) @
     (if ac_AccessKey a \<noteq> [] \<and> ac_AccessSecretKey a \<noteq> []
      then [AccessKeyPair (ac_AccessKey a) (ac_AccessSecretKey a)] else [])"

definition remoteRole :: "AuthConfig \<Rightarrow> (string \<times> string) option" where
  "remoteRole a = (if ac_RemoteRoleArn a \<noteq> [] \<and> ac_RemoteRoleSessionName a \<noteq> []
      then Some (ac_RemoteRoleArn a, ac_RemoteRoleSessionName a) else None)"

section \<open>Refresh windows\<close>

text \<open>
  Times are nanoseconds; an unset \<open>issuedAt\<close> is \<open>None\<close>. The product with the float 0.2 is
  truncated; for durations below \<open>2 ^ 52\<close> nanoseconds (52 days) it is the integer quotient by 5.
\<close>

definition refreshWindow :: "int \<Rightarrow> int option \<Rightarrow> int \<Rightarrow> int" where
  "refreshWindow expire issuedAt now =
     (let remaining = expire - now
      in if remaining \<le> 0 then 1
         else (case issuedAt of
            None \<Rightarrow> (let window = remaining div 5 in if window \<le> 0 then 1 else window)
          | Some issued \<Rightarrow>
             (let total = expire - issued
              in if total \<le> 0 then 1
                 else (let window = total div 5 in if window \<le> 0 then 1 else window))))"

definition needsRefresh :: "int \<Rightarrow> int option \<Rightarrow> int \<Rightarrow> bool" where
  "needsRefresh expire issuedAt now \<longleftrightarrow> now > expire - refreshWindow expire issuedAt now"

lemma refreshWindow_pos: "refreshWindow expire issuedAt now \<ge> 1"
  by (auto simp: refreshWindow_def Let_def split: option.splits)

lemma needsRefresh_expired: "now \<ge> expire \<Longrightarrow> needsRefresh expire issuedAt now"
  using refreshWindow_pos [of expire issuedAt now] by (simp add: needsRefresh_def)

lemma not_needsRefresh: "\<not> needsRefresh expire issuedAt now \<Longrightarrow> now < expire"
  using needsRefresh_expired by (metis not_less)

lemma NormalizeSessionNames_simps [simp]:
  "ac_RoleSessionName (NormalizeSessionNames a) \<noteq> []" "ac_RemoteRoleSessionName (NormalizeSessionNames a) \<noteq> []"
  "ac_ServiceAccountName (NormalizeSessionNames a) = ac_ServiceAccountName a"
  "ac_ServiceAccountNamespace (NormalizeSessionNames a) = ac_ServiceAccountNamespace a"
  "ac_OidcArn (NormalizeSessionNames a) = ac_OidcArn a" "ac_RoleArn (NormalizeSessionNames a) = ac_RoleArn a"
  "ac_OidcArnFromDefault (NormalizeSessionNames a) = ac_OidcArnFromDefault a"
  "ac_AccessKey (NormalizeSessionNames a) = ac_AccessKey a"
  "ac_AccessSecretKey (NormalizeSessionNames a) = ac_AccessSecretKey a"
  "ac_RemoteRoleArn (NormalizeSessionNames a) = ac_RemoteRoleArn a"
  "ac_ClientName (NormalizeSessionNames a) = ac_ClientName a"
  "ac_KubeClient (NormalizeSessionNames a) = ac_KubeClient a"
  "ac_TokenFilePath (NormalizeSessionNames a) = ac_TokenFilePath a"
  "ac_TokenAudiences (NormalizeSessionNames a) = ac_TokenAudiences a"
  by (simp_all add: NormalizeSessionNames_def Let_def defaultRoleSessionName_def)

end
