(* ===== verification/Kube.thy ===== *)
theory Kube
  imports Auth_Chain "HOL-Library.State_Monad"
begin

text \<open>
  The world the operator runs in. Everything outside the repository (the API server, the cloud
  SDKs, the credential library, clocks, contexts, text engines) is one argument, the record
  \<open>env\<close>: a function per call. Each such function also takes the events so far, so it may answer
  the same call differently at different moments, fail at any time, and reflect concurrent
  writers; no property of the API server is assumed. What a handler does is the list of its
  events, the newest first; a write records whether it succeeded.

  A handler is a step on the process state \<open>proc\<close> (events and in-memory tables) in the
  state monad of the library. \<open>emits P m\<close> says that all events of \<open>m\<close> satisfy \<open>P\<close>; \<open>post m Q\<close>
  relates the result of \<open>m\<close> to its events. Both have introduction rules, one per construct.
\<close>

section \<open>Dynamic values of parsed documents\<close>

text \<open>A Go \<open>interface{}\<close> value as \<open>encoding/json\<close> and \<open>yaml.v3\<close> build it. A number carries its
  \<open>%v\<close> text; \<open>VOther\<close> is any other dynamic type.\<close>

datatype GoVal =
    VNil | VStr string | VNum string | VBool bool
  | VArr "GoVal list" | VObj "(string \<times> GoVal) list" | VOther string

section \<open>Stores behind one interface\<close>

text \<open>\<open>StoreInterface\<close> of the store controllers: a value of one of the two wrappers.\<close>

datatype store = SS SecretStore | CSS ClusterSecretStore

section \<open>Certificates\<close>

text \<open>The certificate constants of \<open>kms/private_ca.go\<close>, by name.\<close>

datatype ca_cert =
    preEnvCa | hzCa | sgpCa | shCa | bjCa | szCa | jpCa | shfCa | deCa
  | hkCa | zjkCa | qdCa | myCa | hhhtCa | usfCa | usvCa | idCa | cdCa
  | gbCa | hyCa | wlcbCa | gzCa | mecCa | phpCa | bjfCa | thaCa | hyaCa

section \<open>Events\<close>

datatype event =
    GetES string string | ListES | ListESByStore string
  | GetSecret string string | ReadSecret string string
  | GetNamespace string | ListNamespaces
  | GetSecretStore string string | GetClusterSecretStore string
  | ListSecretStores | ListClusterSecretStores
  | GetConfigMap string string | GetServiceAccount string string
  | GetCES string | ListCES
  | CreateToken string string "string list"
  | UpdateES ExternalSecret bool | UpdateESStatus ExternalSecret bool
  | CreateSecret Secret bool | UpdateSecret Secret bool | DeleteSecret string string bool
  | UpdateStore store bool | UpdateStoreStatus store bool | PatchStore store store bool
  | UpdateCES ClusterExternalSecret bool | UpdateCESStatus ClusterExternalSecret bool
  | ApplyES ExternalSecret string bool | DeleteES string string bool
  | CtxErr | LimiterWait string | Clock int
  | SdkCall nat DataSource nat
  | SdkNew string string "ca_cert option option" nat   \<comment> \<open>endpoint, region, certificate, refresher\<close>
  | NewRefresher string auth_cred | StopRefresher nat
  | AssumeRoleWithOIDC string string string string string
  | NewKubeClient

section \<open>The environment\<close>

text \<open>The response of a provider SDK: for KMS the secret data and its type, for OOS the value.
  A pointer that may be nil is an option; \<open>None\<close> as a whole is a nil response or body.\<close>

type_synonym sdk_response = "(string option \<times> string option) option"

text \<open>The STS response: the key triple and the expiration text.\<close>

type_synonym sts_response = "(string \<times> string \<times> string) \<times> string"

record env =
  \<comment> \<open>process-wide settings\<close>
  e_EnableWorkerRole :: bool
  e_EnableCrossNamespaceAuthRef :: bool
  e_Getenv :: "string \<Rightarrow> string"
  \<comment> \<open>text engines\<close>
  e_regex :: regex
  e_selector :: selector
  e_ReplaceAllString :: "string \<Rightarrow> (string \<Rightarrow> string \<Rightarrow> string) res"
  e_yaml :: "string \<Rightarrow> GoVal res"
  e_json :: "string \<Rightarrow> GoVal res"
  e_yaml_map :: "string \<Rightarrow> (GoVal gomap) res"
  e_json_map :: "string \<Rightarrow> (GoVal gomap) res"
  e_jmespath :: "string \<Rightarrow> GoVal \<Rightarrow> GoVal res"
  e_yaml_Marshal :: "GoVal \<Rightarrow> string res"
  e_json_Marshal :: "GoVal \<Rightarrow> string res"
  e_base64 :: "string \<Rightarrow> bytes res"
  e_template_Parse :: "string \<Rightarrow> (bytes gomap \<Rightarrow> bytes res) res"
  e_IsQualifiedName :: "string \<Rightarrow> bool"
  \<comment> \<open>API server: reads\<close>
  e_GetES :: "event list \<Rightarrow> string \<Rightarrow> string \<Rightarrow> ExternalSecret res"
  e_ListES :: "event list \<Rightarrow> ExternalSecret list res"
  e_ListESByStore :: "event list \<Rightarrow> string \<Rightarrow> ExternalSecret list res"
  e_GetSecret :: "event list \<Rightarrow> string \<Rightarrow> string \<Rightarrow> Secret res"
  e_ReadSecret :: "event list \<Rightarrow> string \<Rightarrow> string \<Rightarrow> Secret res"
  e_GetNamespace :: "event list \<Rightarrow> string \<Rightarrow> Namespace res"
  e_ListNamespaces :: "event list \<Rightarrow> Namespace list res"
  e_GetSecretStore :: "event list \<Rightarrow> string \<Rightarrow> string \<Rightarrow> SecretStore res"
  e_GetClusterSecretStore :: "event list \<Rightarrow> string \<Rightarrow> ClusterSecretStore res"
  e_ListSecretStores :: "event list \<Rightarrow> SecretStore list res"
  e_ListClusterSecretStores :: "event list \<Rightarrow> ClusterSecretStore list res"
  e_GetConfigMap :: "event list \<Rightarrow> string \<Rightarrow> string \<Rightarrow> string gomap res"
  e_GetServiceAccount :: "event list \<Rightarrow> string \<Rightarrow> string \<Rightarrow> ServiceAccount res"
  e_GetCES :: "event list \<Rightarrow> string \<Rightarrow> ClusterExternalSecret res"
  e_ListCES :: "event list \<Rightarrow> ClusterExternalSecret list res"
  e_CreateToken :: "event list \<Rightarrow> string \<Rightarrow> string \<Rightarrow> string list \<Rightarrow> string res"
  \<comment> \<open>API server: writes; a success returns the stored object\<close>
  e_UpdateES :: "event list \<Rightarrow> ExternalSecret \<Rightarrow> ExternalSecret res"
  e_UpdateESStatus :: "event list \<Rightarrow> ExternalSecret \<Rightarrow> ExternalSecret res"
  e_CreateSecret :: "event list \<Rightarrow> Secret \<Rightarrow> unit res"
  e_UpdateSecret :: "event list \<Rightarrow> Secret \<Rightarrow> unit res"
  e_DeleteSecret :: "event list \<Rightarrow> string \<Rightarrow> string \<Rightarrow> unit res"
  e_UpdateStore :: "event list \<Rightarrow> store \<Rightarrow> store res"
  e_UpdateStoreStatus :: "event list \<Rightarrow> store \<Rightarrow> store res"
  e_PatchStore :: "event list \<Rightarrow> store \<Rightarrow> store \<Rightarrow> unit res"
  e_UpdateCES :: "event list \<Rightarrow> ClusterExternalSecret \<Rightarrow> ClusterExternalSecret res"
  e_UpdateCESStatus :: "event list \<Rightarrow> ClusterExternalSecret \<Rightarrow> ClusterExternalSecret res"
  e_ApplyES :: "event list \<Rightarrow> ExternalSecret \<Rightarrow> string \<Rightarrow> unit res"
  e_DeleteES :: "event list \<Rightarrow> string \<Rightarrow> string \<Rightarrow> unit res"
  \<comment> \<open>context, rate limiter, clock\<close>
  e_ctxErr :: "event list \<Rightarrow> goerror option"
  e_LimiterWait :: "event list \<Rightarrow> string \<Rightarrow> goerror option"
  e_now :: "event list \<Rightarrow> int"
  \<comment> \<open>cloud SDKs and the credential library\<close>
  e_SdkCall :: "event list \<Rightarrow> nat \<Rightarrow> DataSource \<Rightarrow> nat \<Rightarrow> sdk_response res"
  e_SdkWaitDone :: "event list \<Rightarrow> nat \<Rightarrow> goerror option"
  e_SdkNew :: "event list \<Rightarrow> string \<Rightarrow> string \<Rightarrow> ca_cert option option \<Rightarrow> nat \<Rightarrow> nat res"
  e_NewRefresher :: "event list \<Rightarrow> string \<Rightarrow> auth_cred \<Rightarrow> nat"
  e_GetSTSEndpoint :: "string \<Rightarrow> string"
  e_NewStsClient :: "string \<Rightarrow> unit res"
  e_AssumeRoleWithOIDC :: "event list \<Rightarrow> string \<Rightarrow> string \<Rightarrow> string \<Rightarrow> string \<Rightarrow> string \<Rightarrow> sts_response res"
  e_NewCredential :: "string \<times> string \<times> string \<Rightarrow> unit res"
  e_ParseTime :: "string \<Rightarrow> int res"
  e_jwt_ExpirationTime :: "string \<Rightarrow> (int option) res"
  e_NewKubeClient :: "event list \<Rightarrow> unit res"

section \<open>The process\<close>

datatype pkind = KMS | OOS

record provider =
  pv_kind :: pkind
  pv_name :: string
  pv_region :: string
  pv_endpoint :: string
  pv_clusterId :: string
  pv_uid :: string
  pv_maxConcurrent :: int
  pv_Manager :: Manager

record proc =
  tr :: "event list"
  providerMap :: "provider gomap"
  envInitFailure :: "(int \<times> goerror) option"
  compositeKeysByES :: "strset gomap"
  cssDisabledWarned :: strset

type_synonym 'a io = "(proc, 'a) state"

text \<open>A call: the environment's answer to the events so far, and the event it leaves.\<close>

definition call :: "('a \<Rightarrow> event) \<Rightarrow> (event list \<Rightarrow> 'a) \<Rightarrow> 'a io" where
  "call ev f = State (\<lambda>p. let r = f (tr p) in (r, p\<lparr>tr := ev r # tr p\<rparr>))"

definition ret :: "'a \<Rightarrow> 'a io" where
  "ret = State_Monad.return"

definition modify :: "(proc \<Rightarrow> proc) \<Rightarrow> unit io" where
  "modify f = State (\<lambda>p. ((), f p))"

definition read :: "(proc \<Rightarrow> 'a) \<Rightarrow> 'a io" where
  "read f = State (\<lambda>p. (f p, p))"

definition ok :: "'a res \<Rightarrow> bool" where
  "ok r = (case r of Inl _ \<Rightarrow> False | Inr _ \<Rightarrow> True)"

text \<open>A loop over a list that carries an accumulator, and one that may return early
  (\<open>Inl\<close> of the returned value).\<close>

fun forM :: "'a list \<Rightarrow> 'b \<Rightarrow> ('b \<Rightarrow> 'a \<Rightarrow> 'b io) \<Rightarrow> 'b io" where
  "forM [] b f = ret b"
| "forM (x # xs) b f = State_Monad.bind (f b x) (\<lambda>b'. forM xs b' f)"

fun forE :: "'a list \<Rightarrow> 'b \<Rightarrow> ('b \<Rightarrow> 'a \<Rightarrow> ('e + 'b) io) \<Rightarrow> ('e + 'b) io" where
  "forE [] b f = ret (Inr b)"
| "forE (x # xs) b f = State_Monad.bind (f b x)
     (\<lambda>r. case r of Inl e \<Rightarrow> ret (Inl e) | Inr b' \<Rightarrow> forE xs b' f)"

subsection \<open>Running a step\<close>

definition result :: "'a io \<Rightarrow> proc \<Rightarrow> 'a" where "result m p = fst (run_state m p)"
definition final :: "'a io \<Rightarrow> proc \<Rightarrow> proc" where "final m p = snd (run_state m p)"

lemma run_ret [run_simps]: "run_state (ret a) p = (a, p)"
  by (simp add: ret_def State_Monad.return_def)

lemma run_bind [run_simps]:
  "run_state (State_Monad.bind m f) p = (let (a, p') = run_state m p in run_state (f a) p')"
  by (simp add: State_Monad.bind_def)

lemma run_call [run_simps]:
  "run_state (call ev f) p = (f (tr p), p\<lparr>tr := ev (f (tr p)) # tr p\<rparr>)"
  by (simp add: call_def Let_def)

lemma run_modify [run_simps]: "run_state (modify f) p = ((), f p)"
  by (simp add: modify_def)

lemma run_read [run_simps]: "run_state (read f) p = (f p, p)"
  by (simp add: read_def)

lemma bind_ret [simp]: "State_Monad.bind (ret a) f = f a"
  by (simp add: ret_def)

section \<open>What a step emits\<close>

definition post :: "'a io \<Rightarrow> ('a \<Rightarrow> event list \<Rightarrow> bool) \<Rightarrow> bool" where
  "post m Q \<longleftrightarrow> (\<forall>p. \<exists>new. tr (final m p) = new @ tr p \<and> Q (result m p) new)"

definition emits :: "(event \<Rightarrow> bool) \<Rightarrow> 'a io \<Rightarrow> bool" where
  "emits P m \<longleftrightarrow> post m (\<lambda>_ new. list_all P new)"

lemma post_conseq: "post m Q \<Longrightarrow> (\<And>a n. Q a n \<Longrightarrow> R a n) \<Longrightarrow> post m R"
  unfolding post_def by blast

lemma post_ret [post_intros]: "Q a [] \<Longrightarrow> post (ret a) Q"
  by (simp add: post_def result_def final_def run_simps)

lemma post_bind:
  assumes m: "post m Q" and f: "\<And>a n. Q a n \<Longrightarrow> post (f a) (\<lambda>b n'. R b (n' @ n))"
  shows "post (State_Monad.bind m f) R"
  unfolding post_def
proof
  fix p
  obtain a p1 where r: "run_state m p = (a, p1)" by fastforce
  from m [unfolded post_def, rule_format, of p] obtain n
    where n: "tr p1 = n @ tr p" "Q a n" by (auto simp: r result_def final_def)
  from f [OF n(2), unfolded post_def, rule_format, of p1] obtain n'
    where "tr (final (f a) p1) = n' @ tr p1" "R (result (f a) p1) (n' @ n)" by blast
  then have "tr (final (f a) p1) = (n' @ n) @ tr p" using n(1) by simp
  then show "\<exists>new. tr (final (State_Monad.bind m f) p) = new @ tr p \<and>
      R (result (State_Monad.bind m f) p) new"
    using \<open>R (result (f a) p1) (n' @ n)\<close>
    by (intro exI [of _ "n' @ n"]) (simp add: result_def final_def run_simps r)
qed

lemma post_call [post_intros]: "(\<And>t. Q (f t) [ev (f t)]) \<Longrightarrow> post (call ev f) Q"
  by (simp add: post_def result_def final_def run_simps)

lemma post_read [post_intros]: "(\<And>p. Q (f p) []) \<Longrightarrow> post (read f) Q"
  by (simp add: post_def result_def final_def run_simps)

lemma post_modify [post_intros]: "(\<And>p. tr (f p) = tr p) \<Longrightarrow> Q () [] \<Longrightarrow> post (modify f) Q"
  by (simp add: post_def result_def final_def run_simps)

lemma post_emits:
  assumes "post m Q" and "emits P m"
  shows "post m (\<lambda>a n. Q a n \<and> list_all P n)"
  using assms unfolding emits_def post_def by (metis (no_types, lifting) append_same_eq)

lemma emits_ret [emits_intros]: "emits P (ret a)"
  by (simp add: emits_def post_ret)

lemma emits_bind [emits_intros]:
  "emits P m \<Longrightarrow> (\<And>a. emits P (f a)) \<Longrightarrow> emits P (State_Monad.bind m f)"
  unfolding emits_def by (rule post_bind) (auto elim: post_conseq)

lemma emits_call [emits_intros]: "(\<And>r. P (ev r)) \<Longrightarrow> emits P (call ev f)"
  by (simp add: emits_def post_call)

lemma emits_read [emits_intros]: "emits P (read f)"
  by (simp add: emits_def post_read)

lemma emits_modify [emits_intros]: "(\<And>p. tr (f p) = tr p) \<Longrightarrow> emits P (modify f)"
  by (simp add: emits_def post_modify)

lemma emits_if [emits_intros]:
  "(b \<Longrightarrow> emits P m) \<Longrightarrow> (\<not> b \<Longrightarrow> emits P n) \<Longrightarrow> emits P (if b then m else n)"
  by simp

lemma emits_sum [emits_intros]:
  "(\<And>e. x = Inl e \<Longrightarrow> emits P (f e)) \<Longrightarrow> (\<And>a. x = Inr a \<Longrightarrow> emits P (g a)) \<Longrightarrow>
   emits P (case x of Inl e \<Rightarrow> f e | Inr a \<Rightarrow> g a)"
  by (cases x) simp_all

lemma emits_option [emits_intros]:
  "(x = None \<Longrightarrow> emits P f) \<Longrightarrow> (\<And>a. x = Some a \<Longrightarrow> emits P (g a)) \<Longrightarrow>
   emits P (case x of None \<Rightarrow> f | Some a \<Rightarrow> g a)"
  by (cases x) simp_all

lemma emits_prod [emits_intros]:
  "(\<And>a b. x = (a, b) \<Longrightarrow> emits P (f a b)) \<Longrightarrow> emits P (case x of (a, b) \<Rightarrow> f a b)"
  by (cases x) simp

lemma emits_let [emits_intros]: "(\<And>a. a = x \<Longrightarrow> emits P (f a)) \<Longrightarrow> emits P (let a = x in f a)"
  by simp

lemma emits_forM [emits_intros]: "(\<And>b x. x \<in> set xs \<Longrightarrow> emits P (f b x)) \<Longrightarrow> emits P (forM xs b f)"
  by (induction xs arbitrary: b) (auto intro!: emits_intros)

lemma emits_forE [emits_intros]: "(\<And>b x. x \<in> set xs \<Longrightarrow> emits P (f b x)) \<Longrightarrow> emits P (forE xs b f)"
  by (induction xs arbitrary: b) (auto intro!: emits_intros)

lemma emits_mono: "emits P m \<Longrightarrow> (\<And>e. P e \<Longrightarrow> Q e) \<Longrightarrow> emits Q m"
  unfolding emits_def by (erule post_conseq) (auto simp: list_all_iff)

text \<open>Loops: an invariant of the accumulator and the events so far.\<close>

lemma post_forM:
  assumes "\<And>b n x. x \<in> set xs \<Longrightarrow> I b n \<Longrightarrow> post (f b x) (\<lambda>b' n'. I b' (n' @ n))" and "I b n0"
  shows "post (forM xs b f) (\<lambda>b' n'. I b' (n' @ n0))"
  using assms
proof (induction xs arbitrary: b n0)
  case Nil
  then show ?case by (simp add: post_ret)
next
  case (Cons x xs)
  show ?case unfolding forM.simps
  proof (rule post_bind)
    show "post (f b x) (\<lambda>b' n'. I b' (n' @ n0))" using Cons.prems by simp
  next
    fix b' n' assume "I b' (n' @ n0)"
    then have "post (forM xs b' f) (\<lambda>b'' n''. I b'' (n'' @ (n' @ n0)))"
      by (intro Cons.IH) (use Cons.prems(1) in simp_all)
    then show "post (forM xs b' f) (\<lambda>b'' n''. I b'' ((n'' @ n') @ n0))" by simp
  qed
qed

lemma post_forE:
  assumes "\<And>b n x. x \<in> set xs \<Longrightarrow> I b n \<Longrightarrow>
      post (f b x) (\<lambda>r n'. case r of Inl e \<Rightarrow> R e (n' @ n) | Inr b' \<Rightarrow> I b' (n' @ n))"
    and "I b n0"
  shows "post (forE xs b f) (\<lambda>r n'. case r of Inl e \<Rightarrow> R e (n' @ n0) | Inr b' \<Rightarrow> I b' (n' @ n0))"
  using assms
proof (induction xs arbitrary: b n0)
  case Nil
  then show ?case by (simp add: post_ret)
next
  case (Cons x xs)
  show ?case unfolding forE.simps
  proof (rule post_bind)
    show "post (f b x) (\<lambda>r n'. case r of Inl e \<Rightarrow> R e (n' @ n0) | Inr b' \<Rightarrow> I b' (n' @ n0))"
      using Cons.prems by simp
  next
    fix r n' assume r: "case r of Inl e \<Rightarrow> R e (n' @ n0) | Inr b' \<Rightarrow> I b' (n' @ n0)"
    show "post (case r of Inl e \<Rightarrow> ret (Inl e) | Inr b' \<Rightarrow> forE xs b' f)
        (\<lambda>r n''. case r of Inl e \<Rightarrow> R e ((n'' @ n') @ n0) | Inr b' \<Rightarrow> I b' ((n'' @ n') @ n0))"
    proof (cases r)
      case (Inl e)
      then show ?thesis using r by (simp add: post_ret)
    next
      case (Inr b')
      have "post (forE xs b' f) (\<lambda>r n''. case r of Inl e \<Rightarrow> R e ((n'' @ n') @ n0) | Inr b' \<Rightarrow> I b' ((n'' @ n') @ n0))"
        unfolding append_assoc by (rule Cons.IH) (use Cons.prems(1) r Inr in simp_all)
      then show ?thesis using Inr by simp
    qed
  qed
qed

lemma post_if [post_intros]:
  "(b \<Longrightarrow> post m Q) \<Longrightarrow> (\<not> b \<Longrightarrow> post n Q) \<Longrightarrow> post (if b then m else n) Q"
  by simp

lemma post_sum [post_intros]:
  "(\<And>e. x = Inl e \<Longrightarrow> post (f e) Q) \<Longrightarrow> (\<And>a. x = Inr a \<Longrightarrow> post (g a) Q) \<Longrightarrow>
   post (case x of Inl e \<Rightarrow> f e | Inr a \<Rightarrow> g a) Q"
  by (cases x) simp_all

lemma post_option [post_intros]:
  "(x = None \<Longrightarrow> post f Q) \<Longrightarrow> (\<And>a. x = Some a \<Longrightarrow> post (g a) Q) \<Longrightarrow>
   post (case x of None \<Rightarrow> f | Some a \<Rightarrow> g a) Q"
  by (cases x) simp_all

lemma post_prod [post_intros]:
  "(\<And>a b. x = (a, b) \<Longrightarrow> post (f a b) Q) \<Longrightarrow> post (case x of (a, b) \<Rightarrow> f a b) Q"
  by (cases x) simp

text \<open>Stepping through a sequence: the first action is split off, and its events go to the
  condition of the rest.\<close>

lemma post_bind_call [post_intros]:
  "(\<And>t. post (g (f t)) (\<lambda>b n. R b (n @ [ev (f t)]))) \<Longrightarrow> post (State_Monad.bind (call ev f) g) R"
  by (rule post_bind [where Q = "\<lambda>a n. \<exists>t. a = f t \<and> n = [ev (f t)]"]) (auto intro: post_intros)

lemma post_bind_read [post_intros]:
  "(\<And>p. post (g (f p)) R) \<Longrightarrow> post (State_Monad.bind (read f) g) R"
  by (rule post_bind [where Q = "\<lambda>a n. (\<exists>p. a = f p) \<and> n = []"]) (auto intro: post_intros)

lemma post_bind_modify [post_intros]:
  "(\<And>p. tr (h p) = tr p) \<Longrightarrow> post (g ()) R \<Longrightarrow> post (State_Monad.bind (modify h) g) R"
  by (rule post_bind [where Q = "\<lambda>a n. n = []"]) (auto intro: post_intros)

lemma bind_bind: "State_Monad.bind (State_Monad.bind m f) g = State_Monad.bind m (\<lambda>x. State_Monad.bind (f x) g)"
  by (simp add: State_Monad.bind_def split_beta)

lemma post_bind_bind [post_intros]:
  "post (State_Monad.bind m (\<lambda>x. State_Monad.bind (f x) g)) R \<Longrightarrow> post (State_Monad.bind (State_Monad.bind m f) g) R"
  by (simp add: bind_bind)

lemma post_bind_ret [post_intros]: "post (g a) R \<Longrightarrow> post (State_Monad.bind (ret a) g) R"
  by simp

lemma post_bind_if [post_intros]:
  "(b \<Longrightarrow> post (State_Monad.bind m g) R) \<Longrightarrow> (\<not> b \<Longrightarrow> post (State_Monad.bind n g) R) \<Longrightarrow>
   post (State_Monad.bind (if b then m else n) g) R"
  by simp

lemma post_bind_sum [post_intros]:
  "(\<And>e. x = Inl e \<Longrightarrow> post (State_Monad.bind (h e) g) R) \<Longrightarrow>
   (\<And>a. x = Inr a \<Longrightarrow> post (State_Monad.bind (k a) g) R) \<Longrightarrow>
   post (State_Monad.bind (case x of Inl e \<Rightarrow> h e | Inr a \<Rightarrow> k a) g) R"
  by (cases x) simp_all

lemma post_bind_option [post_intros]:
  "(x = None \<Longrightarrow> post (State_Monad.bind m g) R) \<Longrightarrow> (\<And>a. x = Some a \<Longrightarrow> post (State_Monad.bind (k a) g) R) \<Longrightarrow>
   post (State_Monad.bind (case x of None \<Rightarrow> m | Some a \<Rightarrow> k a) g) R"
  by (cases x) simp_all

lemma post_bind_prod [post_intros]:
  "(\<And>a b. x = (a, b) \<Longrightarrow> post (State_Monad.bind (k a b) g) R) \<Longrightarrow>
   post (State_Monad.bind (case x of (a, b) \<Rightarrow> k a b) g) R"
  by (cases x) simp

lemma post_let [post_intros]: "(\<And>a. a = x \<Longrightarrow> post (f a) R) \<Longrightarrow> post (let a = x in f a) R"
  by simp

lemma post_of_emits: "emits P m \<Longrightarrow> post m (\<lambda>_ n. list_all P n)"
  by (simp add: emits_def)

text \<open>A callee known only by the events it emits.\<close>

lemma post_bind_emits:
  "emits P m \<Longrightarrow> (\<And>a n. list_all P n \<Longrightarrow> post (f a) (\<lambda>b n'. R b (n' @ n))) \<Longrightarrow> post (State_Monad.bind m f) R"
  by (rule post_bind [OF post_of_emits])

lemma post_emits_only: "emits P m \<Longrightarrow> (\<And>a n. list_all P n \<Longrightarrow> R a n) \<Longrightarrow> post m R"
  by (rule post_conseq [OF post_of_emits])

lemma result_ret [run_simps]: "result (ret a) p = a" "final (ret a) p = p"
  by (simp_all add: result_def final_def run_ret)

lemma result_call [run_simps]:
  "result (call ev f) p = f (tr p)" "final (call ev f) p = p\<lparr>tr := ev (f (tr p)) # tr p\<rparr>"
  by (simp_all add: result_def final_def run_call)

lemma result_read [run_simps]: "result (read g) p = g p" "final (read g) p = p"
  by (simp_all add: result_def final_def run_read)

lemma result_modify [run_simps]: "result (modify h) p = ()" "final (modify h) p = h p"
  by (simp_all add: result_def final_def run_modify)

lemma result_bind [run_simps]:
  "result (State_Monad.bind m f) p = result (f (result m p)) (final m p)"
  "final (State_Monad.bind m f) p = final (f (result m p)) (final m p)"
  by (simp_all add: result_def final_def run_bind split_beta)

lemma ret_inj: "ret a = ret b \<longleftrightarrow> a = b"
  using result_ret(1) by metis

text \<open>A callee whose answer is constrained: the rest is judged on the answers it can give.\<close>

lemma emits_bind_result:
  assumes "emits P m" "\<And>p. emits P (f (result m p))"
  shows "emits P (State_Monad.bind m f)"
  unfolding emits_def post_def
proof
  fix p
  obtain n where n: "tr (final m p) = n @ tr p" "list_all P n" using assms(1) by (auto simp: emits_def post_def)
  obtain n' where "tr (final (f (result m p)) (final m p)) = n' @ tr (final m p)" "list_all P n'"
    using assms(2) [of p] by (auto simp: emits_def post_def)
  with n show "\<exists>new. tr (final (State_Monad.bind m f) p) = new @ tr p \<and> list_all P new"
    by (intro exI [of _ "n' @ n"]) (simp add: run_simps)
qed

text \<open>The events a run appended.\<close>

definition new_events :: "'a io \<Rightarrow> proc \<Rightarrow> event list" where
  "new_events m p = take (length (tr (final m p)) - length (tr p)) (tr (final m p))"

lemma post_new_events: "post m Q \<Longrightarrow> Q (result m p) (new_events m p)"
  by (auto simp: post_def new_events_def dest!: spec [of _ p])

lemma emits_new_events: "emits P m \<Longrightarrow> e \<in> set (new_events m p) \<Longrightarrow> P e"
  using post_new_events [of m "\<lambda>_ new. list_all P new" p] by (simp add: emits_def list_all_iff)

section \<open>API calls\<close>

definition getES :: "env \<Rightarrow> string \<Rightarrow> string \<Rightarrow> ExternalSecret res io" where
  "getES E ns n = call (\<lambda>_. GetES ns n) (\<lambda>t. e_GetES E t ns n)"
definition listES :: "env \<Rightarrow> ExternalSecret list res io" where
  "listES E = call (\<lambda>_. ListES) (\<lambda>t. e_ListES E t)"
definition listESByStore :: "env \<Rightarrow> string \<Rightarrow> ExternalSecret list res io" where
  "listESByStore E k = call (\<lambda>_. ListESByStore k) (\<lambda>t. e_ListESByStore E t k)"
definition getSecret :: "env \<Rightarrow> string \<Rightarrow> string \<Rightarrow> Secret res io" where
  "getSecret E ns n = call (\<lambda>_. GetSecret ns n) (\<lambda>t. e_GetSecret E t ns n)"
definition readSecret :: "env \<Rightarrow> string \<Rightarrow> string \<Rightarrow> Secret res io" where
  "readSecret E ns n = call (\<lambda>_. ReadSecret ns n) (\<lambda>t. e_ReadSecret E t ns n)"
definition getNamespace :: "env \<Rightarrow> string \<Rightarrow> Namespace res io" where
  "getNamespace E n = call (\<lambda>_. GetNamespace n) (\<lambda>t. e_GetNamespace E t n)"
definition listNamespaces :: "env \<Rightarrow> Namespace list res io" where
  "listNamespaces E = call (\<lambda>_. ListNamespaces) (\<lambda>t. e_ListNamespaces E t)"
definition getSecretStore_api :: "env \<Rightarrow> string \<Rightarrow> string \<Rightarrow> SecretStore res io" where
  "getSecretStore_api E ns n = call (\<lambda>_. GetSecretStore ns n) (\<lambda>t. e_GetSecretStore E t ns n)"
definition getClusterSecretStore_api :: "env \<Rightarrow> string \<Rightarrow> ClusterSecretStore res io" where
  "getClusterSecretStore_api E n = call (\<lambda>_. GetClusterSecretStore n) (\<lambda>t. e_GetClusterSecretStore E t n)"
definition listSecretStores :: "env \<Rightarrow> SecretStore list res io" where
  "listSecretStores E = call (\<lambda>_. ListSecretStores) (\<lambda>t. e_ListSecretStores E t)"
definition listClusterSecretStores :: "env \<Rightarrow> ClusterSecretStore list res io" where
  "listClusterSecretStores E = call (\<lambda>_. ListClusterSecretStores) (\<lambda>t. e_ListClusterSecretStores E t)"
definition getConfigMap :: "env \<Rightarrow> string \<Rightarrow> string \<Rightarrow> string gomap res io" where
  "getConfigMap E ns n = call (\<lambda>_. GetConfigMap ns n) (\<lambda>t. e_GetConfigMap E t ns n)"
definition getServiceAccount :: "env \<Rightarrow> string \<Rightarrow> string \<Rightarrow> ServiceAccount res io" where
  "getServiceAccount E ns n = call (\<lambda>_. GetServiceAccount ns n) (\<lambda>t. e_GetServiceAccount E t ns n)"
definition getCES :: "env \<Rightarrow> string \<Rightarrow> ClusterExternalSecret res io" where
  "getCES E n = call (\<lambda>_. GetCES n) (\<lambda>t. e_GetCES E t n)"
definition listCES :: "env \<Rightarrow> ClusterExternalSecret list res io" where
  "listCES E = call (\<lambda>_. ListCES) (\<lambda>t. e_ListCES E t)"
definition createToken :: "env \<Rightarrow> string \<Rightarrow> string \<Rightarrow> string list \<Rightarrow> string res io" where
  "createToken E ns n auds = call (\<lambda>_. CreateToken ns n auds) (\<lambda>t. e_CreateToken E t ns n auds)"
definition updateES :: "env \<Rightarrow> ExternalSecret \<Rightarrow> ExternalSecret res io" where
  "updateES E es = call (\<lambda>r. UpdateES es (ok r)) (\<lambda>t. e_UpdateES E t es)"
definition updateESStatus :: "env \<Rightarrow> ExternalSecret \<Rightarrow> ExternalSecret res io" where
  "updateESStatus E es = call (\<lambda>r. UpdateESStatus es (ok r)) (\<lambda>t. e_UpdateESStatus E t es)"
definition createSecret :: "env \<Rightarrow> Secret \<Rightarrow> unit res io" where
  "createSecret E s = call (\<lambda>r. CreateSecret s (ok r)) (\<lambda>t. e_CreateSecret E t s)"
definition updateSecret_api :: "env \<Rightarrow> Secret \<Rightarrow> unit res io" where
  "updateSecret_api E s = call (\<lambda>r. UpdateSecret s (ok r)) (\<lambda>t. e_UpdateSecret E t s)"
definition deleteSecret :: "env \<Rightarrow> string \<Rightarrow> string \<Rightarrow> unit res io" where
  "deleteSecret E ns n = call (\<lambda>r. DeleteSecret ns n (ok r)) (\<lambda>t. e_DeleteSecret E t ns n)"
definition updateStore :: "env \<Rightarrow> store \<Rightarrow> store res io" where
  "updateStore E s = call (\<lambda>r. UpdateStore s (ok r)) (\<lambda>t. e_UpdateStore E t s)"
definition updateStoreStatus_api :: "env \<Rightarrow> store \<Rightarrow> store res io" where
  "updateStoreStatus_api E s = call (\<lambda>r. UpdateStoreStatus s (ok r)) (\<lambda>t. e_UpdateStoreStatus E t s)"
definition patchStore :: "env \<Rightarrow> store \<Rightarrow> store \<Rightarrow> unit res io" where
  "patchStore E old new = call (\<lambda>r. PatchStore old new (ok r)) (\<lambda>t. e_PatchStore E t old new)"
definition updateCES :: "env \<Rightarrow> ClusterExternalSecret \<Rightarrow> ClusterExternalSecret res io" where
  "updateCES E c = call (\<lambda>r. UpdateCES c (ok r)) (\<lambda>t. e_UpdateCES E t c)"
definition updateCESStatus :: "env \<Rightarrow> ClusterExternalSecret \<Rightarrow> ClusterExternalSecret res io" where
  "updateCESStatus E c = call (\<lambda>r. UpdateCESStatus c (ok r)) (\<lambda>t. e_UpdateCESStatus E t c)"
definition applyES :: "env \<Rightarrow> ExternalSecret \<Rightarrow> string \<Rightarrow> unit res io" where
  "applyES E es owner = call (\<lambda>r. ApplyES es owner (ok r)) (\<lambda>t. e_ApplyES E t es owner)"
definition deleteES :: "env \<Rightarrow> string \<Rightarrow> string \<Rightarrow> unit res io" where
  "deleteES E ns n = call (\<lambda>r. DeleteES ns n (ok r)) (\<lambda>t. e_DeleteES E t ns n)"
definition ctxErr :: "env \<Rightarrow> goerror option io" where
  "ctxErr E = call (\<lambda>_. CtxErr) (\<lambda>t. e_ctxErr E t)"
definition timeNow :: "env \<Rightarrow> int io" where
  "timeNow E = call Clock (\<lambda>t. e_now E t)"

lemmas api_defs = getES_def listES_def listESByStore_def getSecret_def readSecret_def getNamespace_def
  listNamespaces_def getSecretStore_api_def getClusterSecretStore_api_def listSecretStores_def
  listClusterSecretStores_def getConfigMap_def getServiceAccount_def getCES_def listCES_def
  createToken_def updateES_def updateESStatus_def createSecret_def updateSecret_api_def deleteSecret_def
  updateStore_def updateStoreStatus_api_def patchStore_def updateCES_def updateCESStatus_def
  applyES_def deleteES_def ctxErr_def timeNow_def

section \<open>Kinds of events\<close>

fun secret_write :: "event \<Rightarrow> bool" where
  "secret_write (CreateSecret _ _) = True"
| "secret_write (UpdateSecret _ _) = True"
| "secret_write _ = False"

fun secret_delete :: "event \<Rightarrow> bool" where
  "secret_delete (DeleteSecret _ _ _) = True"
| "secret_delete _ = False"

fun object_write :: "event \<Rightarrow> bool" where
  "object_write (UpdateES _ _) = True"
| "object_write (UpdateESStatus _ _) = True"
| "object_write (CreateSecret _ _) = True"
| "object_write (UpdateSecret _ _) = True"
| "object_write (DeleteSecret _ _ _) = True"
| "object_write (UpdateStore _ _) = True"
| "object_write (UpdateStoreStatus _ _) = True"
| "object_write (PatchStore _ _ _) = True"
| "object_write (UpdateCES _ _) = True"
| "object_write (UpdateCESStatus _ _) = True"
| "object_write (ApplyES _ _ _) = True"
| "object_write (DeleteES _ _ _) = True"
| "object_write _ = False"

definition read_only :: "event \<Rightarrow> bool" where
  "read_only e \<longleftrightarrow> \<not> object_write e"

section \<open>A sample environment\<close>

text \<open>
  An environment in which nothing exists and every write succeeds; the examples that show a
  property at work change the fields they need.
\<close>

definition notFound :: goerror where
  "notFound = \<lparr>err_msg = ''not found'', err_chain = [NotFound]\<rparr>"

definition sampleEnv :: env where
  "sampleEnv = \<lparr>
     e_EnableWorkerRole = False, e_EnableCrossNamespaceAuthRef = False, e_Getenv = (\<lambda>_. []),
     e_regex = (\<lambda>r. Inr (\<lambda>s. s = r)), e_selector = (\<lambda>_. Inr (\<lambda>_. True)),
     e_ReplaceAllString = (\<lambda>_. Inr (\<lambda>s _. s)),
     e_yaml = (\<lambda>s. Inr (VStr s)), e_json = (\<lambda>s. Inr (VStr s)),
     e_yaml_map = (\<lambda>_. Inr []), e_json_map = (\<lambda>_. Inr []),
     e_jmespath = (\<lambda>_ v. Inr v), e_yaml_Marshal = (\<lambda>_. Inr []), e_json_Marshal = (\<lambda>_. Inr []),
     e_base64 = (\<lambda>s. Inr s), e_template_Parse = (\<lambda>t. Inr (\<lambda>_. Inr t)), e_IsQualifiedName = (\<lambda>k. k \<noteq> []),
     e_GetES = (\<lambda>_ _ _. Inl notFound), e_ListES = (\<lambda>_. Inr []), e_ListESByStore = (\<lambda>_ _. Inr []),
     e_GetSecret = (\<lambda>_ _ _. Inl notFound), e_ReadSecret = (\<lambda>_ _ _. Inl notFound),
     e_GetNamespace = (\<lambda>_ _. Inl notFound), e_ListNamespaces = (\<lambda>_. Inr []),
     e_GetSecretStore = (\<lambda>_ _ _. Inl notFound), e_GetClusterSecretStore = (\<lambda>_ _. Inl notFound),
     e_ListSecretStores = (\<lambda>_. Inr []), e_ListClusterSecretStores = (\<lambda>_. Inr []),
     e_GetConfigMap = (\<lambda>_ _ _. Inl notFound), e_GetServiceAccount = (\<lambda>_ _ _. Inl notFound),
     e_GetCES = (\<lambda>_ _. Inl notFound), e_ListCES = (\<lambda>_. Inr []),
     e_CreateToken = (\<lambda>_ _ _ _. Inr []),
     e_UpdateES = (\<lambda>_ x. Inr x), e_UpdateESStatus = (\<lambda>_ x. Inr x),
     e_CreateSecret = (\<lambda>_ _. Inr ()), e_UpdateSecret = (\<lambda>_ _. Inr ()), e_DeleteSecret = (\<lambda>_ _ _. Inr ()),
     e_UpdateStore = (\<lambda>_ x. Inr x), e_UpdateStoreStatus = (\<lambda>_ x. Inr x), e_PatchStore = (\<lambda>_ _ _. Inr ()),
     e_UpdateCES = (\<lambda>_ x. Inr x), e_UpdateCESStatus = (\<lambda>_ x. Inr x),
     e_ApplyES = (\<lambda>_ _ _. Inr ()), e_DeleteES = (\<lambda>_ _ _. Inr ()),
     e_ctxErr = (\<lambda>_. None), e_LimiterWait = (\<lambda>_ _. None), e_now = (\<lambda>_. 0),
     e_SdkCall = (\<lambda>_ _ _ _. Inr None), e_SdkWaitDone = (\<lambda>_ _. None),
     e_SdkNew = (\<lambda>_ _ _ _ _. Inr 0), e_NewRefresher = (\<lambda>_ _ _. 0),
     e_GetSTSEndpoint = (\<lambda>r. r), e_NewStsClient = (\<lambda>_. Inr ()),
     e_AssumeRoleWithOIDC = (\<lambda>_ _ _ _ _ _. Inr (([], [], []), [])), e_NewCredential = (\<lambda>_. Inr ()),
     e_ParseTime = (\<lambda>_. Inr 0), e_jwt_ExpirationTime = (\<lambda>_. Inr None), e_NewKubeClient = (\<lambda>_. Inr ())\<rparr>"

definition sampleProc :: proc where
  "sampleProc = \<lparr>tr = [], providerMap = gm_empty, envInitFailure = None, compositeKeysByES = gm_empty,
     cssDisabledWarned = []\<rparr>"

end
