(* ===== verification/Secret_Data.thy ===== *)
theory Secret_Data
  imports Kube
begin

text \<open>
  From a provider's answer to the entries of a Secret: \<open>provider/common/process_secret_data.go\<close>,
  the document helpers of \<open>utils/util.go\<close>, and the fetch paths of \<open>kms_service.go\<close> and
  \<open>oos_service.go\<close>. The parsers, printers and the JMESPath engine are fields of \<open>env\<close>.
\<close>

section \<open>Documents\<close>

definition BinaryType :: string where "BinaryType = ''binary''"

definition IsValidJSON :: "env \<Rightarrow> bytes \<Rightarrow> bool" where
  "IsValidJSON E data =
     (if length data = 0 then False
      else if hd data \<noteq> CHR ''{'' \<and> hd data \<noteq> CHR ''['' then False
      else ok (e_json E data))"

definition JsonStr :: "env \<Rightarrow> GoVal \<Rightarrow> string" where
  "JsonStr E v = (case v of
      VStr s \<Rightarrow> s
    | _ \<Rightarrow> (case e_json_Marshal E v of Inl _ \<Rightarrow> [] | Inr s \<Rightarrow> s))"

definition YamlStr :: "env \<Rightarrow> GoVal \<Rightarrow> string" where
  "YamlStr E v = (case v of
      VStr s \<Rightarrow> s
    | _ \<Rightarrow> (case e_yaml_Marshal E v of Inl _ \<Rightarrow> [] | Inr s \<Rightarrow> s))"

text \<open>The type switch on one search result: its text, or \<open>None\<close> when the entry is skipped.\<close>

definition jmesValue :: "env \<Rightarrow> bool \<Rightarrow> GoVal res \<Rightarrow> string option" where
  "jmesValue E marshalToYaml found = (case found of
      Inl _ \<Rightarrow> None
    | Inr v \<Rightarrow> (case v of
         VNil \<Rightarrow> None
       | VStr s \<Rightarrow> Some s
       | VNum t \<Rightarrow> Some t
       | VBool b \<Rightarrow> Some (if b then ''true'' else ''false'')
       | VOther _ \<Rightarrow> None
       | _ \<Rightarrow> (case (if marshalToYaml then e_yaml_Marshal E v else e_json_Marshal E v) of
                Inl _ \<Rightarrow> None | Inr s \<Rightarrow> Some s)))"

definition jmesTarget :: "string \<Rightarrow> JMESPathObject \<Rightarrow> string" where
  "jmesTarget key jp = (if jp_ObjectAlias jp = [] then key else jp_ObjectAlias jp)"

fun jmesLoop :: "env \<Rightarrow> bool \<Rightarrow> GoVal \<Rightarrow> string \<Rightarrow> JMESPathObject list \<Rightarrow> string gomap \<Rightarrow> string gomap" where
  "jmesLoop E y data key [] jsonMap = jsonMap"
| "jmesLoop E y data key (jp # jps) jsonMap =
     (case jmesValue E y (e_jmespath E (jp_Path jp) data) of
        None \<Rightarrow> jmesLoop E y data key jps jsonMap
      | Some strValue \<Rightarrow> jmesLoop E y data key jps (gm_put jsonMap (jmesTarget key jp) strValue))"

definition GetJsonSecrets :: "env \<Rightarrow> JMESPathObject list \<Rightarrow> string \<Rightarrow> string \<Rightarrow> (string gomap) res" where
  "GetJsonSecrets E jmesObj secretValue key =
     (let marshalToYaml = \<not> IsValidJSON E secretValue
      in case (case e_yaml E secretValue of Inr d \<Rightarrow> Inr d | Inl _ \<Rightarrow> e_json E secretValue) of
           Inl _ \<Rightarrow> Inl (errorf (''invalid JSON or YAML used with jmesPath in secret key: '' @ key))
         | Inr data \<Rightarrow> Inr (jmesLoop E marshalToYaml data key jmesObj gm_empty))"

fun rewriteLoop :: "(string \<Rightarrow> string) \<Rightarrow> string gomap \<Rightarrow> string gomap \<Rightarrow> string gomap" where
  "rewriteLoop newKey [] out = out"
| "rewriteLoop newKey ((k, v) # rest) out = rewriteLoop newKey rest (gm_put out (newKey k) v)"

definition RewriteRegexp :: "env \<Rightarrow> ReplaceRule \<Rightarrow> string gomap \<Rightarrow> (string gomap) res" where
  "RewriteRegexp E operation kv = (case e_ReplaceAllString E (rr_Source operation) of
      Inl e \<Rightarrow> Inl (wrap_v (''failed to compile replaceKey regexp '' @ goquote (rr_Source operation) @ '': '') e)
    | Inr re \<Rightarrow> Inr (rewriteLoop (\<lambda>k. re k (rr_Target operation)) kv gm_empty))"

section \<open>Entries of the Secret\<close>

definition ResolveTargetKey :: "DataSource \<Rightarrow> string" where
  "ResolveTargetKey data = (if ds_Name data \<noteq> [] then ds_Name data else ds_Key data)"

definition ProcessExternalSecretData :: "env \<Rightarrow> DataSource \<Rightarrow> bytes \<Rightarrow> (bytes gomap) res" where
  "ProcessExternalSecretData E data externalData =
     (let fallback = Inr (gm_put gm_empty (ResolveTargetKey data) externalData)
      in if length (ds_JMESPath data) > 0
         then (case GetJsonSecrets E (ds_JMESPath data) externalData (ds_Key data) of
                 Inl _ \<Rightarrow> fallback
               | Inr jsonDataMap \<Rightarrow>
                   if gm_len jsonDataMap > 0 then Inr (gm_overlay gm_empty jsonDataMap) else fallback)
         else fallback)"

fun rewriteAll :: "env \<Rightarrow> ReplaceRule list \<Rightarrow> string gomap \<Rightarrow> (string gomap) res" where
  "rewriteAll E [] kv = Inr kv"
| "rewriteAll E (rule # rules) kv = (case RewriteRegexp E rule kv of
      Inl e \<Rightarrow> Inl e
    | Inr kv' \<Rightarrow> rewriteAll E rules kv')"

definition ProcessExtractedExternalSecretData :: "env \<Rightarrow> DataProcess \<Rightarrow> bytes \<Rightarrow> (bytes gomap) res" where
  "ProcessExtractedExternalSecretData E data externalData =
     (let isJSON = IsValidJSON E externalData
      in case (if isJSON then e_json_map E externalData else e_yaml_map E externalData) of
           Inl e \<Rightarrow> Inl e
         | Inr tempKV \<Rightarrow>
             (let kv = map (\<lambda>(k, v). (k, if isJSON then JsonStr E v else YamlStr E v)) tempKV
              in case rewriteAll E (dp_ReplaceKey data) kv of
                   Inl e \<Rightarrow> Inl e
                 | Inr kv' \<Rightarrow> Inr (gm_overlay gm_empty kv')))"

section \<open>Fetching\<close>

text \<open>
  One fetch is at most three SDK calls; the event carries the number of calls made. The answers
  of the SDK to the attempts, and the context during the waits, are functions of the attempt.
\<close>

definition sdkFetch :: "env \<Rightarrow> nat \<Rightarrow> DataSource \<Rightarrow> (nat \<times> sdk_response res) io" where
  "sdkFetch E sdk data = call (\<lambda>r. SdkCall sdk data (fst r))
     (\<lambda>t. FetchWithRetry (e_SdkWaitDone E t) (e_SdkCall E t sdk data))"

definition kms_getExternalData :: "env \<Rightarrow> ClientObj \<Rightarrow> DataSource \<Rightarrow> bytes res io" where
  "kms_getExternalData E c data = (case cl_sdk c of
      None \<Rightarrow> ret (Inl (errorf (''kms client is nil,kms key '' @ ds_Key data)))
    | Some sdk \<Rightarrow> do {
        (_, fetched) \<leftarrow> sdkFetch E sdk data;
        ret (case fetched of
            Inl e \<Rightarrow> Inl e
          | Inr None \<Rightarrow> Inl (errorf (''get secret value from kms failed because response is empty, key '' @ ds_Key data))
          | Inr (Some (None, _)) \<Rightarrow>
              Inl (errorf (''get secret value from kms failed because secret data is empty, key '' @ ds_Key data))
          | Inr (Some (Some secretData, secretDataType)) \<Rightarrow>
              if secretDataType = Some BinaryType
              then (case e_base64 E secretData of
                      Inl e \<Rightarrow> Inl (errorf (''decode binary data error '' @ err_msg e @ '',key '' @ ds_Key data))
                    | Inr originData \<Rightarrow> Inr originData)
              else Inr secretData)
      })"

definition oos_getExternalData :: "env \<Rightarrow> ClientObj \<Rightarrow> DataSource \<Rightarrow> bytes res io" where
  "oos_getExternalData E c data = (case cl_sdk c of
      None \<Rightarrow> ret (Inl (errorf (''oos client is nil,oos key '' @ ds_Key data)))
    | Some sdk \<Rightarrow> do {
        (_, fetched) \<leftarrow> sdkFetch E sdk data;
        ret (case fetched of
            Inl e \<Rightarrow> Inl e
          | Inr (Some (Some value, _)) \<Rightarrow> Inr value
          | Inr _ \<Rightarrow>
              Inl (errorf (''get secret parameter from oos failed because response is empty, key '' @ ds_Key data)))
      })"

text \<open>
  Dispatch of the interface method on the client's type. A nil client would panic; the pools
  hold none (\<open>pool_ok\<close>), and the model gives an error.
\<close>

definition getExternalData :: "env \<Rightarrow> SecretClient \<Rightarrow> DataSource \<Rightarrow> bytes res io" where
  "getExternalData E client data = (case client of
      KMSClient (Some c) \<Rightarrow> kms_getExternalData E c data
    | OOSClient (Some c) \<Rightarrow> oos_getExternalData E c data
    | _ \<Rightarrow> ret (Inl (errorf ''nil client'')))"

definition GetExternalSecret :: "env \<Rightarrow> SecretClient \<Rightarrow> DataSource \<Rightarrow> (bytes gomap) res io" where
  "GetExternalSecret E client data = do {
     externalData \<leftarrow> getExternalData E client data;
     ret (case externalData of Inl e \<Rightarrow> Inl e | Inr d \<Rightarrow> ProcessExternalSecretData E data d)
   }"

definition GetExternalSecretWithExtract :: "env \<Rightarrow> SecretClient \<Rightarrow> DataProcess \<Rightarrow> (bytes gomap) res io" where
  "GetExternalSecretWithExtract E client data = (case dp_Extract data of
      None \<Rightarrow> ret (Inl (errorf ''extract data is empty''))
    | Some extract \<Rightarrow> do {
        externalData \<leftarrow> getExternalData E client extract;
        ret (case externalData of Inl e \<Rightarrow> Inl e | Inr d \<Rightarrow> ProcessExtractedExternalSecretData E data d)
      })"

section \<open>Keys an entry produces\<close>

lemma gm_ok_jmesLoop: "gm_ok m \<Longrightarrow> gm_ok (jmesLoop E y d key jps m)"
  by (induction jps arbitrary: m) (auto split: option.splits)

lemma jmesLoop_keys:
  "gm_has (jmesLoop E y d key jps m) k \<Longrightarrow> gm_has m k \<or> k \<in> jmesTarget key ` set jps"
  by (induction jps arbitrary: m) (fastforce split: option.splits)+

lemma jmesLoop_keys_empty:
  "gm_has (jmesLoop E y d key jps gm_empty) k \<Longrightarrow> k \<in> jmesTarget key ` set jps"
  using jmesLoop_keys [of E y d key jps gm_empty k] by simp

lemma gm_ok_ProcessExternalSecretData:
  "ProcessExternalSecretData E data d = Inr out \<Longrightarrow> gm_ok out"
  by (auto simp: ProcessExternalSecretData_def Let_def split: sum.splits if_splits)

lemma ProcessExternalSecretData_keys:
  assumes "ProcessExternalSecretData E data d = Inr out" and "gm_has out k"
  shows "k = ResolveTargetKey data \<or> k \<in> jmesTarget (ds_Key data) ` set (ds_JMESPath data)"
  using assms
  by (auto simp: ProcessExternalSecretData_def Let_def GetJsonSecrets_def gm_has_overlay gm_ok_jmesLoop
      simp del: image_iff split: sum.splits if_splits dest!: jmesLoop_keys_empty)

lemma ProcessExternalSecretData_total: "\<exists>out. ProcessExternalSecretData E data d = Inr out \<and> gm_len out > 0"
proof -
  have put: "gm_len (gm_put gm_empty k v) > 0" for k and v :: bytes
    by (simp add: gm.len_put_pos)
  have "gm_len (gm_overlay gm_empty m) > 0" if "gm_ok m" "gm_len m > 0" for m :: "bytes gomap"
    using that by (auto simp: gm_len_pos gm_has_overlay)
  then show ?thesis
    by (auto simp: ProcessExternalSecretData_def Let_def GetJsonSecrets_def gm_ok_jmesLoop put split: sum.splits)
qed

lemma emits_GetExternalSecret [emits_intros]:
  "(\<And>s d n. P (SdkCall s d n)) \<Longrightarrow> emits P (GetExternalSecret E c data)"
  "(\<And>s d n. P (SdkCall s d n)) \<Longrightarrow> emits P (GetExternalSecretWithExtract E c dp)"
  unfolding GetExternalSecret_def GetExternalSecretWithExtract_def getExternalData_def
    kms_getExternalData_def oos_getExternalData_def sdkFetch_def
  by (auto intro!: emits_intros split: SecretClient.splits option.splits)

end
