(* ===== verification/Auth.thy ===== *)
theory Auth
  imports Secret_Data
begin

text \<open>
  Building a credential: the part of \<open>pkg/backend/auth/auth.go\<close> that talks to the API server, to
  STS and to the credential library, and \<open>provider/common/auth_helper.go\<close> with
  \<open>auth_adapter.go\<close>, which read the settings from a store or from the process environment.
\<close>

section \<open>Settings from a store\<close>

definition ACKRRSAAnnotation :: string where "ACKRRSAAnnotation = ''ack.alibabacloud.com/role-arn''"
definition DefaultOIDCTokenFile :: string where
  "DefaultOIDCTokenFile = ''/var/run/secrets/tokens/ack-secret-manager''"
definition TokenAudience :: string where "TokenAudience = ''sts.aliyuncs.com''"

text \<open>An adapter wraps a pointer to the auth block of a store; a nil pointer gives zero values.\<close>

record AuthAdapter =
  ad_Auth :: "StoreAuth option"
  ad_StoreName :: string

definition adapted :: "(StoreAuth \<Rightarrow> 'a) \<Rightarrow> 'a \<Rightarrow> AuthAdapter \<Rightarrow> 'a" where
  "adapted f zero a = (case ad_Auth a of None \<Rightarrow> zero | Some au \<Rightarrow> f au)"

definition GetServiceAccountRef :: "AuthAdapter \<Rightarrow> ServiceAccountRef option" where
  "GetServiceAccountRef = adapted au_ServiceAccountRef None"
definition GetAccessKey :: "AuthAdapter \<Rightarrow> SecretRef option" where
  "GetAccessKey = adapted au_AccessKey None"
definition GetAccessKeySecret :: "AuthAdapter \<Rightarrow> SecretRef option" where
  "GetAccessKeySecret = adapted au_AccessKeySecret None"
definition GetRAMRoleARN :: "AuthAdapter \<Rightarrow> string" where
  "GetRAMRoleARN = adapted au_RAMRoleARN []"
definition GetRAMRoleSessionName :: "AuthAdapter \<Rightarrow> string" where
  "GetRAMRoleSessionName = adapted au_RAMRoleSessionName []"
definition GetOIDCProviderARN :: "AuthAdapter \<Rightarrow> string" where
  "GetOIDCProviderARN = adapted au_OIDCProviderARN []"
definition GetOIDCTokenFilePath :: "AuthAdapter \<Rightarrow> string" where
  "GetOIDCTokenFilePath = adapted au_OIDCTokenFilePath []"
definition GetRoleSessionExpiration :: "AuthAdapter \<Rightarrow> string" where
  "GetRoleSessionExpiration = adapted au_RoleSessionExpiration []"
definition GetRemoteRAMRoleARN :: "AuthAdapter \<Rightarrow> string" where
  "GetRemoteRAMRoleARN = adapted au_RemoteRAMRoleARN []"
definition GetRemoteRAMRoleSessionName :: "AuthAdapter \<Rightarrow> string" where
  "GetRemoteRAMRoleSessionName = adapted au_RemoteRAMRoleSessionName []"

text \<open>\<open>resolveOidcProviderArn\<close>: the ARN and whether it was derived.\<close>

definition parseIntError :: "string \<Rightarrow> goerror" where
  "parseIntError s = errorf (''strconv.ParseInt: parsing '' @ goquote s @
     (if parseSigned s = None then '': invalid syntax'' else '': value out of range''))"

definition resolveOidcProviderArn :: "string \<Rightarrow> string \<Rightarrow> string \<Rightarrow> (string \<times> bool) res" where
  "resolveOidcProviderArn oidcArn clusterId uid =
     (if oidcArn \<noteq> [] \<and> IsValidOidcProviderArn oidcArn then Inr (oidcArn, False)
      else if clusterId \<noteq> [] \<and> uid \<noteq> []
      then (case ParseInt64 uid of
              None \<Rightarrow> Inl (parseIntError uid)
            | Some uidInt64 \<Rightarrow> Inr (GenerateDefaultOidcProviderArn clusterId uidInt64, True))
      else Inr (oidcArn, False))"

text \<open>
  The namespace rule of a reference from a store. \<open>field\<close> and \<open>kind\<close> are the words of the two
  error messages.
\<close>

definition authRefNamespace :: "env \<Rightarrow> string \<Rightarrow> string \<Rightarrow> string \<Rightarrow> string \<Rightarrow> string \<Rightarrow> string res" where
  "authRefNamespace E field feature kind storeNamespace refNamespace =
     (if storeNamespace = []
      then (if refNamespace = []
            then Inl (errorf (''ClusterSecretStore requires namespace to be specified in '' @ field))
            else Inr refNamespace)
      else if refNamespace \<noteq> [] \<and> refNamespace \<noteq> storeNamespace
      then (if \<not> e_EnableCrossNamespaceAuthRef E
            then Inl (errorf (''cross namespace '' @ feature @ '' is disabled, cannot reference '' @ kind @
                   '' in namespace '' @ refNamespace @ '' from SecretStore in namespace '' @ storeNamespace))
            else Inr refNamespace)
      else Inr storeNamespace)"

definition buildServiceAccountRefAuthConfig ::
    "env \<Rightarrow> SecretStore \<Rightarrow> AuthAdapter \<Rightarrow> ServiceAccountRef \<Rightarrow> string \<Rightarrow> string \<Rightarrow> AuthConfig res io" where
  "buildServiceAccountRefAuthConfig E st authProvider saRef clusterId uid =
     (case authRefNamespace E ''serviceAccountRef'' ''ServiceAccountRef'' ''ServiceAccount''
             (m_Namespace (ss_meta st)) (sa_Namespace saRef) of
        Inl e \<Rightarrow> ret (Inl e)
      | Inr saNamespace \<Rightarrow> do {
          got \<leftarrow> getServiceAccount E saNamespace (sa_Name saRef);
          ret (case got of
              Inl err \<Rightarrow> Inl (wrap_v (''failed to get ServiceAccount '' @ saNamespace @ ''/'' @ sa_Name saRef @ '': '') err)
            | Inr sa \<Rightarrow>
               (case gm_get (m_Annotations (sacc_meta sa)) ACKRRSAAnnotation of
                  None \<Rightarrow> Inl (errorf (''ServiceAccount '' @ saNamespace @ ''/'' @ sa_Name saRef @
                            '' does not have RRSA annotation '' @ ACKRRSAAnnotation))
                | Some roleArn \<Rightarrow>
                   (case resolveOidcProviderArn (GetOIDCProviderARN authProvider) clusterId uid of
                      Inl err \<Rightarrow> Inl err
                    | Inr (oidcProviderArn, fromDefault) \<Rightarrow>
                        Inr (emptyAuthConfig\<lparr>ac_RoleArn := roleArn, ac_OidcArn := oidcProviderArn,
                          ac_OidcArnFromDefault := fromDefault, ac_ServiceAccountName := sa_Name saRef,
                          ac_ServiceAccountNamespace := saNamespace,
                          ac_TokenAudiences := (if length (sa_Audiences saRef) = 0 then [TokenAudience] else sa_Audiences saRef),
                          ac_RemoteRoleArn := GetRemoteRAMRoleARN authProvider,
                          ac_RemoteRoleSessionName := GetRemoteRAMRoleSessionName authProvider\<rparr>))))
        })"

definition configFromSecret :: "env \<Rightarrow> SecretRef \<Rightarrow> bytes res io" where
  "configFromSecret E ref =
     (if sr_Key ref = [] \<or> sr_Name ref = [] \<or> sr_Namespace ref = [] then ret (Inl (errorf ''empty secretRef''))
      else do {
        got \<leftarrow> getSecret E (sr_Namespace ref) (sr_Name ref);
        ret (GetConfigFromSecret (\<lambda>_ _. got) (Some ref))
      })"

text \<open>One credential field of the traditional path: absent, or read from its Secret.\<close>

definition readAuthSecret ::
    "env \<Rightarrow> string \<Rightarrow> string \<Rightarrow> string \<Rightarrow> string \<Rightarrow> SecretRef option \<Rightarrow> string res io" where
  "readAuthSecret E field feature what storeNamespace ref = (case ref of
      None \<Rightarrow> ret (Inr [])
    | Some r \<Rightarrow>
       (case authRefNamespace E field feature ''Secret'' storeNamespace (sr_Namespace r) of
          Inl e \<Rightarrow> ret (Inl e)
        | Inr ns \<Rightarrow> do {
            got \<leftarrow> configFromSecret E \<lparr>sr_Name = sr_Name r, sr_Namespace = ns, sr_Key = sr_Key r\<rparr>;
            ret (case got of
                Inl err \<Rightarrow> Inl (wrap_w (''failed to get '' @ what @ '' from secret '' @ ns @ ''/'' @ sr_Name r @ '': '') err)
              | Inr v \<Rightarrow> Inr v)
          }))"

definition buildAuthConfigWithCrossNamespace ::
    "env \<Rightarrow> SecretStore \<Rightarrow> AuthAdapter \<Rightarrow> string \<Rightarrow> string \<Rightarrow> AuthConfig res io" where
  "buildAuthConfigWithCrossNamespace E st authProvider clusterId uid = do {
     let ns = m_Namespace (ss_meta st);
     ak \<leftarrow> readAuthSecret E ''accessKey'' ''AccessKey'' ''access key'' ns (GetAccessKey authProvider);
     case ak of
       Inl e \<Rightarrow> ret (Inl e)
     | Inr accessKey \<Rightarrow> do {
         sk \<leftarrow> readAuthSecret E ''accessKeySecret'' ''AccessKeySecret'' ''access key secret'' ns
                 (GetAccessKeySecret authProvider);
         ret (case sk of
             Inl e \<Rightarrow> Inl e
           | Inr accessKeySecret \<Rightarrow>
              (case resolveOidcProviderArn (GetOIDCProviderARN authProvider) clusterId uid of
                 Inl e \<Rightarrow> Inl e
               | Inr (oidcArn, fromDefault) \<Rightarrow>
                   Inr (emptyAuthConfig\<lparr>
                     ac_TokenFilePath := (if GetOIDCTokenFilePath authProvider \<noteq> []
                                          then GetOIDCTokenFilePath authProvider else DefaultOIDCTokenFile),
                     ac_AccessKey := accessKey, ac_AccessSecretKey := accessKeySecret,
                     ac_RoleArn := GetRAMRoleARN authProvider, ac_OidcArn := oidcArn,
                     ac_OidcArnFromDefault := fromDefault,
                     ac_RoleSessionName := GetRAMRoleSessionName authProvider,
                     ac_RoleSessionExpiration := GetRoleSessionExpiration authProvider,
                     ac_RemoteRoleSessionName := GetRemoteRAMRoleSessionName authProvider,
                     ac_RemoteRoleArn := GetRemoteRAMRoleARN authProvider\<rparr>)))
       }
   }"

definition storeClientName :: "SecretStore \<Rightarrow> string" where
  "storeClientName st = (if m_Namespace (ss_meta st) \<noteq> []
      then SecretStoreKey (m_Namespace (ss_meta st)) (m_Name (ss_meta st))
      else ClusterStoreKey (m_Name (ss_meta st)))"

text \<open>\<open>kubeClient\<close>: whether the client of the caller carries a Kubernetes clientset.\<close>

definition BuildAuthConfig ::
    "env \<Rightarrow> SecretStore \<Rightarrow> bool \<Rightarrow> AuthAdapter option \<Rightarrow> string \<Rightarrow> string \<Rightarrow> AuthConfig res io" where
  "BuildAuthConfig E st kubeClient authProvider clusterId uid =
     (let authConfig = emptyAuthConfig\<lparr>ac_ClientName := storeClientName st, ac_RefreshPeriod := 600000000000,
            ac_TokenFilePath := DefaultOIDCTokenFile, ac_KubeClient := kubeClient\<rparr>
      in case authProvider of
           None \<Rightarrow> ret (Inr authConfig)
         | Some ap \<Rightarrow> (case GetServiceAccountRef ap of
             Some saRef \<Rightarrow>
               if \<not> kubeClient
               then ret (Inl (errorf (''serviceAccountRef is configured in SecretStore '' @ ad_StoreName ap @
                      '' but the kubernetes client is unavailable for ServiceAccount authentication'')))
               else do {
                 got \<leftarrow> buildServiceAccountRefAuthConfig E st ap saRef clusterId uid;
                 ret (case got of
                     Inl e \<Rightarrow> Inl e
                   | Inr sa \<Rightarrow> Inr (authConfig\<lparr>ac_RoleArn := ac_RoleArn sa, ac_OidcArn := ac_OidcArn sa,
                       ac_OidcArnFromDefault := ac_OidcArnFromDefault sa,
                       ac_ServiceAccountName := ac_ServiceAccountName sa,
                       ac_ServiceAccountNamespace := ac_ServiceAccountNamespace sa,
                       ac_TokenAudiences := ac_TokenAudiences sa, ac_RemoteRoleArn := ac_RemoteRoleArn sa,
                       ac_RemoteRoleSessionName := ac_RemoteRoleSessionName sa\<rparr>))
               }
           | None \<Rightarrow> do {
               got \<leftarrow> buildAuthConfigWithCrossNamespace E st ap clusterId uid;
               ret (case got of
                   Inl e \<Rightarrow> Inl e
                 | Inr tc \<Rightarrow> Inr (authConfig\<lparr>ac_AccessKey := ac_AccessKey tc, ac_AccessSecretKey := ac_AccessSecretKey tc,
                     ac_RoleArn := ac_RoleArn tc, ac_OidcArn := ac_OidcArn tc,
                     ac_OidcArnFromDefault := ac_OidcArnFromDefault tc, ac_RoleSessionName := ac_RoleSessionName tc,
                     ac_RoleSessionExpiration := ac_RoleSessionExpiration tc,
                     ac_RemoteRoleSessionName := ac_RemoteRoleSessionName tc, ac_RemoteRoleArn := ac_RemoteRoleArn tc,
                     ac_TokenFilePath := ac_TokenFilePath tc\<rparr>))
             }))"

definition BuildAuthConfigFromEnv :: "env \<Rightarrow> AuthConfig" where
  "BuildAuthConfigFromEnv E = NormalizeSessionNames (emptyAuthConfig\<lparr>
     ac_ClientName := EnvClient,
     ac_RoleArn := e_Getenv E ''ALICLOUD_ROLE_ARN'',
     ac_OidcArn := e_Getenv E ''ALICLOUD_OIDC_PROVIDER_ARN'',
     ac_AccessKey := e_Getenv E ''ACCESS_KEY_ID'',
     ac_AccessSecretKey := e_Getenv E ''SECRET_ACCESS_KEY'',
     ac_RoleSessionName := e_Getenv E ''ALICLOUD_ROLE_SESSION_NAME'',
     ac_RoleSessionExpiration := e_Getenv E ''ALICLOUD_ROLE_SESSION_EXPIRATION'',
     ac_RemoteRoleSessionName := e_Getenv E ''ALICLOUD_REMOTE_ROLE_SESSION_NAME'',
     ac_RemoteRoleArn := e_Getenv E ''ALICLOUD_REMOTE_ROLE_ARN'',
     ac_RefreshPeriod := 10000000000\<rparr>)"

section \<open>Tokens\<close>

definition getIdentityToken :: "env \<Rightarrow> AuthConfig \<Rightarrow> string res io" where
  "getIdentityToken E a = do {
     r \<leftarrow> createToken E (ac_ServiceAccountNamespace a) (ac_ServiceAccountName a)
            (if length (ac_TokenAudiences a) = 0 then [''sts.aliyuncs.com''] else ac_TokenAudiences a);
     ret (case r of
         Inl err \<Rightarrow> Inl (wrap_w (''failed to fetch token for ServiceAccount '' @ ac_ServiceAccountNamespace a @ ''/'' @
                      ac_ServiceAccountName a @ '': '') err)
       | Inr token \<Rightarrow> Inr token)
   }"

definition getTokenExpireTime :: "env \<Rightarrow> string \<Rightarrow> int res" where
  "getTokenExpireTime E token = (case e_jwt_ExpirationTime E token of
      Inl err \<Rightarrow> Inl (wrap_v ''failed to parse JWT token: '' err)
    | Inr None \<Rightarrow> Inl (errorf ''failed to get expiration time form token: <nil>'')
    | Inr (Some t) \<Rightarrow> Inr t)"

text \<open>\<open>TokenOIDCProvider\<close>: unset times are \<open>None\<close>; \<open>oi_getTokenFunc\<close> is the settings whose
  \<open>getIdentityToken\<close> is the refresh function.\<close>

record TokenOIDCProvider =
  oi_stsEndpoint :: string
  oi_sessionName :: string
  oi_token :: string
  oi_roleArn :: string
  oi_oidcProviderArn :: string
  oi_getTokenFunc :: "AuthConfig option"
  oi_tokenExpireTime :: int
  oi_tokenIssuedAt :: "int option"
  oi_credential :: "(string \<times> string \<times> string) option"
  oi_expireTime :: int
  oi_credentialIssuedAt :: "int option"

definition oneHour :: int where "oneHour = 3600000000000"

definition zeroTime :: int where "zeroTime = - 62135596800000000000"

definition NewTokenOIDCProvider :: "env \<Rightarrow> string \<Rightarrow> string \<Rightarrow> string \<Rightarrow> string \<Rightarrow> string \<Rightarrow> TokenOIDCProvider io" where
  "NewTokenOIDCProvider E stsEndpoint sessionName token roleArn oidcProviderArn = do {
     now \<leftarrow> timeNow E;
     ret \<lparr>oi_stsEndpoint = stsEndpoint, oi_sessionName = sessionName, oi_token = token, oi_roleArn = roleArn,
       oi_oidcProviderArn = oidcProviderArn, oi_getTokenFunc = None,
       oi_tokenExpireTime = (case getTokenExpireTime E token of Inr exp \<Rightarrow> exp | Inl _ \<Rightarrow> now + oneHour),
       oi_tokenIssuedAt = None, oi_credential = None, oi_expireTime = zeroTime, oi_credentialIssuedAt = None\<rparr>
   }"

definition assumeRole ::
    "env \<Rightarrow> TokenOIDCProvider \<Rightarrow> ((string \<times> string \<times> string) res \<times> TokenOIDCProvider) io" where
  "assumeRole E p = (case e_NewStsClient E (oi_stsEndpoint p) of
      Inl err \<Rightarrow> ret (Inl (wrap_v ''failed to create STS client: '' err), p)
    | Inr _ \<Rightarrow> do {
        resp \<leftarrow> call (\<lambda>_. AssumeRoleWithOIDC (oi_stsEndpoint p) (oi_roleArn p) (oi_oidcProviderArn p) (oi_token p) (oi_sessionName p))
          (\<lambda>t. e_AssumeRoleWithOIDC E t (oi_stsEndpoint p) (oi_roleArn p) (oi_oidcProviderArn p) (oi_token p) (oi_sessionName p));
        case resp of
          Inl err \<Rightarrow> ret (Inl (wrap_v ''failed to assume role with oidc: '' err), p)
        | Inr (keys, expiration) \<Rightarrow>
            (case e_NewCredential E keys of
               Inl err \<Rightarrow> ret (Inl (wrap_v ''failed to create sts credential: '' err), p)
             | Inr _ \<Rightarrow> (case e_ParseTime E expiration of
                 Inl err \<Rightarrow> ret (Inl (wrap_v ''failed to parse credential expiration time: '' err), p)
               | Inr expireTime \<Rightarrow> do {
                   now \<leftarrow> timeNow E;
                   ret (Inr keys, p\<lparr>oi_credential := Some keys, oi_expireTime := expireTime,
                                  oi_credentialIssuedAt := Some now\<rparr>)
                 }))
      })"

definition refreshToken :: "env \<Rightarrow> TokenOIDCProvider \<Rightarrow> string \<Rightarrow> TokenOIDCProvider io" where
  "refreshToken E p newToken = do {
     let p1 = p\<lparr>oi_token := newToken\<rparr>;
     p2 \<leftarrow> (case getTokenExpireTime E newToken of
              Inr exp \<Rightarrow> ret (p1\<lparr>oi_tokenExpireTime := exp\<rparr>)
            | Inl _ \<Rightarrow> do { t \<leftarrow> timeNow E; ret (p1\<lparr>oi_tokenExpireTime := t + oneHour\<rparr>) });
     t \<leftarrow> timeNow E;
     ret (p2\<lparr>oi_tokenIssuedAt := Some t\<rparr>)
   }"

definition tokenNeedsRefresh :: "TokenOIDCProvider \<Rightarrow> int \<Rightarrow> bool" where
  "tokenNeedsRefresh p now \<longleftrightarrow>
     oi_getTokenFunc p \<noteq> None \<and> needsRefresh (oi_tokenExpireTime p) (oi_tokenIssuedAt p) now"

definition credentialNeedsRefresh :: "TokenOIDCProvider \<Rightarrow> int \<Rightarrow> bool" where
  "credentialNeedsRefresh p now \<longleftrightarrow>
     oi_credential p = None \<or> needsRefresh (oi_expireTime p) (oi_credentialIssuedAt p) now"

text \<open>The cached credential, when there is one that is still valid.\<close>

definition validCached :: "env \<Rightarrow> TokenOIDCProvider \<Rightarrow> ((string \<times> string \<times> string) option) io" where
  "validCached E p = (case oi_credential p of
      None \<Rightarrow> ret None
    | Some cred \<Rightarrow> do { t \<leftarrow> timeNow E; ret (if t < oi_expireTime p then Some cred else None) })"

definition GetCredential ::
    "env \<Rightarrow> TokenOIDCProvider \<Rightarrow> ((string \<times> string \<times> string) res \<times> TokenOIDCProvider) io" where
  "GetCredential E p = do {
     now \<leftarrow> timeNow E;
     if \<not> tokenNeedsRefresh p now \<and> \<not> credentialNeedsRefresh p now
     then ret (Inr (the (oi_credential p)), p)
     else if tokenNeedsRefresh p now
     then do {
       tok \<leftarrow> getIdentityToken E (the (oi_getTokenFunc p));
       case tok of
         Inl err \<Rightarrow> do {
           cached \<leftarrow> validCached E p;
           ret (case cached of
               Some cred \<Rightarrow> (Inr cred, p)
             | None \<Rightarrow> (Inl (wrap_v ''failed to refresh OIDC token: '' err), p))
         }
       | Inr newToken \<Rightarrow> do { p' \<leftarrow> refreshToken E p newToken; assumeRole E p' }
     }
     else assumeRole E p
   }"

text \<open>\<open>Credentials\<close> serves the credential to the chain; \<open>credentialInfo\<close> is the library's
  \<open>GetCredential\<close> of the credential with the given keys.\<close>

definition tea_StringValue :: "string option \<Rightarrow> string" where
  "tea_StringValue p = (case p of None \<Rightarrow> [] | Some s \<Rightarrow> s)"

definition Credentials ::
    "env \<Rightarrow> (string \<times> string \<times> string \<Rightarrow> (string option \<times> string option \<times> string option) res) \<Rightarrow> TokenOIDCProvider
       \<Rightarrow> ((string \<times> string \<times> string) res \<times> TokenOIDCProvider) io" where
  "Credentials E credentialInfo p = do {
     r \<leftarrow> GetCredential E p;
     ret (case r of
         (Inl err, p') \<Rightarrow> (Inl err, p')
       | (Inr keys, p') \<Rightarrow> ((case credentialInfo keys of
            Inl err \<Rightarrow> Inl (wrap_v ''failed to get credential info: '' err)
          | Inr (accessKeyId, accessKeySecret, securityToken) \<Rightarrow>
              Inr (tea_StringValue accessKeyId, tea_StringValue accessKeySecret, tea_StringValue securityToken)), p'))
   }"

section \<open>The chain\<close>

text \<open>The dynamic provider needs a ServiceAccount and a clientset; otherwise the file is used.\<close>

definition createOIDCProvider :: "env \<Rightarrow> AuthConfig \<Rightarrow> string \<Rightarrow> cred_provider res io" where
  "createOIDCProvider E a region =
     (let sts = e_GetSTSEndpoint E region;
          sa = ac_ServiceAccountNamespace a @ ''/'' @ ac_ServiceAccountName a
      in if ac_ServiceAccountName a \<noteq> [] \<and> ac_ServiceAccountNamespace a \<noteq> [] \<and> ac_KubeClient a
         then do {
           tok \<leftarrow> getIdentityToken E a;
           case tok of
             Inl err \<Rightarrow> ret (Inl (wrap_v (''failed to obtain ServiceAccount identity token for '' @ sa @ '': '') err))
           | Inr dynamicToken \<Rightarrow>
               if dynamicToken = [] then ret (Inl (errorf (''ServiceAccount identity token is empty for '' @ sa)))
               else do {
                 _ \<leftarrow> NewTokenOIDCProvider E sts oidcRoleSessionName dynamicToken (ac_RoleArn a) (ac_OidcArn a);
                 ret (Inr (OidcToken sts oidcRoleSessionName dynamicToken (ac_RoleArn a) (ac_OidcArn a)))
               }
         }
         else ret (Inr (OidcFile sts oidcRoleSessionName
                (if ac_TokenFilePath a \<noteq> [] then ac_TokenFilePath a else oidcTokenFilePath)
                (ac_RoleArn a) (ac_OidcArn a))))"

text \<open>The chain of a client, in priority order, or the reason why there is none.\<close>

definition authChain :: "env \<Rightarrow> AuthConfig \<Rightarrow> string \<Rightarrow> (cred_provider list) res io" where
  "authChain E a region =
     (if oidcPrerequisitesMissing a
      then ret (Inl (errorf (''ServiceAccount '' @ ac_ServiceAccountNamespace a @ ''/'' @ ac_ServiceAccountName a @
             '' is explicitly configured but OIDC prerequisites are missing (oidcProviderArn='' @ goquote (ac_OidcArn a) @
             '', roleArn='' @ goquote (ac_RoleArn a) @ ''; cluster-id/uid may be unavailable)'')))
      else do {
        oidc \<leftarrow> (if oidcTierAllowed a
                 then do {
                   r \<leftarrow> createOIDCProvider E a region;
                   ret (case r of
                       Inl err \<Rightarrow> Inl (wrap_v (oidcProviderCreationErrPrefix @ '' for ServiceAccount '' @
                                    ac_ServiceAccountNamespace a @ ''/'' @ ac_ServiceAccountName a @ '': '') err)
                     | Inr pr \<Rightarrow> Inr [pr])
                 }
                 else ret (Inr []));
        ret (case oidc of
            Inl err \<Rightarrow> Inl err
          | Inr first \<Rightarrow>
             (let providers = first @ akTiers a (e_GetSTSEndpoint E region)
              in if e_EnableWorkerRole E then Inr (providers @ [EcsMetadata])
                 else if length providers = 0 then Inl (errorf (emptyAuthChainErrorMessage (ac_ClientName a)))
                 else Inr providers))
      })"

text \<open>Access to the pool of one provider in the process state, and stopping refreshers.\<close>

definition getManager :: "string \<Rightarrow> Manager io" where
  "getManager pname = read (\<lambda>p. case gm_get (providerMap p) pname of
      Some pv \<Rightarrow> pv_Manager pv | None \<Rightarrow> NewManager [])"

definition putManager :: "string \<Rightarrow> Manager \<Rightarrow> unit io" where
  "putManager pname m = modify (\<lambda>p. case gm_get (providerMap p) pname of
      Some pv \<Rightarrow> p\<lparr>providerMap := gm_put (providerMap p) pname (pv\<lparr>pv_Manager := m\<rparr>)\<rparr> | None \<Rightarrow> p)"

definition stopAll :: "nat list \<Rightarrow> unit io" where
  "stopAll ss = forM ss () (\<lambda>_ s. call (\<lambda>_. StopRefresher s) (\<lambda>_. ()))"

definition onManager :: "string \<Rightarrow> (Manager \<Rightarrow> Manager \<times> nat list) \<Rightarrow> unit io" where
  "onManager pname f = do {
     m \<leftarrow> getManager pname;
     putManager pname (fst (f m));
     stopAll (snd (f m))
   }"

definition GetAuthCred :: "env \<Rightarrow> AuthConfig \<Rightarrow> string \<Rightarrow> int \<Rightarrow> string \<Rightarrow> nat res io" where
  "GetAuthCred E a0 region maxConcurrentCount pname = do {
     let a = NormalizeSessionNames a0;
     chain \<leftarrow> authChain E a region;
     case chain of
       Inl err \<Rightarrow> ret (Inl err)
     | Inr providers \<Rightarrow> do {
         let cred = AuthCred providers (remoteRole a) maxConcurrentCount;
         semaphoreProvider \<leftarrow> call (\<lambda>_. NewRefresher (ac_ClientName a) cred)
                               (\<lambda>t. e_NewRefresher E t (ac_ClientName a) cred);
         _ \<leftarrow> onManager pname (RegisterRamProvider (ac_ClientName a) (Some semaphoreProvider));
         ret (Inr semaphoreProvider)
       }
   }"

section \<open>Facts\<close>

lemma emits_stopAll [emits_intros]: "(\<And>s. P (StopRefresher s)) \<Longrightarrow> emits P (stopAll ss)"
  unfolding stopAll_def by (intro emits_intros) simp

lemma emits_onManager [emits_intros]: "(\<And>s. P (StopRefresher s)) \<Longrightarrow> emits P (onManager pname f)"
  unfolding onManager_def getManager_def putManager_def
  by (intro emits_intros) (auto split: option.splits)

lemma emits_getIdentityToken [emits_intros]: "(\<And>n s a. P (CreateToken n s a)) \<Longrightarrow> emits P (getIdentityToken E a)"
  unfolding getIdentityToken_def api_defs by (intro emits_intros) simp

lemma emits_NewTokenOIDCProvider [emits_intros]:
  "(\<And>t. P (Clock t)) \<Longrightarrow> emits P (NewTokenOIDCProvider E s n t r o1)"
  unfolding NewTokenOIDCProvider_def api_defs by (intro emits_intros) simp

lemma emits_authChain [emits_intros]:
  "(\<And>n s a. P (CreateToken n s a)) \<Longrightarrow> (\<And>t. P (Clock t)) \<Longrightarrow> emits P (authChain E a region)"
  unfolding authChain_def createOIDCProvider_def Let_def by (intro emits_intros; simp)

lemma emits_GetAuthCred [emits_intros]:
  "(\<And>n s a. P (CreateToken n s a)) \<Longrightarrow> (\<And>t. P (Clock t)) \<Longrightarrow> (\<And>n c. P (NewRefresher n c)) \<Longrightarrow>
   (\<And>s. P (StopRefresher s)) \<Longrightarrow> emits P (GetAuthCred E a region w pname)"
  unfolding GetAuthCred_def Let_def by (intro emits_intros; simp)

lemma emits_readAuthSecret:
  assumes "\<And>ns n. ns = sns \<or> e_EnableCrossNamespaceAuthRef E \<or> sns = [] \<Longrightarrow> P (GetSecret ns n)"
  shows "emits P (readAuthSecret E f1 f2 w sns ref)"
  unfolding readAuthSecret_def authRefNamespace_def configFromSecret_def api_defs
  by (intro emits_intros) (use assms in \<open>auto split: if_splits\<close>)

lemma emits_BuildAuthConfig:
  assumes "\<And>ns n. ns = m_Namespace (ss_meta st) \<or> e_EnableCrossNamespaceAuthRef E \<or> m_Namespace (ss_meta st) = [] \<Longrightarrow>
      P (GetSecret ns n) \<and> P (GetServiceAccount ns n)"
  shows "emits P (BuildAuthConfig E st kc ap cid uid)"
proof -
  have r: "emits P (readAuthSecret E f1 f2 w (m_Namespace (ss_meta st)) ref)" for f1 f2 w ref
    by (rule emits_readAuthSecret) (use assms in blast)
  have sa: "emits P (buildServiceAccountRefAuthConfig E st a saRef cid uid)" for a saRef
    unfolding buildServiceAccountRefAuthConfig_def authRefNamespace_def api_defs
    by (intro emits_intros) (use assms in \<open>auto split: if_splits\<close>)
  show ?thesis
    unfolding BuildAuthConfig_def buildAuthConfigWithCrossNamespace_def Let_def
    by (intro emits_intros r sa)
qed

lemma emits_BuildAuthConfig_any [emits_intros]:
  "(\<And>ns n. P (GetSecret ns n)) \<Longrightarrow> (\<And>ns n. P (GetServiceAccount ns n)) \<Longrightarrow>
   emits P (BuildAuthConfig E st kc ap cid uid)"
  by (rule emits_BuildAuthConfig) simp

section \<open>Properties\<close>

text \<open>C22. A SecretStore reads credentials only from its own namespace unless the operator enables
  cross-namespace references: no Secret and no ServiceAccount of another namespace is ever read.\<close>

theorem auth_refs_stay_in_namespace:
  assumes "\<not> e_EnableCrossNamespaceAuthRef E" "m_Namespace (ss_meta st) \<noteq> []"
  shows "emits (\<lambda>e. case e of GetSecret ns _ \<Rightarrow> ns = m_Namespace (ss_meta st)
                         | GetServiceAccount ns _ \<Rightarrow> ns = m_Namespace (ss_meta st) | _ \<Rightarrow> False)
           (BuildAuthConfig E st kubeClient authProvider clusterId uid)"
  by (rule emits_BuildAuthConfig) (use assms in auto)

theorem auth_refs_stay_in_namespace_witness:
  "emits (\<lambda>e. case e of GetSecret ns _ \<Rightarrow> ns = ''team'' | GetServiceAccount ns _ \<Rightarrow> ns = ''team'' | _ \<Rightarrow> False)
     (BuildAuthConfig sampleEnv
        \<lparr>ss_meta = noMeta\<lparr>m_Namespace := ''team''\<rparr>, ss_Spec = \<lparr>ss_KMS = None, ss_OOS = None\<rparr>,
         ss_Status = \<lparr>st_Conditions = [], st_Capabilities = [], st_ClientGeneration = 0\<rparr>\<rparr>
        True None [] [])"
  using auth_refs_stay_in_namespace [of sampleEnv
      "\<lparr>ss_meta = noMeta\<lparr>m_Namespace := ''team''\<rparr>, ss_Spec = \<lparr>ss_KMS = None, ss_OOS = None\<rparr>,
        ss_Status = \<lparr>st_Conditions = [], st_Capabilities = [], st_ClientGeneration = 0\<rparr>\<rparr>" True None "[]" "[]"]
  by (simp add: sampleEnv_def cong: event.case_cong)

text \<open>Without a ServiceAccount reference the chain is exactly: file-based RRSA when the tier is
  allowed, then AccessKey with AssumeRole, then the plain AccessKey, then the worker role when it is
  enabled; an empty chain is an error.\<close>

theorem auth_chain_order:
  assumes "ac_ServiceAccountName a = []"
  shows "result (authChain E (NormalizeSessionNames a) region) p =
    (let sts = e_GetSTSEndpoint E region;
         pair = ac_AccessKey a \<noteq> [] \<and> ac_AccessSecretKey a \<noteq> [];
         explicit = \<not> ac_OidcArnFromDefault a;
         chain =
           (if ac_OidcArn a \<noteq> [] \<and> ac_RoleArn a \<noteq> [] \<and> (explicit \<or> \<not> pair)
            then [OidcFile sts oidcRoleSessionName
                    (if ac_TokenFilePath a \<noteq> [] then ac_TokenFilePath a else oidcTokenFilePath) (ac_RoleArn a) (ac_OidcArn a)]
            else []) @
           (if pair \<and> ac_RoleArn a \<noteq> []
            then [AkAssumeRole (ac_AccessKey a) (ac_AccessSecretKey a) (ac_RoleArn a) sts
                    (ac_RoleSessionName (NormalizeSessionNames a))] else []) @
           (if pair then [AccessKeyPair (ac_AccessKey a) (ac_AccessSecretKey a)] else []) @
           (if e_EnableWorkerRole E then [EcsMetadata] else [])
     in if chain = [] then Inl (errorf (emptyAuthChainErrorMessage (ac_ClientName a))) else Inr chain)"
  using assms
  by (simp add: authChain_def oidcPrerequisitesMissing_def createOIDCProvider_def run_simps
      oidcTierAllowed_def akTiers_def Let_def)

theorem auth_chain_order_witness:
  "result (authChain sampleEnv (NormalizeSessionNames (emptyAuthConfig\<lparr>ac_AccessKey := ''id'', ac_AccessSecretKey := ''key'',
       ac_RoleArn := ''role'', ac_OidcArn := ''arn'', ac_OidcArnFromDefault := True\<rparr>)) ''cn'') sampleProc =
   Inr [AkAssumeRole ''id'' ''key'' ''role'' ''cn'' ''ack-secret-manager'', AccessKeyPair ''id'' ''key'']"
  using auth_chain_order [of "emptyAuthConfig\<lparr>ac_AccessKey := ''id'', ac_AccessSecretKey := ''key'',
       ac_RoleArn := ''role'', ac_OidcArn := ''arn'', ac_OidcArnFromDefault := True\<rparr>" sampleEnv "''cn''" sampleProc]
  by (simp add: emptyAuthConfig_def sampleEnv_def NormalizeSessionNames_def defaultRoleSessionName_def)

definition createsTokenOf :: "AuthConfig \<Rightarrow> event \<Rightarrow> bool" where
  "createsTokenOf a e = (case e of CreateToken ns n _ \<Rightarrow> ns = ac_ServiceAccountNamespace a \<and> n = ac_ServiceAccountName a
     | _ \<Rightarrow> False)"

lemma post_createOIDCProvider:
  "post (createOIDCProvider E a region) (\<lambda>r n. case r of Inl _ \<Rightarrow> True | Inr pr \<Rightarrow>
     (if ac_ServiceAccountName a \<noteq> [] \<and> ac_ServiceAccountNamespace a \<noteq> [] \<and> ac_KubeClient a
      then (\<exists>tok. tok \<noteq> [] \<and> pr = OidcToken (e_GetSTSEndpoint E region) oidcRoleSessionName tok (ac_RoleArn a) (ac_OidcArn a))
           \<and> list_ex (createsTokenOf a) n
      else pr = OidcFile (e_GetSTSEndpoint E region) oidcRoleSessionName
             (if ac_TokenFilePath a \<noteq> [] then ac_TokenFilePath a else oidcTokenFilePath) (ac_RoleArn a) (ac_OidcArn a)))"
  unfolding createOIDCProvider_def Let_def getIdentityToken_def NewTokenOIDCProvider_def api_defs
  by (intro post_intros) (auto simp: createsTokenOf_def split: sum.splits)

text \<open>C23. A client with a ServiceAccount reference fails closed: when a chain is built at all, its
  first provider is the OIDC provider of that reference (with a non-empty token requested for this
  very ServiceAccount when a clientset is at hand), for the configured role and provider ARN.\<close>

theorem service_account_fails_closed:
  assumes "ac_ServiceAccountName a \<noteq> []"
  shows "post (authChain E a region) (\<lambda>r n. case r of Inl _ \<Rightarrow> True | Inr chain \<Rightarrow>
     chain \<noteq> [] \<and> ac_OidcArn a \<noteq> [] \<and> ac_RoleArn a \<noteq> [] \<and>
     (if ac_ServiceAccountNamespace a \<noteq> [] \<and> ac_KubeClient a
      then list_ex (createsTokenOf a) n \<and> (\<exists>tok. tok \<noteq> [] \<and>
             hd chain = OidcToken (e_GetSTSEndpoint E region) oidcRoleSessionName tok (ac_RoleArn a) (ac_OidcArn a))
      else hd chain = OidcFile (e_GetSTSEndpoint E region) oidcRoleSessionName
             (if ac_TokenFilePath a \<noteq> [] then ac_TokenFilePath a else oidcTokenFilePath) (ac_RoleArn a) (ac_OidcArn a)))"
proof (cases "ac_OidcArn a = [] \<or> ac_RoleArn a = []")
  case True
  then show ?thesis using assms by (auto simp: authChain_def oidcPrerequisitesMissing_def intro: post_intros)
next
  case False
  then have ok: "oidcTierAllowed a" "\<not> oidcPrerequisitesMissing a"
    using assms by (auto simp: oidcTierAllowed_def oidcPrerequisitesMissing_def)
  have eq: "authChain E a region = do {
       r \<leftarrow> createOIDCProvider E a region;
       ret (case r of
           Inl err \<Rightarrow> Inl (wrap_v (oidcProviderCreationErrPrefix @ '' for ServiceAccount '' @
                        ac_ServiceAccountNamespace a @ ''/'' @ ac_ServiceAccountName a @ '': '') err)
         | Inr pr \<Rightarrow> Inr (pr # akTiers a (e_GetSTSEndpoint E region) @ (if e_EnableWorkerRole E then [EcsMetadata] else [])))
     }"
    unfolding authChain_def bind_bind if_not_P [OF ok(2)] if_P [OF ok(1)] bind_ret
    by (rule arg_cong2 [where f = State_Monad.bind], rule refl, rule ext) (simp add: Let_def split: sum.split)
  show ?thesis
    unfolding eq
  proof (rule post_bind [OF post_createOIDCProvider], rule post_ret, goal_cases)
    case (1 r n)
    then show ?case using False assms by (cases r) simp_all
  qed
qed

definition demoAuth :: AuthConfig where
  "demoAuth = emptyAuthConfig\<lparr>ac_ServiceAccountName := ''app'', ac_ServiceAccountNamespace := ''team'',
     ac_KubeClient := True, ac_OidcArn := ''arn'', ac_RoleArn := ''role''\<rparr>"

theorem service_account_fails_closed_witness:
  "\<exists>chain. result (authChain (sampleEnv\<lparr>e_CreateToken := \<lambda>_ _ _ _. Inr ''jwt''\<rparr>) demoAuth ''cn'') sampleProc = Inr chain \<and>
     chain \<noteq> [] \<and> hd chain = OidcToken ''cn'' oidcRoleSessionName ''jwt'' ''role'' ''arn''"
proof -
  let ?E = "sampleEnv\<lparr>e_CreateToken := \<lambda>_ _ _ _. Inr ''jwt''\<rparr>"
  have r: "result (authChain ?E demoAuth ''cn'') sampleProc =
      Inr [OidcToken ''cn'' oidcRoleSessionName ''jwt'' ''role'' ''arn'']"
    by (simp add: authChain_def oidcPrerequisitesMissing_def oidcTierAllowed_def createOIDCProvider_def
        getIdentityToken_def NewTokenOIDCProvider_def api_defs run_simps Let_def akTiers_def
        demoAuth_def emptyAuthConfig_def sampleEnv_def)
  have "ac_ServiceAccountName demoAuth \<noteq> []" by (simp add: demoAuth_def emptyAuthConfig_def)
  from post_new_events [OF service_account_fails_closed [OF this], of ?E "''cn''" sampleProc] r
  show ?thesis by simp
qed

definition stsCall :: "event \<Rightarrow> bool" where
  "stsCall e = (case e of AssumeRoleWithOIDC _ _ _ _ _ \<Rightarrow> True | _ \<Rightarrow> False)"

lemma post_assumeRole:
  "post (assumeRole E p) (\<lambda>(r, p') n.
     case r of
       Inl _ \<Rightarrow> p' = p
     | Inr cred \<Rightarrow> list_ex stsCall n \<and> oi_credential p' = Some cred \<and>
         (\<exists>x. e_ParseTime E x = Inr (oi_expireTime p')))"
  unfolding assumeRole_def api_defs
  by (intro post_intros) (auto simp: stsCall_def)

lemma post_refreshToken:
  "post (refreshToken E p tok) (\<lambda>p' n. oi_credential p' = oi_credential p \<and> oi_expireTime p' = oi_expireTime p)"
  unfolding refreshToken_def Let_def api_defs by (intro post_intros) auto

text \<open>C33. The dynamic OIDC provider never hands out a cached credential past its expiration: a
  result without an STS call is the cached credential, and some clock reading of this very call
  lies before its expiration. A call that fails leaves the cached credential and its expiration
  untouched, and a successful STS call replaces both together.\<close>

theorem cached_credential_is_fresh:
  "post (GetCredential E p) (\<lambda>(r, p') n.
     case r of
       Inl _ \<Rightarrow> oi_credential p' = oi_credential p \<and> oi_expireTime p' = oi_expireTime p
     | Inr cred \<Rightarrow>
         oi_credential p' = Some cred \<and>
         (if list_ex stsCall n then (\<exists>x. e_ParseTime E x = Inr (oi_expireTime p'))
          else p' = p \<and> list_ex (\<lambda>e. case e of Clock t \<Rightarrow> t < oi_expireTime p | _ \<Rightarrow> False) n))"
  (is "post _ ?R")
proof -
  have sts: "post (assumeRole E q) (\<lambda>b n'. ?R b (n' @ n))"
    if "oi_credential q = oi_credential p" "oi_expireTime q = oi_expireTime p" for q n
    by (rule post_conseq [OF post_assumeRole]) (use that in \<open>auto split: sum.splits\<close>)
  have tok: "post (do { p' \<leftarrow> refreshToken E p t; assumeRole E p' }) (\<lambda>b n'. ?R b (n' @ n))" for t n
  proof (rule post_bind [OF post_refreshToken])
    fix q :: TokenOIDCProvider and m assume "oi_credential q = oi_credential p \<and> oi_expireTime q = oi_expireTime p"
    then show "post (assumeRole E q) (\<lambda>b n'. ?R b ((n' @ m) @ n))"
      unfolding append_assoc by (intro sts) blast+
  qed
  have cached: "now < oi_expireTime p" "oi_credential p \<noteq> None" if "\<not> credentialNeedsRefresh p now" for now
    using that not_needsRefresh by (auto simp: credentialNeedsRefresh_def)
  show ?thesis
    unfolding GetCredential_def getIdentityToken_def validCached_def api_defs
  proof (intro post_intros, goal_cases)
    case (1 t)
    then show ?case using cached [of "e_now E t"] by (auto simp: stsCall_def)
  next
    case 2
    then show ?case by simp
  next
    case 3
    then show ?case by (simp add: stsCall_def)
  next
    case 4
    show ?case unfolding append_assoc by (rule tok)
  next
    case 5
    show ?case unfolding append_assoc by (rule sts) simp_all
  qed
qed

end
