(* ===== verification/Provider_Clients.thy ===== *)
theory Provider_Clients
  imports Auth
begin

text \<open>
  The providers: \<open>pkg/backend/provider.go\<close> (the provider table and the lazy ENV client),
  \<open>provider/kms/client_provider.go\<close>, \<open>provider/oos/client_provider.go\<close> (building a client) and
  \<open>provider/kms/endpoint_validation.go\<close>. A caller holds a \<open>provider\<close> value for its immutable
  fields; its client pool is the one in the process table under the provider's name.
\<close>

section \<open>KMS endpoints\<close>

definition labelChar :: "char \<Rightarrow> bool" where
  "labelChar c \<longleftrightarrow> (CHR ''a'' \<le> c \<and> c \<le> CHR ''z'') \<or> is_digit c \<or> c = CHR ''-''"

definition dnsLabel :: "string \<Rightarrow> bool" where
  "dnsLabel s \<longleftrightarrow> s \<noteq> [] \<and> list_all labelChar s"

definition between :: "string \<Rightarrow> string \<Rightarrow> string \<Rightarrow> string option" where
  "between pre suf s =
     (if length s \<ge> length pre + length suf \<and> HasPrefix s pre \<and> HasSuffix s suf
      then Some (take (length s - length pre - length suf) (drop (length pre) s)) else None)"

definition matchesLabel :: "string \<Rightarrow> string \<Rightarrow> string \<Rightarrow> bool" where
  "matchesLabel pre suf s = (case between pre suf s of None \<Rightarrow> False | Some l \<Rightarrow> dnsLabel l)"

text \<open>The regular expression \<open>kmsEndpointRe\<close>, alternative by alternative.\<close>

definition kmsEndpointRe :: "string \<Rightarrow> bool" where
  "kmsEndpointRe host \<longleftrightarrow>
     matchesLabel ''kms.'' ''.aliyuncs.com'' host \<or> matchesLabel ''kms-vpc.'' ''.aliyuncs.com'' host \<or>
     matchesLabel [] ''.cryptoservice.kms.aliyuncs.com'' host"

definition validateKmsEndpoint :: "string \<Rightarrow> goerror option" where
  "validateKmsEndpoint endpoint =
     (if \<not> kmsEndpointRe (TrimSpace endpoint)
      then Some (errorf (''KMS endpoint '' @ goquote endpoint @ '' does not match any allowed KMS endpoint pattern '' @
             ''(expected kms.<region>.aliyuncs.com, kms-vpc.<region>.aliyuncs.com, '' @
             ''or <instance-id>.cryptoservice.kms.aliyuncs.com)''))
      else None)"

definition isCryptoserviceEndpoint :: "string \<Rightarrow> bool" where
  "isCryptoserviceEndpoint endpoint = HasSuffix (TrimSpace endpoint) ''.cryptoservice.kms.aliyuncs.com''"

text \<open>The private root certificates by region. In the configuration of a client no certificate is \<open>None\<close>; reading a
  region that is not in the map gives the empty text, \<open>Some None\<close>.\<close>

definition RegionIdAndCaMap :: "ca_cert gomap" where
  "RegionIdAndCaMap = [
     (''cn-hangzhou'', hzCa), (''ap-southeast-1'', sgpCa), (''cn-shanghai'', shCa),
     (''cn-beijing'', bjCa), (''cn-shenzhen'', szCa), (''ap-northeast-1'', jpCa),
     (''cn-shanghai-finance-1'', shfCa), (''eu-central-1'', deCa), (''cn-hongkong'', hkCa),
     (''cn-zhangjiakou'', zjkCa), (''cn-qingdao'', qdCa), (''ap-southeast-3'', myCa),
     (''cn-huhehaote'', hhhtCa), (''us-east-1'', usfCa), (''us-west-1'', usvCa),
     (''ap-southeast-5'', idCa), (''cn-chengdu'', cdCa), (''eu-west-1'', gbCa),
     (''cn-heyuan'', hyCa), (''cn-wulanchabu'', wlcbCa), (''cn-guangzhou'', gzCa),
     (''me-central-1'', mecCa), (''ap-southeast-6'', phpCa), (''cn-beijing-finance-1'', bjfCa),
     (''ap-southeast-7'', thaCa), (''cn-heyuan-acdr-1'', hyaCa), (''pre-env'', preEnvCa)]"

section \<open>The provider table\<close>

record ProviderOptions =
  po_Region :: string
  po_ClusterId :: string
  po_Uid :: string
  po_KmsEndpoint :: string
  po_KmsMaxConcurrent :: int
  po_OosMaxConcurrent :: int

definition kms_NewProvider :: "ProviderOptions \<Rightarrow> provider" where
  "kms_NewProvider opts = \<lparr>pv_kind = KMS, pv_name = ProviderKMSName, pv_region = po_Region opts,
     pv_endpoint = po_KmsEndpoint opts, pv_clusterId = po_ClusterId opts, pv_uid = po_Uid opts,
     pv_maxConcurrent = po_KmsMaxConcurrent opts, pv_Manager = NewManager (po_Region opts)\<rparr>"

definition oos_NewProvider :: "ProviderOptions \<Rightarrow> provider" where
  "oos_NewProvider opts = \<lparr>pv_kind = OOS, pv_name = ProviderOOSName, pv_region = po_Region opts,
     pv_endpoint = [], pv_clusterId = po_ClusterId opts, pv_uid = po_Uid opts,
     pv_maxConcurrent = po_OosMaxConcurrent opts, pv_Manager = NewManager (po_Region opts)\<rparr>"

definition RegisterProvider :: "string \<Rightarrow> provider \<Rightarrow> unit io" where
  "RegisterProvider providerName pv = modify (\<lambda>p. p\<lparr>providerMap := gm_put (providerMap p) providerName pv\<rparr>)"

definition GetProviderByName :: "string \<Rightarrow> provider option io" where
  "GetProviderByName providerName = read (\<lambda>p. gm_get (providerMap p) providerName)"

definition GetEndpoint :: "provider \<Rightarrow> string" where
  "GetEndpoint pv = (case pv_kind pv of
      KMS \<Rightarrow> if pv_endpoint pv = [] then ''kms-vpc.'' @ pv_region pv @ ''.aliyuncs.com'' else pv_endpoint pv
    | OOS \<Rightarrow> [])"

text \<open>The methods of \<open>ClientManager\<close>, dispatched on the provider.\<close>

definition Register :: "provider \<Rightarrow> string \<Rightarrow> SecretClient \<Rightarrow> unit io" where
  "Register pv key client = onManager (pv_name pv) (\<lambda>m.
     (case pv_kind pv of KMS \<Rightarrow> kms_Register m key client | OOS \<Rightarrow> oos_Register m key client, []))"

definition GetClient :: "provider \<Rightarrow> string \<Rightarrow> SecretClient res io" where
  "GetClient pv key = do {
     m \<leftarrow> getManager (pv_name pv);
     ret (case pv_kind pv of KMS \<Rightarrow> kms_GetClient m key | OOS \<Rightarrow> oos_GetClient m key)
   }"

definition DeleteClient :: "provider \<Rightarrow> string \<Rightarrow> unit io" where
  "DeleteClient pv key = onManager (pv_name pv) (\<lambda>m.
     case pv_kind pv of KMS \<Rightarrow> kms_Delete m key | OOS \<Rightarrow> oos_Delete m key)"

definition DeletePrefixed :: "provider \<Rightarrow> string \<Rightarrow> unit io" where
  "DeletePrefixed pv key = onManager (pv_name pv) (\<lambda>m.
     case pv_kind pv of KMS \<Rightarrow> kms_DeletePrefixed m key | OOS \<Rightarrow> oos_DeletePrefixed m key)"

section \<open>Building clients\<close>

definition sdkNew :: "env \<Rightarrow> string \<Rightarrow> string \<Rightarrow> ca_cert option option \<Rightarrow> nat \<Rightarrow> nat res io" where
  "sdkNew E endpoint region ca cred =
     call (\<lambda>_. SdkNew endpoint region ca cred) (\<lambda>t. e_SdkNew E t endpoint region ca cred)"

definition kms_newClientWithAuth :: "env \<Rightarrow> provider \<Rightarrow> string \<Rightarrow> AuthConfig \<Rightarrow> string \<Rightarrow> SecretClient res io" where
  "kms_newClientWithAuth E pv clientName auth customEndpoint = do {
     r \<leftarrow> GetAuthCred E auth (pv_region pv) (pv_maxConcurrent pv) (pv_name pv);
     case r of
       Inl err \<Rightarrow> ret (Inl err)
     | Inr cred \<Rightarrow>
         (let endpoint = (if customEndpoint = [] then GetEndpoint pv else customEndpoint)
          in case validateKmsEndpoint endpoint of
               Some err \<Rightarrow> ret (Inl err)
             | None \<Rightarrow> do {
                 let ca = (if isCryptoserviceEndpoint endpoint then Some (gm_get RegionIdAndCaMap (pv_region pv)) else None);
                 cl \<leftarrow> sdkNew E endpoint (pv_region pv) ca cred;
                 ret (case cl of
                     Inl err \<Rightarrow> Inl (wrap_v ''failed to create KMS client: '' err)
                   | Inr sdk \<Rightarrow> Inr (KMSClient (Some \<lparr>cl_clientName = clientName, cl_sdk = Some sdk\<rparr>)))
               })
   }"

definition oos_newClientWithAuth :: "env \<Rightarrow> provider \<Rightarrow> string \<Rightarrow> AuthConfig \<Rightarrow> SecretClient res io" where
  "oos_newClientWithAuth E pv clientName auth = do {
     r \<leftarrow> GetAuthCred E auth (pv_region pv) (pv_maxConcurrent pv) (pv_name pv);
     case r of
       Inl err \<Rightarrow> ret (Inl err)
     | Inr cred \<Rightarrow> do {
         cl \<leftarrow> sdkNew E (''oos-vpc.'' @ pv_region pv @ ''.aliyuncs.com'') (pv_region pv) None cred;
         ret (case cl of
             Inl err \<Rightarrow> Inl (wrap_v ''failed to create OOS client: '' err)
           | Inr sdk \<Rightarrow> Inr (OOSClient (Some \<lparr>cl_clientName = clientName, cl_sdk = Some sdk\<rparr>)))
       }
   }"

text \<open>The adapter of the OOS provider carries no store name.\<close>

definition kms_authProvider :: "SecretStore \<Rightarrow> AuthAdapter option" where
  "kms_authProvider st = (case ss_KMS (ss_Spec st) of
      Some k \<Rightarrow> (case pr_Auth k of Some a \<Rightarrow> Some \<lparr>ad_Auth = Some a, ad_StoreName = m_Name (ss_meta st)\<rparr> | None \<Rightarrow> None)
    | None \<Rightarrow> None)"

definition oos_authProvider :: "SecretStore \<Rightarrow> AuthAdapter option" where
  "oos_authProvider st = (case ss_OOS (ss_Spec st) of
      Some k \<Rightarrow> (case pr_Auth k of Some a \<Rightarrow> Some \<lparr>ad_Auth = Some a, ad_StoreName = []\<rparr> | None \<Rightarrow> None)
    | None \<Rightarrow> None)"

definition withCompositeName :: "AuthConfig \<Rightarrow> string \<Rightarrow> AuthConfig" where
  "withCompositeName a endpoint = a\<lparr>ac_ClientName := CompositeClientKey (ac_ClientName a) endpoint\<rparr>"

definition kms_NewClient :: "env \<Rightarrow> provider \<Rightarrow> SecretStore \<Rightarrow> bool \<Rightarrow> string \<Rightarrow> SecretClient res io" where
  "kms_NewClient E pv st kubeClient endpoint0 = do {
     let endpoint = TrimSpace endpoint0;
     r \<leftarrow> BuildAuthConfig E st kubeClient (kms_authProvider st) (pv_clusterId pv) (pv_uid pv);
     case r of
       Inl err \<Rightarrow> ret (Inl err)
     | Inr authConfig0 \<Rightarrow>
         (let authConfig = withCompositeName authConfig0 endpoint
          in kms_newClientWithAuth E pv (ac_ClientName authConfig) authConfig endpoint)
   }"

definition oos_NewClient :: "env \<Rightarrow> provider \<Rightarrow> SecretStore \<Rightarrow> bool \<Rightarrow> string \<Rightarrow> SecretClient res io" where
  "oos_NewClient E pv st kubeClient endpoint0 = do {
     let endpoint = TrimSpace endpoint0;
     r \<leftarrow> BuildAuthConfig E st kubeClient (oos_authProvider st) (pv_clusterId pv) (pv_uid pv);
     case r of
       Inl err \<Rightarrow> ret (Inl err)
     | Inr authConfig0 \<Rightarrow>
         (let authConfig = withCompositeName authConfig0 endpoint
          in oos_newClientWithAuth E pv (ac_ClientName authConfig) authConfig)
   }"

definition kms_NewClientByENV :: "env \<Rightarrow> provider \<Rightarrow> string \<Rightarrow> SecretClient res io" where
  "kms_NewClientByENV E pv endpoint0 =
     (let endpoint = TrimSpace endpoint0; authEnvs = withCompositeName (BuildAuthConfigFromEnv E) endpoint
      in kms_newClientWithAuth E pv (ac_ClientName authEnvs) authEnvs endpoint)"

definition oos_NewClientByENV :: "env \<Rightarrow> provider \<Rightarrow> string \<Rightarrow> SecretClient res io" where
  "oos_NewClientByENV E pv endpoint0 =
     (let endpoint = TrimSpace endpoint0; authEnvs = withCompositeName (BuildAuthConfigFromEnv E) endpoint
      in oos_newClientWithAuth E pv (ac_ClientName authEnvs) authEnvs)"

definition NewClient :: "env \<Rightarrow> provider \<Rightarrow> SecretStore \<Rightarrow> bool \<Rightarrow> string \<Rightarrow> SecretClient res io" where
  "NewClient E pv st kubeClient endpoint = (case pv_kind pv of
      KMS \<Rightarrow> kms_NewClient E pv st kubeClient endpoint
    | OOS \<Rightarrow> oos_NewClient E pv st kubeClient endpoint)"

definition NewClientByENV :: "env \<Rightarrow> provider \<Rightarrow> string \<Rightarrow> SecretClient res io" where
  "NewClientByENV E pv endpoint = (case pv_kind pv of
      KMS \<Rightarrow> kms_NewClientByENV E pv endpoint
    | OOS \<Rightarrow> oos_NewClientByENV E pv endpoint)"

section \<open>The ENV client\<close>

definition envInitFailureTTL :: int where "envInitFailureTTL = 60000000000"

text \<open>One provider of the loop: the errors so far and the number of clients registered.\<close>

definition initEnvClient :: "env \<Rightarrow> string list \<times> nat \<Rightarrow> string \<times> provider \<Rightarrow> (string list \<times> nat) io" where
  "initEnvClient E acc kp = (case (acc, kp) of ((errs, registered), (k, pv)) \<Rightarrow> do {
     got \<leftarrow> GetClient pv EnvClient;
     case got of
       Inr _ \<Rightarrow> ret (errs, registered)
     | Inl _ \<Rightarrow> do {
         r \<leftarrow> NewClientByENV E pv [];
         case r of
           Inl err \<Rightarrow> ret (errs @ [k @ '' new client by env error '' @ err_msg err], registered)
         | Inr secretClient \<Rightarrow> do {
             _ \<leftarrow> Register pv EnvClient secretClient;
             ret (errs, registered + 1)
           }
       }
   })"

definition EnsureENVClient :: "env \<Rightarrow> goerror option io" where
  "EnsureENVClient E = do {
     now \<leftarrow> timeNow E;
     failure \<leftarrow> read envInitFailure;
     case (case failure of Some (failedAt, e) \<Rightarrow> if now - failedAt < envInitFailureTTL then Some e else None
           | None \<Rightarrow> None) of
       Some e \<Rightarrow> ret (Some e)
     | None \<Rightarrow> do {
         _ \<leftarrow> modify (\<lambda>p. p\<lparr>envInitFailure := None\<rparr>);
         providers \<leftarrow> read providerMap;
         acc \<leftarrow> forM providers ([], 0) (initEnvClient E);
         if length (fst acc) \<noteq> 0
         then (let err = errorf (''new provider client by env error ['' @ Join (fst acc) '' '' @ '']'')
               in do {
                 _ \<leftarrow> modify (\<lambda>p. if snd acc = 0 then p\<lparr>envInitFailure := Some (now, err)\<rparr> else p);
                 ret (Some err)
               })
         else ret None
       }
   }"

section \<open>Facts\<close>

lemma between_iff: "between pre suf s = Some l \<longleftrightarrow> s = pre @ l @ suf"
proof
  assume "between pre suf s = Some l"
  then have len: "length s \<ge> length pre + length suf" and p: "HasPrefix s pre" and q: "HasSuffix s suf"
    and l: "l = take (length s - length pre - length suf) (drop (length pre) s)"
    by (auto simp: between_def split: if_splits)
  from p obtain r where r: "s = pre @ r" by (auto simp: HasPrefix_iff)
  from q obtain u where u: "s = u @ suf" by (auto simp: HasSuffix_iff)
  from r u have "pre @ r = u @ suf" by simp
  then obtain us where "pre = u @ us \<and> us @ r = suf \<or> pre @ us = u \<and> r = us @ suf"
    by (auto simp: append_eq_append_conv2)
  with len r u have "r = us @ suf" by auto
  with l r show "s = pre @ l @ suf" by simp
next
  assume "s = pre @ l @ suf"
  then show "between pre suf s = Some l"
    by (simp add: between_def HasSuffix_def HasPrefix_def)
qed

lemma matchesLabel_iff: "matchesLabel pre suf s \<longleftrightarrow> (\<exists>l. dnsLabel l \<and> s = pre @ l @ suf)"
proof
  assume "matchesLabel pre suf s"
  then show "\<exists>l. dnsLabel l \<and> s = pre @ l @ suf"
    by (auto simp: matchesLabel_def between_iff split: option.splits)
next
  assume "\<exists>l. dnsLabel l \<and> s = pre @ l @ suf"
  then obtain l where "dnsLabel l" "between pre suf s = Some l" using between_iff by blast
  then show "matchesLabel pre suf s" by (simp add: matchesLabel_def)
qed

lemma emits_Register [emits_intros]: "(\<And>s. P (StopRefresher s)) \<Longrightarrow> emits P (Register pv k c)"
  and emits_DeleteClient [emits_intros]: "(\<And>s. P (StopRefresher s)) \<Longrightarrow> emits P (DeleteClient pv k)"
  and emits_DeletePrefixed [emits_intros]: "(\<And>s. P (StopRefresher s)) \<Longrightarrow> emits P (DeletePrefixed pv k)"
  unfolding Register_def DeleteClient_def DeletePrefixed_def by (intro emits_intros; simp)+

lemma emits_GetClient [emits_intros]: "emits P (GetClient pv k)"
  unfolding GetClient_def getManager_def by (intro emits_intros)

lemma emits_GetProviderByName [emits_intros]: "emits P (GetProviderByName n)"
  unfolding GetProviderByName_def by (intro emits_intros)

lemma emits_sdkNew [emits_intros]: "(\<And>a b c d. P (SdkNew a b c d)) \<Longrightarrow> emits P (sdkNew E ep r ca cr)"
  unfolding sdkNew_def by (intro emits_intros) simp

lemma emits_newClientWithAuth:
  assumes "\<And>n s a. P (CreateToken n s a)" "\<And>t. P (Clock t)" "\<And>n c. P (NewRefresher n c)" "\<And>s. P (StopRefresher s)"
    "\<And>ep ca c. (pv_kind pv = KMS \<longrightarrow> kmsEndpointRe (TrimSpace ep) \<and>
        ca = (if isCryptoserviceEndpoint ep then Some (gm_get RegionIdAndCaMap (pv_region pv)) else None)) \<Longrightarrow> P (SdkNew ep (pv_region pv) ca c)"
  shows "pv_kind pv = KMS \<Longrightarrow> emits P (kms_newClientWithAuth E pv n a ep)"
    and "pv_kind pv = OOS \<Longrightarrow> emits P (oos_newClientWithAuth E pv n a)"
  unfolding kms_newClientWithAuth_def oos_newClientWithAuth_def sdkNew_def
  by (intro emits_intros assms; simp add: Let_def validateKmsEndpoint_def split: if_splits)+

lemma emits_NewClient:
  assumes "\<And>ns n. P (GetSecret ns n)" "\<And>ns n. P (GetServiceAccount ns n)"
    "\<And>n s a. P (CreateToken n s a)" "\<And>t. P (Clock t)" "\<And>n c. P (NewRefresher n c)" "\<And>s. P (StopRefresher s)"
    "\<And>ep ca c. (pv_kind pv = KMS \<longrightarrow> kmsEndpointRe (TrimSpace ep) \<and>
        ca = (if isCryptoserviceEndpoint ep then Some (gm_get RegionIdAndCaMap (pv_region pv)) else None)) \<Longrightarrow> P (SdkNew ep (pv_region pv) ca c)"
  shows "emits P (NewClient E pv st kc ep)" and "emits P (NewClientByENV E pv ep)"
  unfolding NewClient_def NewClientByENV_def kms_NewClient_def oos_NewClient_def kms_NewClientByENV_def
    oos_NewClientByENV_def Let_def
  by (cases "pv_kind pv"; simp; intro emits_intros emits_newClientWithAuth assms; simp)+

text \<open>The events of creating clients.\<close>

fun client_event :: "event \<Rightarrow> bool" where
  "client_event (GetSecret _ _) = True"
| "client_event (GetServiceAccount _ _) = True"
| "client_event (CreateToken _ _ _) = True"
| "client_event (Clock _) = True"
| "client_event (NewRefresher _ _) = True"
| "client_event (StopRefresher _) = True"
| "client_event (SdkNew _ _ _ _) = True"
| "client_event _ = False"

lemma emits_NewClient_any [emits_intros]:
  assumes "\<And>e. client_event e \<Longrightarrow> P e"
  shows "emits P (NewClient E pv st kc ep)" "emits P (NewClientByENV E pv ep)"
  by (rule emits_NewClient; simp add: assms)+

lemma emits_EnsureENVClient [emits_intros]:
  assumes "\<And>e. client_event e \<Longrightarrow> P e"
  shows "emits P (EnsureENVClient E)"
  unfolding EnsureENVClient_def initEnvClient_def Let_def api_defs
  by (intro emits_intros; simp add: assms)

text \<open>Settings keep the client name of the store.\<close>

lemma post_BuildAuthConfig:
  "post (BuildAuthConfig E st kc ap cid uid) (\<lambda>r n. list_all (\<lambda>e. \<not> (\<exists>k c. e = NewRefresher k c)) n \<and>
     (case r of Inl _ \<Rightarrow> True | Inr a \<Rightarrow> ac_ClientName a = storeClientName st))"
proof -
  let ?P = "\<lambda>e. \<not> (\<exists>k c. e = NewRefresher k c)"
  have sa: "emits ?P (buildServiceAccountRefAuthConfig E st a saRef cid uid)" for a saRef
    unfolding buildServiceAccountRefAuthConfig_def api_defs by (intro emits_intros; simp)
  have rd: "emits ?P (readAuthSecret E f1 f2 w ns ref)" for f1 f2 w ns ref
    by (rule emits_readAuthSecret) simp
  have tr: "emits ?P (buildAuthConfigWithCrossNamespace E st a cid uid)" for a
    unfolding buildAuthConfigWithCrossNamespace_def Let_def by (intro emits_intros rd)
  show ?thesis
    unfolding BuildAuthConfig_def Let_def
    by (intro post_intros post_bind_emits [OF sa] post_bind_emits [OF tr])
      (auto simp: list_all_iff split: sum.splits)
qed

definition refreshersNamed :: "string \<Rightarrow> event list \<Rightarrow> bool" where
  "refreshersNamed k n = list_all (\<lambda>e. case e of NewRefresher k' _ \<Rightarrow> k' = k | _ \<Rightarrow> True) n"

lemma emits_GetAuthCred_named:
  "emits (\<lambda>e. case e of NewRefresher k' _ \<Rightarrow> k' = ac_ClientName a | _ \<Rightarrow> True) (GetAuthCred E a region w pname)"
  unfolding GetAuthCred_def Let_def by (intro emits_intros; simp)

definition clientNameOf :: "SecretClient \<Rightarrow> string option" where
  "clientNameOf c = (case c of KMSClient (Some o1) \<Rightarrow> Some (cl_clientName o1) | OOSClient (Some o1) \<Rightarrow> Some (cl_clientName o1)
     | _ \<Rightarrow> None)"

lemma post_newClientWithAuth:
  "ac_ClientName a = k \<Longrightarrow> post (kms_newClientWithAuth E pv k a ep) (\<lambda>r n. refreshersNamed k n \<and>
     (case r of Inl _ \<Rightarrow> True | Inr c \<Rightarrow> clientNameOf c = Some k \<and> kms_client c))"
  "ac_ClientName a = k \<Longrightarrow> post (oos_newClientWithAuth E pv k a) (\<lambda>r n. refreshersNamed k n \<and>
     (case r of Inl _ \<Rightarrow> True | Inr c \<Rightarrow> clientNameOf c = Some k \<and> oos_client c))"
  unfolding kms_newClientWithAuth_def oos_newClientWithAuth_def sdkNew_def Let_def
  by (intro post_intros post_bind_emits [OF emits_GetAuthCred_named];
      auto simp: refreshersNamed_def list_all_iff clientNameOf_def kms_client_def oos_client_def split: sum.splits)+

text \<open>A built client is of its provider's kind, carries a live SDK client, and it and its refresher are
  named by the store key and the endpoint.\<close>

lemma post_NewClient:
  "post (NewClient E pv st kubeClient endpoint) (\<lambda>r n.
     refreshersNamed (CompositeClientKey (storeClientName st) (TrimSpace endpoint)) n \<and>
     (case r of Inl _ \<Rightarrow> True
        | Inr c \<Rightarrow> clientNameOf c = Some (CompositeClientKey (storeClientName st) (TrimSpace endpoint)) \<and>
            (case pv_kind pv of KMS \<Rightarrow> kms_client c | OOS \<Rightarrow> oos_client c)))"
proof -
  let ?k = "CompositeClientKey (storeClientName st) (TrimSpace endpoint)"
  have build: "post (BuildAuthConfig E st kubeClient ap cid uid) (\<lambda>r n. refreshersNamed ?k n \<and>
     (case r of Inl _ \<Rightarrow> True | Inr a \<Rightarrow> ac_ClientName (withCompositeName a (TrimSpace endpoint)) = ?k))" for ap cid uid
    by (rule post_conseq [OF post_BuildAuthConfig])
      (auto simp: refreshersNamed_def list_all_iff withCompositeName_def split: sum.splits event.splits)
  have app: "refreshersNamed ?k (n' @ n) \<longleftrightarrow> refreshersNamed ?k n' \<and> refreshersNamed ?k n" for n n'
    by (simp add: refreshersNamed_def)
  show ?thesis
  proof (cases "pv_kind pv")
    case KMS
    show ?thesis
      unfolding NewClient_def KMS pkind.case kms_NewClient_def Let_def
      by (rule post_bind [OF build], intro post_intros)
        (auto simp: app intro!: post_conseq [OF post_newClientWithAuth(1)] split: sum.splits)
  next
    case OOS
    show ?thesis
      unfolding NewClient_def OOS pkind.case oos_NewClient_def Let_def
      by (rule post_bind [OF build], intro post_intros)
        (auto simp: app intro!: post_conseq [OF post_newClientWithAuth(2)] split: sum.splits)
  qed
qed

section \<open>Properties\<close>

definition allowedKmsHost :: "string \<Rightarrow> bool" where
  "allowedKmsHost host \<longleftrightarrow> (\<exists>l. dnsLabel l \<and>
     host \<in> {''kms.'' @ l @ ''.aliyuncs.com'', ''kms-vpc.'' @ l @ ''.aliyuncs.com'', l @ ''.cryptoservice.kms.aliyuncs.com''})"

lemma kmsEndpointRe_iff: "kmsEndpointRe host \<longleftrightarrow> allowedKmsHost host"
  unfolding kmsEndpointRe_def allowedKmsHost_def matchesLabel_iff by auto

definition dedicatedGateway :: "string \<Rightarrow> bool" where
  "dedicatedGateway host \<longleftrightarrow> (\<exists>l. dnsLabel l \<and> host = l @ ''.cryptoservice.kms.aliyuncs.com'')"

lemma label_dots: "dnsLabel l \<Longrightarrow> count_list l (CHR ''.'') = 0"
proof -
  have "\<not> labelChar (CHR ''.'')" by code_simp
  then show "dnsLabel l \<Longrightarrow> count_list l (CHR ''.'') = 0"
    unfolding dnsLabel_def list_all_iff count_list_0_iff by blast
qed

lemma dedicated_by_suffix:
  assumes "kmsEndpointRe (TrimSpace ep)"
  shows "isCryptoserviceEndpoint ep \<longleftrightarrow> dedicatedGateway (TrimSpace ep)"
proof
  assume "isCryptoserviceEndpoint ep"
  then obtain r where r: "TrimSpace ep = r @ ''.cryptoservice.kms.aliyuncs.com''"
    by (auto simp: isCryptoserviceEndpoint_def HasSuffix_iff)
  then have "count_list (TrimSpace ep) (CHR ''.'') \<ge> 4" by simp
  moreover have "count_list (''kms.'' @ l @ ''.aliyuncs.com'') (CHR ''.'') = 3"
      "count_list (''kms-vpc.'' @ l @ ''.aliyuncs.com'') (CHR ''.'') = 3" if "dnsLabel l" for l
    using label_dots [OF that] by simp_all
  ultimately show "dedicatedGateway (TrimSpace ep)"
    using assms unfolding kmsEndpointRe_iff allowedKmsHost_def dedicatedGateway_def by fastforce
next
  assume "dedicatedGateway (TrimSpace ep)"
  then show "isCryptoserviceEndpoint ep" by (auto simp: isCryptoserviceEndpoint_def HasSuffix_iff dedicatedGateway_def)
qed

text \<open>How a KMS client may be created: for an allowed host, in the region of the command line, and with
  a private root certificate, that of the region, exactly for a dedicated gateway.\<close>

definition kmsConnection :: "provider \<Rightarrow> event \<Rightarrow> bool" where
  "kmsConnection pv e \<longleftrightarrow> (case e of
      SdkNew ep region ca _ \<Rightarrow> allowedKmsHost (TrimSpace ep) \<and> region = pv_region pv \<and>
        ca = (if dedicatedGateway (TrimSpace ep) then Some (gm_get RegionIdAndCaMap region) else None)
    | _ \<Rightarrow> True)"

text \<open>C24. Server-side request forgery is impossible: whatever endpoint a custom resource or the
  command line gives, every KMS client is created for a host of one of the three allowed forms
  (a single DNS label between fixed parts); and it trusts a private root certificate, that of the operator's
  region, exactly when the host is a dedicated gateway.\<close>

theorem kms_endpoints_allowed:
  assumes "pv_kind pv = KMS"
  shows "emits (kmsConnection pv) (NewClient E pv st kubeClient endpoint) \<and> emits (kmsConnection pv) (NewClientByENV E pv endpoint)"
  by (rule conjI; rule emits_NewClient; simp add: assms kmsConnection_def dedicated_by_suffix; simp add: kmsEndpointRe_iff)

definition demoOptions :: ProviderOptions where
  "demoOptions = \<lparr>po_Region = ''cn-hangzhou'', po_ClusterId = ''c1'', po_Uid = ''1'', po_KmsEndpoint = [],
     po_KmsMaxConcurrent = 1, po_OosMaxConcurrent = 1\<rparr>"

theorem kms_endpoints_allowed_witness:
  "emits (kmsConnection (kms_NewProvider demoOptions)) (NewClientByENV sampleEnv (kms_NewProvider demoOptions) ''169.254.169.254'')"
  using kms_endpoints_allowed [of "kms_NewProvider demoOptions" sampleEnv _ _ "''169.254.169.254''"]
  by (simp add: kms_NewProvider_def)

text \<open>Key alignment: the credential refresher of a client is registered under exactly the
  composite key (store key and trimmed endpoint) that the client itself carries, so deleting that
  key stops that refresher.\<close>

theorem refresher_key_alignment:
  "post (NewClient E pv st kubeClient endpoint) (\<lambda>r n.
     refreshersNamed (CompositeClientKey (storeClientName st) (TrimSpace endpoint)) n \<and>
     (case r of Inl _ \<Rightarrow> True
        | Inr c \<Rightarrow> clientNameOf c = Some (CompositeClientKey (storeClientName st) (TrimSpace endpoint))))"
  by (rule post_conseq [OF post_NewClient]) (auto split: sum.splits)

text \<open>Within a minute of an attempt that registered nothing, the ENV client initialisation
  returns the cached error and does nothing but read the clock.\<close>

theorem env_failure_is_cached:
  assumes "envInitFailure p = Some (failedAt, e)" "e_now E (tr p) - failedAt < envInitFailureTTL"
  shows "result (EnsureENVClient E) p = Some e \<and> final (EnsureENVClient E) p = p\<lparr>tr := Clock (e_now E (tr p)) # tr p\<rparr>"
  using assms by (simp add: EnsureENVClient_def api_defs run_simps)

theorem env_failure_is_cached_witness:
  "result (EnsureENVClient sampleEnv) (sampleProc\<lparr>envInitFailure := Some (0, errorf ''down'')\<rparr>) = Some (errorf ''down'')"
  using env_failure_is_cached [of "sampleProc\<lparr>envInitFailure := Some (0, errorf ''down'')\<rparr>" 0 "errorf ''down''" sampleEnv]
  by (simp add: envInitFailureTTL_def sampleEnv_def)

end
