(* ===== verification/Partial_Failure.thy ===== *)
theory Partial_Failure
  imports Secret_Data
begin

text \<open>
  \<open>controller/externalsecret/partial_failure.go\<close> and the counting and write-data functions of
  \<open>externalsecret_controller.go\<close>: what a round does when some sources failed. An error map is a
  Go \<open>map[string]error\<close>; its values may be nil, though the fetch loops store none.
\<close>

type_synonym errmap = "goerror option gomap"

section \<open>Decisions\<close>

definition shouldSkipSecretWrite :: "nat \<Rightarrow> nat \<Rightarrow> bool \<Rightarrow> bool \<Rightarrow> bool \<Rightarrow> bool" where
  "shouldSkipSecretWrite secretMapLen errCount allDataSourcesFailed cleanupOnFailure templateProcessed =
     (if errCount = 0 then False
      else if allDataSourcesFailed \<and> cleanupOnFailure then False
      else if secretMapLen > 0 \<and> \<not> templateProcessed then False
      else True)"

definition hasDeclaredSourcesButZeroOutput :: "nat \<Rightarrow> nat \<Rightarrow> nat \<Rightarrow> bool" where
  "hasDeclaredSourcesButZeroOutput totalDataSources failedKeyCount producedKeys \<longleftrightarrow>
     totalDataSources > 0 \<and> failedKeyCount = 0 \<and> producedKeys = 0"

definition hasNoDeclaredSourcesButExistingData :: "nat \<Rightarrow> bool \<Rightarrow> nat \<Rightarrow> bool" where
  "hasNoDeclaredSourcesButExistingData totalDataSources templateConfigured existingKeys \<longleftrightarrow>
     totalDataSources = 0 \<and> \<not> templateConfigured \<and> existingKeys > 0"

definition templateRenderedZeroOutput :: "nat \<Rightarrow> nat \<Rightarrow> nat \<Rightarrow> nat \<Rightarrow> bool" where
  "templateRenderedZeroOutput failedKeyCount postTemplateKeys preTemplateKeys existingKeys \<longleftrightarrow>
     failedKeyCount = 0 \<and> postTemplateKeys = 0 \<and> (preTemplateKeys > 0 \<or> existingKeys > 0)"

section \<open>Merging\<close>

fun retainAll :: "bytes gomap \<Rightarrow> bytes gomap \<Rightarrow> bytes gomap" where
  "retainAll merged [] = merged"
| "retainAll merged ((k, v) # rest) =
     retainAll (if gm_has merged k then merged else gm_put merged k v) rest"

fun retainKeys :: "bytes gomap \<Rightarrow> bytes gomap \<Rightarrow> string list \<Rightarrow> bytes gomap" where
  "retainKeys merged currentData [] = merged"
| "retainKeys merged currentData (k # ks) =
     retainKeys
       (if gm_has merged k then merged
        else (case gm_get currentData k of Some old \<Rightarrow> gm_put merged k old | None \<Rightarrow> merged))
       currentData ks"

definition mergeWithFailedKeys ::
    "bytes gomap \<Rightarrow> bytes gomap \<Rightarrow> string list \<Rightarrow> bool \<Rightarrow> bytes gomap" where
  "mergeWithFailedKeys secretMap currentData failedEntryKeys retainAllUnmapped =
     (let merged = gm_overlay gm_empty secretMap
      in if retainAllUnmapped then retainAll merged currentData
         else retainKeys merged currentData failedEntryKeys)"

section \<open>Failed entries\<close>

definition jmesPathTargetKeys :: "DataSource \<Rightarrow> string list" where
  "jmesPathTargetKeys data =
     map (\<lambda>jp. if jp_ObjectAlias jp \<noteq> [] then jp_ObjectAlias jp else ds_Key data) (ds_JMESPath data)"

fun addKeys :: "string list \<Rightarrow> strset \<Rightarrow> strset" where
  "addKeys [] s = s"
| "addKeys (k # ks) s = addKeys ks (ss_add k s)"

fun failedDataKeys :: "errmap \<Rightarrow> DataSource list \<Rightarrow> strset \<Rightarrow> strset" where
  "failedDataKeys dataErrorsMap [] keySet = keySet"
| "failedDataKeys dataErrorsMap (data # rest) keySet =
     (if \<not> gm_has dataErrorsMap (ds_Key data) then failedDataKeys dataErrorsMap rest keySet
      else if length (ds_JMESPath data) > 0
      then failedDataKeys dataErrorsMap rest (ss_add (ResolveTargetKey data) (addKeys (jmesPathTargetKeys data) keySet))
      else failedDataKeys dataErrorsMap rest (ss_add (ResolveTargetKey data) keySet))"

fun anyExtractFailed :: "errmap \<Rightarrow> DataProcess list \<Rightarrow> bool \<Rightarrow> bool" where
  "anyExtractFailed errs [] retain = retain"
| "anyExtractFailed errs (dp # rest) retain = (case dp_Extract dp of
      None \<Rightarrow> anyExtractFailed errs rest retain
    | Some extract \<Rightarrow>
        if \<not> gm_has errs (ds_Key extract) then anyExtractFailed errs rest retain
        else anyExtractFailed errs rest True)"

definition collectFailedEntryTargetKeys :: "ExternalSecret \<Rightarrow> errmap \<Rightarrow> errmap \<Rightarrow> string list \<times> bool" where
  "collectFailedEntryTargetKeys es dataErrorsMap extractDataErrorsMap =
     (sort (failedDataKeys dataErrorsMap (sp_Data (es_Spec es)) []),
      anyExtractFailed extractDataErrorsMap (sp_DataProcess (es_Spec es)) False)"

fun nonNilKeys :: "errmap \<Rightarrow> strset \<Rightarrow> strset" where
  "nonNilKeys [] s = s"
| "nonNilKeys ((k, v) # rest) s = nonNilKeys rest (if v = None then s else ss_add k s)"

definition collectFailedKeys :: "errmap \<Rightarrow> errmap \<Rightarrow> string list" where
  "collectFailedKeys dataErrorMap extractDataErrorMap =
     sort (nonNilKeys extractDataErrorMap (nonNilKeys dataErrorMap []))"

fun addErrors :: "bool \<Rightarrow> errmap \<Rightarrow> string gomap \<Rightarrow> string gomap" where
  "addErrors extract [] errs = errs"
| "addErrors extract ((k, v) # rest) errs = addErrors extract rest
     (case v of
        None \<Rightarrow> errs
      | Some e \<Rightarrow> (case (if extract then gm_get errs k else None) of
           Some existing \<Rightarrow> gm_put errs k (''data: '' @ existing @ ''; extract: '' @ err_msg e)
         | None \<Rightarrow> gm_put errs k (err_msg e)))"

definition collectFailedErrors :: "errmap \<Rightarrow> errmap \<Rightarrow> string gomap" where
  "collectFailedErrors dataErrorMap extractDataErrorMap =
     addErrors True extractDataErrorMap (addErrors False dataErrorMap gm_empty)"

definition dataEntryTargetCovered :: "DataSource \<Rightarrow> bytes gomap \<Rightarrow> strset \<Rightarrow> bool" where
  "dataEntryTargetCovered data secretMap succeededDataKeys =
     (if \<not> ds_Key data \<in> set succeededDataKeys then False
      else if length (ds_JMESPath data) > 0
      then (if list_all (gm_has secretMap) (jmesPathTargetKeys data) then True
            else gm_has secretMap (ResolveTargetKey data))
      else gm_has secretMap (ResolveTargetKey data))"

definition failedUncoveredEntries :: "ExternalSecret \<Rightarrow> errmap \<Rightarrow> bytes gomap \<Rightarrow> strset \<Rightarrow> bool list" where
  "failedUncoveredEntries es dataErrorMap secretMap succeededDataKeys =
     map (\<lambda>data. gm_has dataErrorMap (ds_Key data) \<and> \<not> dataEntryTargetCovered data secretMap succeededDataKeys)
       (sp_Data (es_Spec es))"

section \<open>Counting and write data\<close>

fun countExtracts :: "errmap \<Rightarrow> strset \<Rightarrow> DataProcess list \<Rightarrow> nat \<times> nat \<Rightarrow> nat \<times> nat" where
  "countExtracts errs succ [] acc = acc"
| "countExtracts errs succ (dp # rest) (tot, failed) = (case dp_Extract dp of
      None \<Rightarrow> countExtracts errs succ rest (tot, failed)
    | Some extract \<Rightarrow>
        if \<not> gm_has errs (ds_Key extract) then countExtracts errs succ rest (tot + 1, failed)
        else if ds_Key extract \<in> set succ then countExtracts errs succ rest (tot + 1, failed)
        else countExtracts errs succ rest (tot + 1, failed + 1))"

definition countFailedSources ::
    "ExternalSecret \<Rightarrow> bool list \<Rightarrow> errmap \<Rightarrow> errmap \<Rightarrow> strset \<Rightarrow> nat \<times> nat \<times> nat" where
  "countFailedSources es failedUncovered dataErrorsMap extractDataErrorsMap extractSucceededKeys =
     (let (totalDataSources, failedSources) =
            countExtracts extractDataErrorsMap extractSucceededKeys (sp_DataProcess (es_Spec es))
              (length (sp_Data (es_Spec es)), length (filter (\<lambda>b. b) failedUncovered));
          failedKeySet = nonNilKeys extractDataErrorsMap (nonNilKeys dataErrorsMap [])
      in (totalDataSources, failedSources, length failedKeySet))"

definition resolveWriteData ::
    "bool \<Rightarrow> ExternalSecret \<Rightarrow> errmap \<Rightarrow> errmap \<Rightarrow> bytes gomap \<Rightarrow> bytes gomap \<Rightarrow> bool \<Rightarrow> nat \<Rightarrow> bool
       \<Rightarrow> bytes gomap option" where
  \<comment> \<open>\<open>None\<close> is the nil map\<close>
  "resolveWriteData cleanUp es dataErrorsMap extractDataErrorsMap secretMap currentData
       allDataSourcesFailed failedKeyCount templateProcessed =
     (if allDataSourcesFailed \<and> cleanUp then None
      else if failedKeyCount > 0 \<and> gm_len secretMap > 0 \<and> \<not> templateProcessed
      then (let (failedTargetKeys, retainAllUnmapped) =
                  collectFailedEntryTargetKeys es dataErrorsMap extractDataErrorsMap
            in Some (mergeWithFailedKeys secretMap currentData failedTargetKeys retainAllUnmapped))
      else Some secretMap)"

section \<open>Facts\<close>

lemma gm_ok_retainAll: "gm_ok m \<Longrightarrow> gm_ok (retainAll m c)"
  by (induction m c rule: retainAll.induct) auto

lemma gm_get_retainAll:
  "gm_ok c \<Longrightarrow> gm_get (retainAll m c) k = (case gm_get m k of Some v \<Rightarrow> Some v | None \<Rightarrow> gm_get c k)"
proof (induction m c rule: retainAll.induct)
  case (1 m)
  then show ?case by (simp add: gm_get_def split: option.splits)
next
  case (2 m k' v rest)
  from "2.prems" have ok: "gm_ok rest" and no: "gm_get rest k' = None"
    by (auto simp: gm_ok_def gm_get_def map_of_eq_None_iff)
  have "gm_get ((k', v) # rest) k = (if k = k' then Some v else gm_get rest k)"
    by (simp add: gm_get_def)
  with "2.IH" [OF ok] no show ?case by (auto simp: gm_has_def split: option.splits)
qed

lemma gm_ok_retainKeys: "gm_ok m \<Longrightarrow> gm_ok (retainKeys m c ks)"
  by (induction m c ks rule: retainKeys.induct) (auto split: option.splits)

lemma gm_get_retainKeys:
  "gm_get (retainKeys m c ks) k =
     (case gm_get m k of Some v \<Rightarrow> Some v | None \<Rightarrow> if k \<in> set ks then gm_get c k else None)"
  by (induction m c ks rule: retainKeys.induct) (auto simp: gm_has_def split: option.splits)

lemma gm_ok_merge: "gm_ok (mergeWithFailedKeys s c ks r)"
  by (simp add: mergeWithFailedKeys_def Let_def gm_ok_retainAll gm_ok_retainKeys)

lemma gm_get_merge:
  assumes "gm_ok s" and "gm_ok c"
  shows "gm_get (mergeWithFailedKeys s c ks r) k =
     (case gm_get s k of Some v \<Rightarrow> Some v | None \<Rightarrow> if r \<or> k \<in> set ks then gm_get c k else None)"
  using assms
  by (auto simp: mergeWithFailedKeys_def Let_def gm_get_retainAll gm_get_retainKeys split: option.splits)

lemma set_addKeys [simp]: "set (addKeys ks s) = set ks \<union> set s"
  by (induction ks s rule: addKeys.induct) auto

lemma distinct_addKeys [simp]: "distinct (addKeys ks s) \<longleftrightarrow> distinct s"
  by (induction ks s rule: addKeys.induct) auto

definition entryTargetKeys :: "DataSource \<Rightarrow> string set" where
  "entryTargetKeys data = insert (ResolveTargetKey data) (set (jmesPathTargetKeys data))"

lemma jmesPathTargetKeys_jmesTarget: "set (jmesPathTargetKeys data) = jmesTarget (ds_Key data) ` set (ds_JMESPath data)"
  by (auto simp: jmesPathTargetKeys_def jmesTarget_def)

lemma set_failedDataKeys:
  "set (failedDataKeys errs ds s) = set s \<union> \<Union> (entryTargetKeys ` {d \<in> set ds. gm_has errs (ds_Key d)})"
proof (induction errs ds s rule: failedDataKeys.induct)
  case (2 errs d rest s)
  have "length (ds_JMESPath d) = 0 \<Longrightarrow> jmesPathTargetKeys d = []"
    by (simp add: jmesPathTargetKeys_def)
  with 2 show ?case by (auto simp: entryTargetKeys_def)
qed simp

lemma distinct_failedDataKeys: "distinct s \<Longrightarrow> distinct (failedDataKeys errs ds s)"
  by (induction errs ds s rule: failedDataKeys.induct) auto

lemma anyExtractFailed_iff:
  "anyExtractFailed errs dps r \<longleftrightarrow>
     r \<or> (\<exists>dp \<in> set dps. \<exists>x. dp_Extract dp = Some x \<and> gm_has errs (ds_Key x))"
  by (induction errs dps r rule: anyExtractFailed.induct) (auto split: option.splits)

lemma set_nonNilKeys: "set (nonNilKeys m s) = set s \<union> {k. \<exists>e. (k, Some e) \<in> set m}"
  by (induction m s rule: nonNilKeys.induct) auto

lemma distinct_nonNilKeys: "distinct s \<Longrightarrow> distinct (nonNilKeys m s)"
  by (induction m s rule: nonNilKeys.induct) auto

lemma countExtracts_bounds:
  "countExtracts errs succ dps (t, f) = (t', f') \<Longrightarrow>
     t \<le> t' \<and> f \<le> f' \<and> f' - f \<le> t' - t"
proof (induction dps arbitrary: t f)
  case (Cons dp dps)
  then show ?case by (fastforce split: option.splits if_splits)
qed simp

lemma countExtracts_failed:
  "countExtracts errs succ dps (t, f) = (t', f') \<Longrightarrow> f < f' \<Longrightarrow>
     \<exists>dp \<in> set dps. \<exists>x. dp_Extract dp = Some x \<and> gm_has errs (ds_Key x) \<and> ds_Key x \<notin> set succ"
proof (induction dps arbitrary: t f)
  case (Cons dp dps)
  then show ?case
    by (cases "dp_Extract dp") (auto split: if_splits)
qed simp

definition nonnil :: "errmap \<Rightarrow> bool" where
  "nonnil m \<longleftrightarrow> list_all (\<lambda>(k, v). v \<noteq> None) m"

lemma failedKeyCount_0:
  "snd (snd (countFailedSources es fu de ee succ)) = 0 \<longleftrightarrow> nonNilKeys ee (nonNilKeys de []) = []"
  by (simp add: countFailedSources_def Let_def split: prod.splits)

lemma no_failed_keys:
  assumes "snd (snd (countFailedSources es fu de ee succ)) = 0" "nonnil de" "nonnil ee"
  shows "de = [] \<and> ee = []"
proof -
  have "set (nonNilKeys ee (nonNilKeys de [])) = {}" using assms(1) by (simp add: failedKeyCount_0)
  then have "{k. \<exists>e. (k, Some e) \<in> set ee} = {}" "{k. \<exists>e. (k, Some e) \<in> set de} = {}"
    by (auto simp: set_nonNilKeys)
  moreover have "m = []" if "nonnil m" "{k. \<exists>e. (k, Some e) \<in> set m} = {}" for m
    using that by (cases m) (auto simp: nonnil_def)
  ultimately show ?thesis using assms(2,3) by blast
qed

end
