(* ===== verification/Sync_Status.thy ===== *)
theory Sync_Status
  imports Partial_Failure
begin

text \<open>
  The status of an ExternalSecret: \<open>status_sync_results.go\<close>, and from
  \<open>externalsecret_controller.go\<close> the reconciler record, \<open>updateResourceManagementStatus\<close> and
  the notice for a disabled ClusterSecretStore controller. A status write is debounced by a
  comparison of fingerprints; the interface \<open>status_debounce\<close> states what a debounce must
  satisfy, and is interpreted on this comparison here and on the ones of the other controllers.
\<close>

section \<open>The reconciler\<close>

text \<open>A limiter is its presence (nil or set); durations are nanoseconds.\<close>

record ExternalSecretReconciler =
  rc_WatchNamespaces :: "bool gomap"
  rc_ReconciliationPeriod :: int
  rc_CleanUpSecretOnFailure :: bool
  rc_DisablePolling :: bool
  rc_RotationInterval :: int
  rc_KmsLimiter :: bool
  rc_OosLimiter :: bool
  rc_EnableCrossNamespace :: bool
  rc_RestConfig :: bool
  rc_ProcessClusterSecretStore :: bool

section \<open>Fingerprints\<close>

type_synonym fingerprint = "string \<times> string \<times> string"

definition dataSyncResultFingerprintOf :: "DataSyncResult \<Rightarrow> fingerprint" where
  "dataSyncResultFingerprintOf r = (r_ExternalSecretKey r, r_Status r, r_Reason r)"

fun countOld :: "DataSyncResult list \<Rightarrow> (fingerprint \<Rightarrow> int) \<Rightarrow> (fingerprint \<Rightarrow> int)" where
  "countOld [] cnt = cnt"
| "countOld (r # rs) cnt =
     (let f = dataSyncResultFingerprintOf r in countOld rs (cnt(f := cnt f + 1)))"

fun freshExceeds :: "DataSyncResult list \<Rightarrow> (fingerprint \<Rightarrow> int) \<Rightarrow> bool" where
  "freshExceeds [] cnt = False"
| "freshExceeds (r # rs) cnt =
     (let f = dataSyncResultFingerprintOf r; cnt' = cnt(f := cnt f - 1)
      in if cnt' f < 0 then True else freshExceeds rs cnt')"

definition dataSyncResultsChanged :: "DataSyncResult list \<Rightarrow> DataSyncResult list \<Rightarrow> bool" where
  "dataSyncResultsChanged old fresh =
     (if length old \<noteq> length fresh then True else freshExceeds fresh (countOld old (\<lambda>_. 0)))"

section \<open>Building the results of a round\<close>

text \<open>\<open>err.Error()\<close>; on a nil error Go panics, and the fetch loops store none (\<open>nonnil\<close>).\<close>

definition err_Error :: "goerror option \<Rightarrow> string" where
  "err_Error err = (case err of Some e \<Rightarrow> err_msg e | None \<Rightarrow> [])"

definition failedResult :: "int \<Rightarrow> string \<Rightarrow> goerror option \<Rightarrow> DataSyncResult" where
  "failedResult now key err = \<lparr>r_ExternalSecretKey = key, r_Status = ''Failed'', r_Reason = err_Error err,
     r_SynchronizationTime = now\<rparr>"

fun specResults ::
    "int \<Rightarrow> errmap \<Rightarrow> bytes gomap \<Rightarrow> strset \<Rightarrow> DataSource list \<Rightarrow> strset \<Rightarrow> strset \<Rightarrow> DataSyncResult list
       \<Rightarrow> strset \<times> DataSyncResult list" where
  "specResults now errs secretMap succ [] reported reportedFailed results = (reported, results)"
| "specResults now errs secretMap succ (data # rest) reported reportedFailed results =
     (case gm_get errs (ds_Key data) of
        None \<Rightarrow> specResults now errs secretMap succ rest reported reportedFailed results
      | Some err \<Rightarrow>
          (let reported' = ss_add (ds_Key data) reported
           in if ds_Key data \<in> set reportedFailed
              then specResults now errs secretMap succ rest reported' reportedFailed results
              else if dataEntryTargetCovered data secretMap succ
              then specResults now errs secretMap succ rest reported' reportedFailed results
              else specResults now errs secretMap succ rest reported' (ss_add (ds_Key data) reportedFailed)
                     (results @ [failedResult now (ds_Key data) err])))"

fun unhandledResults :: "int \<Rightarrow> strset \<Rightarrow> errmap \<Rightarrow> DataSyncResult list" where
  "unhandledResults now handled [] = []"
| "unhandledResults now handled ((k, v) # rest) =
     (if k \<in> set handled then unhandledResults now handled rest
      else failedResult now k v # unhandledResults now handled rest)"

definition buildDataSyncResults ::
    "int \<Rightarrow> ExternalSecret \<Rightarrow> errmap \<Rightarrow> errmap \<Rightarrow> bytes gomap \<Rightarrow> strset \<Rightarrow> strset \<Rightarrow> DataSyncResult list" where
  "buildDataSyncResults now es dataErrorMap extractDataErrorMap secretMap dataSucceededKeys extractSucceededKeys =
     (let (reportedDataKeys, results) =
            specResults now dataErrorMap secretMap dataSucceededKeys (sp_Data (es_Spec es)) [] [] [];
          results = results @ unhandledResults now reportedDataKeys dataErrorMap;
          results = results @ unhandledResults now extractSucceededKeys extractDataErrorMap
      in if length results = 0
         then results @ [\<lparr>r_ExternalSecretKey = [], r_Status = ''Succeeded'', r_Reason = [],
                r_SynchronizationTime = now\<rparr>]
         else results)"

section \<open>Placeholders\<close>

definition cssControllerDisabledStatusKey :: string where
  "cssControllerDisabledStatusKey = ''cluster_secret_store_controller_disabled''"

definition resourceManagementStatusKeys :: strset where
  "resourceManagementStatusKeys =
     [''operation'', ''finalizer'', ''namespace_access'', ''namespace_check'', ''namespace_terminating'',
      ''endpoint_client_cleanup'', ''provider_configuration'', ''provider_lookup'', ''rate_limit'',
      ''state_retrieval'', ''update_operation'', ''zero_output_guard'', ''template_zero_output_guard'',
      ''template_processing_errors'', ''template_processing_fatal'', ''template_processing_warnings'']"

fun retainLoop :: "DataSyncResult list \<Rightarrow> strset \<Rightarrow> DataSyncResult list" where
  "retainLoop [] existing = []"
| "retainLoop (r # rs) existing =
     (if r_ExternalSecretKey r \<notin> set resourceManagementStatusKeys then retainLoop rs existing
      else if r_ExternalSecretKey r \<in> set existing then retainLoop rs existing
      else r # retainLoop rs (ss_add (r_ExternalSecretKey r) existing))"

definition retainResourceManagementPlaceholder ::
    "DataSyncResult list \<Rightarrow> DataSyncResult list \<Rightarrow> DataSyncResult list" where
  "retainResourceManagementPlaceholder fresh old =
     (let retained = retainLoop old (addKeys (map r_ExternalSecretKey fresh) [])
      in if length retained = 0 then fresh else fresh @ retained)"

fun mergeLoop :: "DataSyncResult list \<Rightarrow> DataSyncResult list" where
  "mergeLoop [] = []"
| "mergeLoop (r # rs) =
     (if r_ExternalSecretKey r = cssControllerDisabledStatusKey then r # mergeLoop rs
      else if r_ExternalSecretKey r \<in> set resourceManagementStatusKeys then mergeLoop rs
      else if r_ExternalSecretKey r = [] then mergeLoop rs
      else r # mergeLoop rs)"

definition mergeResourceManagementResults :: "DataSyncResult list \<Rightarrow> DataSyncResult \<Rightarrow> DataSyncResult list" where
  "mergeResourceManagementResults old placeholder = mergeLoop old @ [placeholder]"

definition retainCSSDisabledNotice :: "DataSyncResult list \<Rightarrow> DataSyncResult list \<Rightarrow> DataSyncResult list" where
  "retainCSSDisabledNotice fresh old =
     (case List.find (\<lambda>r. r_ExternalSecretKey r = cssControllerDisabledStatusKey) fresh of
        Some _ \<Rightarrow> fresh
      | None \<Rightarrow> (case List.find (\<lambda>r. r_ExternalSecretKey r = cssControllerDisabledStatusKey) old of
           Some r \<Rightarrow> fresh @ [r]
         | None \<Rightarrow> fresh))"

section \<open>Writing the status\<close>

text \<open>
  The object in hand after a status update: the server's object on success, the locally changed
  object on failure (which is only logged).
\<close>

definition writeResults :: "env \<Rightarrow> ExternalSecret \<Rightarrow> DataSyncResult list \<Rightarrow> ExternalSecret io" where
  "writeResults E es results = do {
     let es' = es\<lparr>es_DataSyncResults := results\<rparr>;
     r \<leftarrow> updateESStatus E es';
     ret (case r of Inl _ \<Rightarrow> es' | Inr stored \<Rightarrow> stored)
   }"

definition updateResourceManagementStatus ::
    "env \<Rightarrow> ExternalSecret \<Rightarrow> string \<Rightarrow> goerror \<Rightarrow> ExternalSecret io" where
  "updateResourceManagementStatus E es errorType err = do {
     time \<leftarrow> timeNow E;
     let placeholder = \<lparr>r_ExternalSecretKey = errorType, r_Status = ''Failed'', r_Reason = err_msg err,
           r_SynchronizationTime = time\<rparr>;
     let merged = mergeResourceManagementResults (es_DataSyncResults es) placeholder;
     if \<not> dataSyncResultsChanged (es_DataSyncResults es) merged then ret es
     else writeResults E es merged
   }"

fun refNames :: "SecretStoreRef option list \<Rightarrow> strset \<Rightarrow> strset" where
  "refNames [] seen = seen"
| "refNames (r # rs) seen = refNames rs (case r of
      Some ref \<Rightarrow> if ssr_Kind ref = ''ClusterSecretStore'' then ss_add (ssr_Name ref) seen else seen
    | None \<Rightarrow> seen)"

definition disabledCSSReferences :: "ExternalSecret \<Rightarrow> string list" where
  "disabledCSSReferences es =
     sort (refNames (map ds_SecretStoreRef (sp_Data (es_Spec es)) @
                     map (\<lambda>dp. case dp_Extract dp of Some x \<Rightarrow> ds_SecretStoreRef x | None \<Rightarrow> None)
                       (sp_DataProcess (es_Spec es))) [])"

definition recordCSSControllerDisabledStatus ::
    "env \<Rightarrow> ExternalSecret \<Rightarrow> string list \<Rightarrow> (bool \<times> ExternalSecret) io" where
  "recordCSSControllerDisabledStatus E es cssNames = do {
     time \<leftarrow> timeNow E;
     let placeholder = \<lparr>r_ExternalSecretKey = cssControllerDisabledStatusKey, r_Status = ''Warning'',
           r_Reason = ''ClusterSecretStore controller disabled; credential/config updates for ClusterSecretStore(s) ''
             @ Join cssNames '', '' @ '' take effect only after the operator restarts'',
           r_SynchronizationTime = time\<rparr>;
     let merged = filter (\<lambda>r. r_ExternalSecretKey r \<noteq> cssControllerDisabledStatusKey) (es_DataSyncResults es)
                  @ [placeholder];
     if \<not> dataSyncResultsChanged (es_DataSyncResults es) merged then ret (False, es)
     else do { es' \<leftarrow> writeResults E es merged; ret (True, es') }
   }"

definition cssDisabledNoticeActive :: "ExternalSecretReconciler \<Rightarrow> ExternalSecret \<Rightarrow> bool" where
  "cssDisabledNoticeActive r es \<longleftrightarrow>
     \<not> rc_ProcessClusterSecretStore r \<and> length (disabledCSSReferences es) > 0"

definition freshResults ::
    "ExternalSecretReconciler \<Rightarrow> int \<Rightarrow> ExternalSecret \<Rightarrow> errmap \<Rightarrow> errmap \<Rightarrow> bytes gomap \<Rightarrow> strset \<Rightarrow> strset
       \<Rightarrow> bool \<Rightarrow> DataSyncResult list" where
  "freshResults r time es dataErrorMap extractDataErrorMap secretMap dataSucceededKeys extractSucceededKeys dropPlaceholder =
     (let fresh = buildDataSyncResults time es dataErrorMap extractDataErrorMap secretMap dataSucceededKeys
                    extractSucceededKeys;
          fresh = (if \<not> dropPlaceholder then retainResourceManagementPlaceholder fresh (es_DataSyncResults es) else fresh)
      in if cssDisabledNoticeActive r es then retainCSSDisabledNotice fresh (es_DataSyncResults es) else fresh)"

definition updateExternalSecretStatus ::
    "env \<Rightarrow> ExternalSecretReconciler \<Rightarrow> ExternalSecret \<Rightarrow> errmap \<Rightarrow> errmap \<Rightarrow> bytes gomap \<Rightarrow> strset \<Rightarrow> strset
       \<Rightarrow> bool \<Rightarrow> bool \<Rightarrow> ExternalSecret io" where
  "updateExternalSecretStatus E r es dataErrorMap extractDataErrorMap secretMap dataSucceededKeys
       extractSucceededKeys dropPlaceholder force = do {
     time \<leftarrow> timeNow E;
     let fresh = freshResults r time es dataErrorMap extractDataErrorMap secretMap dataSucceededKeys
                   extractSucceededKeys dropPlaceholder;
     if \<not> force \<and> \<not> dataSyncResultsChanged (es_DataSyncResults es) fresh then ret es
     else writeResults E es fresh
   }"

section \<open>The debounce contract\<close>

locale status_debounce =
  fixes changed :: "'s \<Rightarrow> 's \<Rightarrow> bool"
    and view :: "'s \<Rightarrow> 'f"
  assumes changed_iff: "changed a b \<longleftrightarrow> view a \<noteq> view b"
begin

definition settle :: "'s \<Rightarrow> 's \<Rightarrow> 's" where
  "settle cur fresh = (if changed cur fresh then fresh else cur)"

lemma changed_refl: "\<not> changed a a"
  by (simp add: changed_iff)

lemma changed_sym: "changed a b \<longleftrightarrow> changed b a"
  by (auto simp: changed_iff)

lemma unchanged_trans: "\<not> changed a b \<Longrightarrow> \<not> changed b c \<Longrightarrow> \<not> changed a c"
  by (simp add: changed_iff)

lemma view_settle: "view (settle cur fresh) = view fresh"
  by (simp add: settle_def changed_iff)

lemma settle_stable: "view fresh = view fresh' \<Longrightarrow> \<not> changed (settle cur fresh) fresh'"
  by (simp add: changed_iff view_settle)

end

section \<open>Facts\<close>

lemma countOld_eq:
  "countOld rs c f = c f + int (count (mset (map dataSyncResultFingerprintOf rs)) f)"
  by (induction rs arbitrary: c) (auto simp: Let_def)

lemma freshExceeds_iff:
  "(\<And>f. c f \<ge> 0) \<Longrightarrow>
   freshExceeds rs c \<longleftrightarrow> (\<exists>f. int (count (mset (map dataSyncResultFingerprintOf rs)) f) > c f)"
proof (induction rs arbitrary: c)
  case Nil
  then show ?case by (simp add: not_less)
next
  case (Cons r rs)
  let ?f = "dataSyncResultFingerprintOf r"
  let ?c = "c(?f := c ?f - 1)"
  show ?case
  proof (cases "c ?f - 1 < 0")
    case True
    then have "int (count (mset (map dataSyncResultFingerprintOf (r # rs))) ?f) > c ?f" by simp
    moreover have "freshExceeds (r # rs) c" using True by (simp add: Let_def)
    ultimately show ?thesis by blast
  next
    case False
    then have nn: "\<And>g. ?c g \<ge> 0" using Cons.prems by simp
    have "freshExceeds (r # rs) c \<longleftrightarrow> freshExceeds rs ?c" using False by (simp add: Let_def)
    also have "\<dots> \<longleftrightarrow> (\<exists>g. int (count (mset (map dataSyncResultFingerprintOf rs)) g) > ?c g)"
      using Cons.IH nn by blast
    also have "\<dots> \<longleftrightarrow> (\<exists>g. int (count (mset (map dataSyncResultFingerprintOf (r # rs))) g) > c g)"
      by (rule ex_cong1) auto
    finally show ?thesis .
  qed
qed

lemma dataSyncResultsChanged_mset:
  "dataSyncResultsChanged old fresh \<longleftrightarrow>
     mset (map dataSyncResultFingerprintOf old) \<noteq> mset (map dataSyncResultFingerprintOf fresh)"
proof -
  let ?o = "mset (map dataSyncResultFingerprintOf old)"
  let ?n = "mset (map dataSyncResultFingerprintOf fresh)"
  have ex: "freshExceeds fresh (countOld old (\<lambda>_. 0)) \<longleftrightarrow> (\<exists>f. count ?n f > count ?o f)"
    by (subst freshExceeds_iff) (simp_all add: countOld_eq)
  also have "\<dots> \<longleftrightarrow> \<not> ?n \<subseteq># ?o" by (auto simp: subseteq_mset_def not_le)
  finally have fe: "freshExceeds fresh (countOld old (\<lambda>_. 0)) \<longleftrightarrow> \<not> ?n \<subseteq># ?o" .
  show ?thesis
  proof (cases "length old = length fresh")
    case False
    then have "size ?o \<noteq> size ?n" by simp
    then have "?o \<noteq> ?n" by metis
    then show ?thesis using False by (simp add: dataSyncResultsChanged_def)
  next
    case True
    then have "size ?n = size ?o" by simp
    then have "?n \<subseteq># ?o \<longleftrightarrow> ?n = ?o" by (metis mset_subset_size nat_less_le subset_mset.le_neq_trans subset_mset.order_refl)
    then show ?thesis using True fe by (auto simp: dataSyncResultsChanged_def)
  qed
qed

interpretation es_debounce: status_debounce dataSyncResultsChanged
    "\<lambda>rs. mset (map dataSyncResultFingerprintOf rs)"
  by unfold_locales (rule dataSyncResultsChanged_mset)

lemma mergeLoop_filter:
  "mergeLoop rs = filter (\<lambda>r. r_ExternalSecretKey r = cssControllerDisabledStatusKey \<or>
     (r_ExternalSecretKey r \<notin> set resourceManagementStatusKeys \<and> r_ExternalSecretKey r \<noteq> [])) rs"
  by (induction rs) auto

lemma mergeLoop_merge:
  assumes "r_ExternalSecretKey p \<in> set resourceManagementStatusKeys"
  shows "mergeLoop (mergeResourceManagementResults old p) = mergeLoop old"
proof -
  have "r_ExternalSecretKey p \<noteq> cssControllerDisabledStatusKey"
    using assms by (auto simp: resourceManagementStatusKeys_def cssControllerDisabledStatusKey_def)
  then show ?thesis using assms
    by (simp add: mergeResourceManagementResults_def mergeLoop_filter)
qed

text \<open>The keys for which \<open>specResults\<close> adds a record, in order.\<close>

fun newFailed :: "errmap \<Rightarrow> bytes gomap \<Rightarrow> strset \<Rightarrow> DataSource list \<Rightarrow> strset \<Rightarrow> string list" where
  "newFailed errs sm succ [] repF = []"
| "newFailed errs sm succ (d # ds) repF =
     (if gm_has errs (ds_Key d) \<and> ds_Key d \<notin> set repF \<and> \<not> dataEntryTargetCovered d sm succ
      then ds_Key d # newFailed errs sm succ ds (ss_add (ds_Key d) repF)
      else newFailed errs sm succ ds repF)"

lemma specResults_newFailed:
  "snd (specResults t errs sm succ ds rep repF res) =
     res @ map (\<lambda>k. failedResult t k (the (gm_get errs k))) (newFailed errs sm succ ds repF)"
  by (induction ds arbitrary: rep repF res) (auto simp: gm_has_def Let_def split: option.splits)

lemma set_newFailed:
  "set (newFailed errs sm succ ds repF) =
     {ds_Key d | d. d \<in> set ds \<and> gm_has errs (ds_Key d) \<and> \<not> dataEntryTargetCovered d sm succ} - set repF"
  by (induction ds arbitrary: repF) auto

lemma distinct_newFailed: "distinct (newFailed errs sm succ ds repF)"
  by (induction ds arbitrary: repF) (auto simp: set_newFailed)

lemma specResults_reported:
  "set (fst (specResults now errs sm succ ds rep repF res)) =
     set rep \<union> {ds_Key d | d. d \<in> set ds \<and> gm_has errs (ds_Key d)}"
  by (induction ds arbitrary: rep repF res) (auto simp: gm_has_def Let_def split: option.splits)

lemma unhandledResults_keys:
  "map r_ExternalSecretKey (unhandledResults now h m) = filter (\<lambda>k. k \<notin> set h) (map fst m)"
  by (induction m rule: unhandledResults.induct [of _ now h]) (auto simp: failedResult_def)

lemma unhandledResults_failed: "r \<in> set (unhandledResults now h m) \<Longrightarrow> r_Status r = ''Failed''"
  by (induction m rule: unhandledResults.induct [of _ now h]) (auto simp: failedResult_def split: if_splits)

lemma emits_writeResults [emits_intros]:
  "(\<And>e b. P (UpdateESStatus e b)) \<Longrightarrow> emits P (writeResults E es rs)"
  unfolding writeResults_def api_defs by (auto intro!: emits_intros)

lemma emits_updateResourceManagementStatus [emits_intros]:
  "(\<And>e b. P (UpdateESStatus e b)) \<Longrightarrow> (\<And>t. P (Clock t)) \<Longrightarrow> emits P (updateResourceManagementStatus E es k err)"
  unfolding updateResourceManagementStatus_def timeNow_def by (auto intro!: emits_intros)

lemma emits_recordCSS [emits_intros]:
  "(\<And>e b. P (UpdateESStatus e b)) \<Longrightarrow> (\<And>t. P (Clock t)) \<Longrightarrow> emits P (recordCSSControllerDisabledStatus E es ns)"
  unfolding recordCSSControllerDisabledStatus_def timeNow_def by (auto intro!: emits_intros)

lemma emits_updateExternalSecretStatus [emits_intros]:
  "(\<And>e b. P (UpdateESStatus e b)) \<Longrightarrow> (\<And>t. P (Clock t)) \<Longrightarrow>
   emits P (updateExternalSecretStatus E r es de ee sm ds xs dp f)"
  unfolding updateExternalSecretStatus_def timeNow_def by (auto intro!: emits_intros)

end
