(* ===== verification/Es_Clients.thy ===== *)
theory Es_Clients
  imports Provider_Clients Sync_Status
begin

text \<open>
  The clients of an ExternalSecret, from \<open>externalsecret_controller.go\<close>: key derivation, the
  lifecycle of endpoint-specific clients, store lookup with its access rules, the freshness guard,
  and the two fetch loops.
\<close>

section \<open>Keys\<close>

definition refKind :: "SecretStoreRef \<Rightarrow> string" where
  "refKind ref = (if ssr_Kind ref = [] then ''SecretStore'' else ssr_Kind ref)"

definition refNamespace :: "SecretStoreRef \<Rightarrow> string \<Rightarrow> string" where
  "refNamespace ref externalSecretNamespace =
     (if ssr_Namespace ref \<noteq> [] then ssr_Namespace ref else externalSecretNamespace)"

definition resolveClientName :: "SecretStoreRef option \<Rightarrow> string \<Rightarrow> string" where
  "resolveClientName secretStoreRef externalSecretNamespace = (case secretStoreRef of
      None \<Rightarrow> EnvClient
    | Some ref \<Rightarrow>
        if refKind ref = ''ClusterSecretStore'' then ClusterStoreKey (ssr_Name ref)
        else SecretStoreKey (refNamespace ref externalSecretNamespace) (ssr_Name ref))"

definition normalizeEndpoint :: "string \<Rightarrow> string" where
  "normalizeEndpoint endpoint = TrimSpace endpoint"

fun compositeKeysOf :: "string \<Rightarrow> DataSource list \<Rightarrow> strset \<Rightarrow> strset" where
  "compositeKeysOf ns [] keys = keys"
| "compositeKeysOf ns (data # rest) keys = compositeKeysOf ns rest
     (let endpoint = normalizeEndpoint (ds_KmsEndpoint data)
      in if endpoint = [] then keys
         else ss_add (CompositeClientKey (resolveClientName (ds_SecretStoreRef data) ns) endpoint) keys)"

definition compositeClientKeysFromSpec :: "ExternalSecret \<Rightarrow> strset" where
  "compositeClientKeysFromSpec es =
     compositeKeysOf (es_Namespace es) (extracts es)
       (compositeKeysOf (es_Namespace es) (sp_Data (es_Spec es)) [])"

section \<open>Tracking composite keys\<close>

definition snapshotCompositeKeys :: "string \<Rightarrow> strset option io" where
  "snapshotCompositeKeys uid = read (\<lambda>p. gm_get (compositeKeysByES p) uid)"

definition storeCompositeKeys :: "string \<Rightarrow> strset \<Rightarrow> unit io" where
  "storeCompositeKeys uid keys = modify (\<lambda>p.
     if length keys = 0 then p\<lparr>compositeKeysByES := gm_del (compositeKeysByES p) uid\<rparr>
     else p\<lparr>compositeKeysByES := gm_put (compositeKeysByES p) uid keys\<rparr>)"

definition forgetCompositeKeys :: "string \<Rightarrow> unit io" where
  "forgetCompositeKeys uid = modify (\<lambda>p. p\<lparr>compositeKeysByES := gm_del (compositeKeysByES p) uid\<rparr>)"

definition providerNameOf :: "ExternalSecret \<Rightarrow> string" where
  "providerNameOf es = (if sp_Provider (es_Spec es) = [] then ProviderKMSName else sp_Provider (es_Spec es))"

fun referencedKeys :: "ExternalSecret \<Rightarrow> ExternalSecret list \<Rightarrow> strset \<Rightarrow> strset" where
  "referencedKeys es [] refd = refd"
| "referencedKeys es (other # rest) refd = referencedKeys es rest
     (if es_UID other = es_UID es then refd
      else if m_DeletionTimestamp (es_meta other) \<noteq> None then refd
      else addKeys (compositeClientKeysFromSpec other) refd)"

definition deleteKeys :: "provider \<Rightarrow> strset \<Rightarrow> strset \<Rightarrow> unit io" where
  "deleteKeys pv refd keys = forM keys () (\<lambda>_ key. if key \<in> set refd then ret () else DeleteClient pv key)"

definition deleteUnreferencedCompositeClients ::
    "env \<Rightarrow> ExternalSecret \<Rightarrow> strset \<Rightarrow> bool \<Rightarrow> unit res io" where
  "deleteUnreferencedCompositeClients E es keys onDeletion =
     (if length keys = 0 then ret (Inr ())
      else do {
        pv \<leftarrow> GetProviderByName (providerNameOf es);
        case pv of
          None \<Rightarrow> if onDeletion then ret (Inr ())
                  else ret (Inl (errorf (''provider '' @ providerNameOf es @ '' not found, cannot clean up endpoint clients'')))
        | Some provider \<Rightarrow> do {
            got \<leftarrow> listES E;
            case got of
              Inl err \<Rightarrow> ret (Inl (wrap_w ''failed to list ExternalSecrets for endpoint client cleanup: '' err))
            | Inr items \<Rightarrow> do {
                _ \<leftarrow> deleteKeys provider (referencedKeys es items []) keys;
                ret (Inr ())
              }
          }
      })"

definition cleanupEndpointClients :: "env \<Rightarrow> ExternalSecret \<Rightarrow> unit res io" where
  "cleanupEndpointClients E es = do {
     tracked \<leftarrow> snapshotCompositeKeys (es_UID es);
     let myKeys = addKeys (case tracked of Some t \<Rightarrow> t | None \<Rightarrow> []) (compositeClientKeysFromSpec es);
     r \<leftarrow> (if length myKeys > 0 then deleteUnreferencedCompositeClients E es myKeys True else ret (Inr ()));
     case r of
       Inl err \<Rightarrow> ret (Inl err)
     | Inr _ \<Rightarrow> do { _ \<leftarrow> forgetCompositeKeys (es_UID es); ret (Inr ()) }
   }"

definition reconcileStaleCompositeClients :: "env \<Rightarrow> ExternalSecret \<Rightarrow> unit res io" where
  "reconcileStaleCompositeClients E es = do {
     let current = compositeClientKeysFromSpec es;
     tracked \<leftarrow> snapshotCompositeKeys (es_UID es);
     case tracked of
       None \<Rightarrow> do { _ \<leftarrow> storeCompositeKeys (es_UID es) current; ret (Inr ()) }
     | Some prev \<Rightarrow> do {
         let stale = filter (\<lambda>k. k \<notin> set current) prev;
         r \<leftarrow> (if length stale > 0 then deleteUnreferencedCompositeClients E es stale False else ret (Inr ()));
         case r of
           Inl err \<Rightarrow> ret (Inl err)
         | Inr _ \<Rightarrow> do { _ \<leftarrow> storeCompositeKeys (es_UID es) current; ret (Inr ()) }
       }
   }"

section \<open>Store access\<close>

definition allowedForCSS :: "env \<Rightarrow> ClusterSecretStore \<Rightarrow> string \<Rightarrow> bool io" where
  "allowedForCSS E css namespaceName =
     (if css_Conditions (css_Spec css) = [] then ret True
      else do {
        got \<leftarrow> getNamespace E namespaceName;
        ret (IsNamespaceAllowedForClusterSecretStore (e_regex E) (e_selector E) css namespaceName got)
      })"

definition crossNamespaceError :: "SecretStoreRef \<Rightarrow> string \<Rightarrow> goerror" where
  "crossNamespaceError ref ns = errorf (''cross namespace SecretStore reference is disabled, cannot reference SecretStore in namespace ''
     @ ssr_Namespace ref @ '' from namespace '' @ ns)"

definition unsupportedKindError :: "string \<Rightarrow> goerror" where
  "unsupportedKindError kind = errorf (''unsupported SecretStoreRef Kind: '' @ kind @ '', must be SecretStore or ClusterSecretStore'')"

definition notAllowedError :: "string \<Rightarrow> SecretStoreRef \<Rightarrow> goerror" where
  "notAllowedError ns ref = errorf (''namespace '' @ ns @ '' is not allowed to access ClusterSecretStore '' @ ssr_Name ref)"

definition crossNamespaceDenied :: "ExternalSecretReconciler \<Rightarrow> SecretStoreRef \<Rightarrow> string \<Rightarrow> bool" where
  "crossNamespaceDenied r ref ns \<longleftrightarrow> \<not> rc_EnableCrossNamespace r \<and> ssr_Namespace ref \<noteq> [] \<and> ssr_Namespace ref \<noteq> ns"

definition validateSecretStoreAccess ::
    "env \<Rightarrow> ExternalSecretReconciler \<Rightarrow> SecretStoreRef \<Rightarrow> string \<Rightarrow> goerror option io" where
  "validateSecretStoreAccess E r ref ns =
     (if refKind ref = ''ClusterSecretStore'' then do {
        got \<leftarrow> getClusterSecretStore_api E (ssr_Name ref);
        case got of
          Inl err \<Rightarrow> ret (Some (wrap_v (''failed to get ClusterSecretStore '' @ ssr_Name ref @ '': '') err))
        | Inr css \<Rightarrow> do {
            allowed \<leftarrow> allowedForCSS E css ns;
            ret (if allowed then None else Some (notAllowedError ns ref))
          }
      }
      else if refKind ref = ''SecretStore'' then
        (if crossNamespaceDenied r ref ns then ret (Some (crossNamespaceError ref ns))
         else do {
           got \<leftarrow> getSecretStore_api E (refNamespace ref ns) (ssr_Name ref);
           ret (case got of
               Inl err \<Rightarrow> Some (wrap_v (''failed to get SecretStore '' @ ssr_Name ref @ '' in namespace '' @ refNamespace ref ns @ '': '') err)
             | Inr _ \<Rightarrow> None)
         })
      else ret (Some (unsupportedKindError (refKind ref))))"

text \<open>The SecretStore view of a ClusterSecretStore.\<close>

definition convertCSS :: "ClusterSecretStore \<Rightarrow> SecretStore" where
  "convertCSS css = \<lparr>ss_meta = (css_meta css)\<lparr>m_Namespace := []\<rparr>,
     ss_Spec = \<lparr>ss_KMS = css_KMS (css_Spec css), ss_OOS = css_OOS (css_Spec css)\<rparr>, ss_Status = css_Status css\<rparr>"

definition getSecretStore ::
    "env \<Rightarrow> ExternalSecretReconciler \<Rightarrow> SecretStoreRef \<Rightarrow> string \<Rightarrow> SecretStore res io" where
  "getSecretStore E r ref ns =
     (if crossNamespaceDenied r ref ns \<and> ssr_Kind ref \<noteq> ''ClusterSecretStore'' then ret (Inl (crossNamespaceError ref ns))
      else if refKind ref = ''SecretStore'' then do {
        got \<leftarrow> getSecretStore_api E (refNamespace ref ns) (ssr_Name ref);
        ret (case got of
            Inl err \<Rightarrow> Inl (wrap_v (''failed to get SecretStore '' @ ssr_Name ref @ '' in namespace '' @ refNamespace ref ns @ '': '') err)
          | Inr s \<Rightarrow> Inr s)
      }
      else if refKind ref = ''ClusterSecretStore'' then do {
        got \<leftarrow> getClusterSecretStore_api E (ssr_Name ref);
        case got of
          Inl err \<Rightarrow> ret (Inl (wrap_v (''failed to get ClusterSecretStore '' @ ssr_Name ref @ '': '') err))
        | Inr css \<Rightarrow> do {
            allowed \<leftarrow> allowedForCSS E css ns;
            ret (if allowed then Inr (convertCSS css) else Inl (notAllowedError ns ref))
          }
      }
      else ret (Inl (unsupportedKindError (refKind ref))))"

section \<open>Freshness\<close>

definition warnCSSControllerDisabledOnce :: "string \<Rightarrow> unit io" where
  "warnCSSControllerDisabledOnce clientKey = modify (\<lambda>p. p\<lparr>cssDisabledWarned := ss_add clientKey (cssDisabledWarned p)\<rparr>)"

definition staleError :: "string \<Rightarrow> goerror" where
  "staleError m = \<lparr>err_msg = m @ '': store client is stale, Store controller is rebuilding it'', err_chain = [StoreClientStale]\<rparr>"

text \<open>The decision on a store: its generation, annotations and conditions.\<close>

definition freshness ::
    "string \<Rightarrow> string \<Rightarrow> int \<Rightarrow> string gomap \<Rightarrow> SecretStoreStatusCondition list \<Rightarrow> goerror option" where
  "freshness clientKey storeDesc generation annotations conditions =
     (case ReadyConditionObservedGeneration conditions of (observed, found) \<Rightarrow>
        if \<not> found then None
        else if observed \<noteq> generation
        then Some (staleError (''client '' @ clientKey @ '' not used: '' @ storeDesc @ '' status observedGeneration '' @
               string_of_int observed @ '' is behind generation '' @ string_of_int generation @
               ''; waiting for the Store controller to finish rebuilding''))
        else if gm_str annotations TriggerReconcileAnnotation \<noteq> []
        then Some (staleError (''client '' @ clientKey @ '' not used: '' @ storeDesc @
               '' still carries the trigger-reconcile annotation; waiting for the Store controller to finish rebuilding''))
        else None)"

definition ensureStoreClientFresh ::
    "env \<Rightarrow> ExternalSecretReconciler \<Rightarrow> SecretStoreRef \<Rightarrow> string \<Rightarrow> string \<Rightarrow> goerror option io" where
  "ensureStoreClientFresh E r ref ns clientKey =
     (if refKind ref = ''ClusterSecretStore'' then do {
        got \<leftarrow> getClusterSecretStore_api E (ssr_Name ref);
        case got of
          Inl err \<Rightarrow> ret (Some (wrap_v (''failed to get ClusterSecretStore '' @ ssr_Name ref @ '' for client freshness check: '') err))
        | Inr css \<Rightarrow>
            if \<not> rc_ProcessClusterSecretStore r
            then do { _ \<leftarrow> warnCSSControllerDisabledOnce clientKey; ret None }
            else ret (freshness clientKey (''ClusterSecretStore '' @ ssr_Name ref) (m_Generation (css_meta css))
                        (m_Annotations (css_meta css)) (st_Conditions (css_Status css)))
      }
      else if refKind ref = ''SecretStore'' then do {
        got \<leftarrow> getSecretStore_api E (refNamespace ref ns) (ssr_Name ref);
        case got of
          Inl err \<Rightarrow> ret (Some (wrap_v (''failed to get SecretStore '' @ ssr_Name ref @ '' in namespace '' @ refNamespace ref ns @
                         '' for client freshness check: '') err))
        | Inr s \<Rightarrow> ret (freshness clientKey (''SecretStore '' @ refNamespace ref ns @ ''/'' @ ssr_Name ref) (m_Generation (ss_meta s))
                        (m_Annotations (ss_meta s)) (st_Conditions (ss_Status s)))
      }
      else ret (Some (unsupportedKindError (refKind ref))))"

section \<open>Clients\<close>

text \<open>
  \<open>kubernetes.NewForConfig\<close> assigns a typed pointer to an interface, so the client is "set"
  whenever a rest.Config is present, also after a failure.
\<close>

definition newKubeClient :: "env \<Rightarrow> ExternalSecretReconciler \<Rightarrow> bool io" where
  "newKubeClient E r =
     (if rc_RestConfig r then do { _ \<leftarrow> call (\<lambda>_. NewKubeClient) (\<lambda>t. e_NewKubeClient E t); ret True } else ret False)"

definition cachedClient ::
    "env \<Rightarrow> ExternalSecretReconciler \<Rightarrow> SecretClient \<Rightarrow> SecretStoreRef option \<Rightarrow> string \<Rightarrow> string \<Rightarrow> SecretClient res io" where
  "cachedClient E r client secretStoreRef ns clientKey = (case secretStoreRef of
      None \<Rightarrow> ret (Inr client)
    | Some ref \<Rightarrow> do {
        validateErr \<leftarrow> validateSecretStoreAccess E r ref ns;
        case validateErr of
          Some e \<Rightarrow> ret (Inl e)
        | None \<Rightarrow> do {
            freshErr \<leftarrow> ensureStoreClientFresh E r ref ns clientKey;
            ret (case freshErr of Some e \<Rightarrow> Inl e | None \<Rightarrow> Inr client)
          }
      })"

definition envClient :: "env \<Rightarrow> provider \<Rightarrow> string \<Rightarrow> string \<Rightarrow> SecretClient res io" where
  "envClient E pv clientKey kmsEndpoint =
     (if kmsEndpoint = [] then do {
        initErr \<leftarrow> EnsureENVClient E;
        got \<leftarrow> GetClient pv clientKey;
        ret (case got of
            Inr client \<Rightarrow> Inr client
          | Inl _ \<Rightarrow>
              (let msg = ''generic ENV client not available (key='' @ clientKey @ ''), lazy ENV client initialization may have failed''
               in case initErr of
                    Some e \<Rightarrow> Inl (wrap_w (msg @ '': '') e)
                  | None \<Rightarrow> Inl (errorf msg)))
      }
      else do {
        got \<leftarrow> NewClientByENV E pv kmsEndpoint;
        case got of
          Inl err \<Rightarrow> ret (Inl (wrap_v (''init ENV client '' @ clientKey @ '' with endpoint '' @ kmsEndpoint @ '' failed: '') err))
        | Inr client \<Rightarrow> do { _ \<leftarrow> Register pv clientKey client; ret (Inr client) }
      })"

definition storeClient ::
    "env \<Rightarrow> ExternalSecretReconciler \<Rightarrow> provider \<Rightarrow> SecretStoreRef \<Rightarrow> string \<Rightarrow> string \<Rightarrow> string \<Rightarrow> SecretClient res io" where
  "storeClient E r pv ref ns clientKey kmsEndpoint = do {
     got \<leftarrow> getSecretStore E r ref ns;
     case got of
       Inl err \<Rightarrow> ret (Inl (wrap_v (''get client '' @ clientKey @ '' failed: '') err))
     | Inr st \<Rightarrow> do {
         kubeClient \<leftarrow> newKubeClient E r;
         made \<leftarrow> NewClient E pv st kubeClient kmsEndpoint;
         case made of
           Inl err \<Rightarrow> ret (Inl (wrap_v (''init client '' @ clientKey @ '' failed: '') err))
         | Inr client \<Rightarrow> do { _ \<leftarrow> Register pv clientKey client; ret (Inr client) }
       }
   }"

definition getOrCreateClient ::
    "env \<Rightarrow> ExternalSecretReconciler \<Rightarrow> provider \<Rightarrow> string \<Rightarrow> SecretStoreRef option \<Rightarrow> string \<Rightarrow> string
       \<Rightarrow> (SecretClient res \<times> string) io" where
  "getOrCreateClient E r pv clientName secretStoreRef ns kmsEndpoint0 = do {
     let kmsEndpoint = normalizeEndpoint kmsEndpoint0;
     let clientKey = CompositeClientKey clientName kmsEndpoint;
     got \<leftarrow> GetClient pv clientKey;
     res \<leftarrow> (case got of
         Inr client \<Rightarrow> cachedClient E r client secretStoreRef ns clientKey
       | Inl _ \<Rightarrow> (case secretStoreRef of
            None \<Rightarrow> envClient E pv clientKey kmsEndpoint
          | Some ref \<Rightarrow> storeClient E r pv ref ns clientKey kmsEndpoint));
     ret (res, clientKey)
   }"

section \<open>The fetch loops\<close>

type_synonym fetched = "bytes gomap \<times> errmap \<times> strset"

definition dataFinalKey :: "DataSource \<Rightarrow> string \<Rightarrow> string" where
  "dataFinalKey data secretKey = (if length (ds_JMESPath data) = 0 then ResolveTargetKey data else secretKey)"

fun putAll :: "(string \<Rightarrow> string) \<Rightarrow> (bytes \<Rightarrow> bytes) \<Rightarrow> bytes gomap \<Rightarrow> bytes gomap \<Rightarrow> bytes gomap" where
  "putAll fk fv [] out = out"
| "putAll fk fv ((k, v) # rest) out = putAll fk fv rest (gm_put out (fk k) (fv v))"

definition fetchData ::
    "env \<Rightarrow> ExternalSecretReconciler \<Rightarrow> provider \<Rightarrow> string \<Rightarrow> fetched \<Rightarrow> DataSource \<Rightarrow> fetched io" where
  "fetchData E r pv ns acc data = (case acc of (out, errorsMap, succeededKeys) \<Rightarrow> do {
     got \<leftarrow> getOrCreateClient E r pv (resolveClientName (ds_SecretStoreRef data) ns) (ds_SecretStoreRef data) ns
              (ds_KmsEndpoint data);
     case fst got of
       Inl err \<Rightarrow> ret (out, gm_put errorsMap (ds_Key data) (Some err), succeededKeys)
     | Inr client \<Rightarrow> do {
         single \<leftarrow> GetExternalSecret E client data;
         ret (case single of
             Inl err \<Rightarrow> (out, gm_put errorsMap (ds_Key data)
                (Some (wrap_v (''client '' @ snd got @ '' get data failed: '') err)), succeededKeys)
           | Inr singleMap \<Rightarrow>
               (putAll (dataFinalKey data) id singleMap out, errorsMap, ss_add (ds_Key data) succeededKeys))
       }
   })"

definition getExternalSecret ::
    "env \<Rightarrow> ExternalSecretReconciler \<Rightarrow> provider \<Rightarrow> DataSource list \<Rightarrow> string \<Rightarrow> fetched io" where
  "getExternalSecret E r pv dataSources ns = forM dataSources (gm_empty, gm_empty, []) (fetchData E r pv ns)"

fun replaceValue :: "ReplaceRule list \<Rightarrow> string \<Rightarrow> string" where
  "replaceValue [] v = v"
| "replaceValue (rule # rules) v = replaceValue rules (ReplaceAll v (rr_Source rule) (rr_Target rule))"

fun extractFinalKey :: "JMESPathObject list \<Rightarrow> string \<Rightarrow> string" where
  "extractFinalKey [] secretKey = secretKey"
| "extractFinalKey (jp # jps) secretKey =
     (if secretKey = jp_Path jp then (if jp_ObjectAlias jp \<noteq> [] then jp_ObjectAlias jp else secretKey)
      else extractFinalKey jps secretKey)"

definition fetchExtract ::
    "env \<Rightarrow> ExternalSecretReconciler \<Rightarrow> provider \<Rightarrow> string \<Rightarrow> fetched \<Rightarrow> DataProcess \<Rightarrow> fetched io" where
  "fetchExtract E r pv ns acc data = (case acc of (out, errorsMap, succeededKeys) \<Rightarrow> (case dp_Extract data of
      None \<Rightarrow> ret acc
    | Some extract \<Rightarrow> do {
        got \<leftarrow> getOrCreateClient E r pv (resolveClientName (ds_SecretStoreRef extract) ns) (ds_SecretStoreRef extract) ns
                 (ds_KmsEndpoint extract);
        case fst got of
          Inl err \<Rightarrow> ret (out, gm_put errorsMap (ds_Key extract) (Some err), succeededKeys)
        | Inr client \<Rightarrow> do {
            single \<leftarrow> GetExternalSecretWithExtract E client data;
            ret (case single of
                Inl err \<Rightarrow> (out, gm_put errorsMap (ds_Key extract)
                   (Some (wrap_v (''client '' @ snd got @ '' get data failed: '') err)), succeededKeys)
              | Inr singleMap \<Rightarrow>
                  (putAll (extractFinalKey (ds_JMESPath extract)) (replaceValue (dp_ReplaceKey data)) singleMap out,
                   errorsMap, ss_add (ds_Key extract) succeededKeys))
          }
      }))"

definition getExternalSecretWithExtract ::
    "env \<Rightarrow> ExternalSecretReconciler \<Rightarrow> provider \<Rightarrow> DataProcess list \<Rightarrow> string \<Rightarrow> fetched io" where
  "getExternalSecretWithExtract E r pv dataSources ns = forM dataSources (gm_empty, gm_empty, []) (fetchExtract E r pv ns)"

section \<open>Facts: events\<close>

fun fetch_event :: "event \<Rightarrow> bool" where
  "fetch_event (GetNamespace _) = True"
| "fetch_event (GetSecretStore _ _) = True"
| "fetch_event (GetClusterSecretStore _) = True"
| "fetch_event NewKubeClient = True"
| "fetch_event (SdkCall _ _ _) = True"
| "fetch_event e = client_event e"

lemma client_fetch_event: "client_event e \<Longrightarrow> fetch_event e"
  by (cases e) simp_all

lemma emits_access [emits_intros]:
  assumes "\<And>e. fetch_event e \<Longrightarrow> P e"
  shows "emits P (validateSecretStoreAccess E r ref ns)" "emits P (getSecretStore E r ref ns)"
    "emits P (ensureStoreClientFresh E r ref ns k)" "emits P (newKubeClient E r)"
  unfolding validateSecretStoreAccess_def getSecretStore_def ensureStoreClientFresh_def newKubeClient_def
    allowedForCSS_def warnCSSControllerDisabledOnce_def api_defs
  by (intro emits_intros; simp add: assms)+

lemma emits_getOrCreateClient [emits_intros]:
  assumes "\<And>e. fetch_event e \<Longrightarrow> P e"
  shows "emits P (getOrCreateClient E r pv cn ref ns ep)"
  unfolding getOrCreateClient_def cachedClient_def envClient_def storeClient_def Let_def
  by (intro emits_intros; simp add: assms client_fetch_event)

lemma emits_fetch [emits_intros]:
  assumes "\<And>e. fetch_event e \<Longrightarrow> P e"
  shows "emits P (getExternalSecret E r pv ds ns)" "emits P (getExternalSecretWithExtract E r pv dps ns)"
  unfolding getExternalSecret_def getExternalSecretWithExtract_def fetchData_def fetchExtract_def
  by (intro emits_intros; simp add: assms)+

lemma emits_deleteUnreferenced [emits_intros]:
  "P ListES \<Longrightarrow> (\<And>s. P (StopRefresher s)) \<Longrightarrow> emits P (deleteUnreferencedCompositeClients E es keys d)"
  unfolding deleteUnreferencedCompositeClients_def deleteKeys_def api_defs by (intro emits_intros; simp)

lemma emits_tracking [emits_intros]:
  "emits P (snapshotCompositeKeys u)" "emits P (storeCompositeKeys u k)" "emits P (forgetCompositeKeys u)"
  unfolding snapshotCompositeKeys_def storeCompositeKeys_def forgetCompositeKeys_def
  by (intro emits_intros; simp)+

lemma emits_cleanup [emits_intros]:
  "P ListES \<Longrightarrow> (\<And>s. P (StopRefresher s)) \<Longrightarrow> emits P (cleanupEndpointClients E es)"
  "P ListES \<Longrightarrow> (\<And>s. P (StopRefresher s)) \<Longrightarrow> emits P (reconcileStaleCompositeClients E es)"
  unfolding cleanupEndpointClients_def reconcileStaleCompositeClients_def Let_def by (intro emits_intros; simp)+

section \<open>Facts: keys\<close>

definition compositeKeys :: "string \<Rightarrow> DataSource list \<Rightarrow> string set" where
  "compositeKeys ns ds = {CompositeClientKey (resolveClientName (ds_SecretStoreRef d) ns) (normalizeEndpoint (ds_KmsEndpoint d)) | d.
     d \<in> set ds \<and> normalizeEndpoint (ds_KmsEndpoint d) \<noteq> []}"

lemma set_compositeKeysOf: "set (compositeKeysOf ns ds keys) = set keys \<union> compositeKeys ns ds"
  by (induction ns ds keys rule: compositeKeysOf.induct) (auto simp: compositeKeys_def Let_def)

lemma distinct_compositeKeysOf: "distinct keys \<Longrightarrow> distinct (compositeKeysOf ns ds keys)"
  by (induction ns ds keys rule: compositeKeysOf.induct) (auto simp: Let_def)

lemma set_compositeClientKeysFromSpec:
  "set (compositeClientKeysFromSpec es) = compositeKeys (es_Namespace es) (sp_Data (es_Spec es) @ extracts es)"
  by (auto simp: compositeClientKeysFromSpec_def set_compositeKeysOf compositeKeys_def)

lemma compositeKey_has_hash: "k \<in> compositeKeys ns ds \<Longrightarrow> CHR ''#'' \<in> set k"
  by (auto simp: compositeKeys_def CompositeClientKey_def)

lemma set_referencedKeys:
  "set (referencedKeys es items refd) = set refd \<union>
     \<Union> {set (compositeClientKeysFromSpec o1) | o1. o1 \<in> set items \<and> es_UID o1 \<noteq> es_UID es \<and> m_DeletionTimestamp (es_meta o1) = None}"
  by (induction es items refd rule: referencedKeys.induct) auto

section \<open>Facts: pools\<close>

text \<open>The pool of a provider value in a process state, and the invariant of the table.\<close>

definition poolOf :: "provider \<Rightarrow> proc \<Rightarrow> Manager" where
  "poolOf pv p = (case gm_get (providerMap p) (pv_name pv) of Some q \<Rightarrow> pv_Manager q | None \<Rightarrow> NewManager [])"

lemma poolOf_tr [simp]: "poolOf pv (p\<lparr>tr := t\<rparr>) = poolOf pv p"
  by (simp add: poolOf_def)

definition table_ok :: "proc \<Rightarrow> bool" where
  "table_ok p \<longleftrightarrow> (\<forall>n q. gm_get (providerMap p) n = Some q \<longrightarrow> pool_ok (pv_Manager q) \<and> pv_name q = n)"

definition inTable :: "provider \<Rightarrow> proc \<Rightarrow> bool" where
  "inTable pv p \<longleftrightarrow> gm_has (providerMap p) (pv_name pv)"

definition clientAt :: "provider \<Rightarrow> proc \<Rightarrow> string \<Rightarrow> SecretClient res" where
  "clientAt pv p k = (case pv_kind pv of KMS \<Rightarrow> kms_GetClient (poolOf pv p) k | OOS \<Rightarrow> oos_GetClient (poolOf pv p) k)"

lemma GetClient_run: "result (GetClient pv k) p = clientAt pv p k" "final (GetClient pv k) p = p"
  by (simp_all add: GetClient_def getManager_def clientAt_def poolOf_def run_simps split: pkind.splits)

lemma pool_ok_poolOf: "table_ok p \<Longrightarrow> pool_ok (poolOf pv p)"
  by (auto simp: table_ok_def poolOf_def pool_ok_NewManager split: option.splits)

lemma stopAll_final: "providerMap (final (stopAll ss) p) = providerMap p"
    "compositeKeysByES (final (stopAll ss) p) = compositeKeysByES p"
  unfolding stopAll_def by (induction ss arbitrary: p) (simp_all add: run_simps)

lemma onManager_final:
  assumes "inTable pv p"
  shows "poolOf pv (final (onManager (pv_name pv) f) p) = fst (f (poolOf pv p))"
    and "inTable pv (final (onManager (pv_name pv) f) p)"
    and "compositeKeysByES (final (onManager (pv_name pv) f) p) = compositeKeysByES p"
proof -
  obtain q where q: "gm_get (providerMap p) (pv_name pv) = Some q"
    using assms by (auto simp: inTable_def gm_has_def)
  let ?p = "final (onManager (pv_name pv) f) p"
  have m: "providerMap ?p = gm_put (providerMap p) (pv_name pv) (q\<lparr>pv_Manager := fst (f (pv_Manager q))\<rparr>)"
    using q by (simp add: onManager_def getManager_def putManager_def run_simps stopAll_final)
  show "poolOf pv ?p = fst (f (poolOf pv p))" using q by (simp add: poolOf_def m)
  show "inTable pv ?p" by (simp add: inTable_def m)
  show "compositeKeysByES ?p = compositeKeysByES p"
    using q by (simp add: onManager_def getManager_def putManager_def run_simps stopAll_final)
qed

lemma onManager_table:
  assumes "table_ok p" and "\<And>m. pool_ok m \<Longrightarrow> pool_ok (fst (f m))"
  shows "table_ok (final (onManager n f) p)"
proof -
  have "table_ok (final (putManager n m) p)" if "pool_ok m" for m
    using assms(1) that by (auto simp: putManager_def run_simps table_ok_def split: option.splits)
  moreover have "pool_ok (result (getManager n) p)"
    using assms(1) by (auto simp: getManager_def run_simps table_ok_def pool_ok_NewManager split: option.splits)
  ultimately have "table_ok (final (putManager n (fst (f (result (getManager n) p)))) p)"
    using assms(2) by blast
  moreover have "final (getManager n) p = p" by (simp add: getManager_def run_simps)
  ultimately show ?thesis by (simp add: onManager_def run_simps table_ok_def stopAll_final)
qed

lemma DeleteClient_final:
  assumes "table_ok p" "inTable pv p"
  shows "clientAt pv (final (DeleteClient pv k) p) k' = (if k' = k then Inl (not_registered k') else clientAt pv p k')"
    and "inTable pv (final (DeleteClient pv k) p)" and "table_ok (final (DeleteClient pv k) p)"
    and "compositeKeysByES (final (DeleteClient pv k) p) = compositeKeysByES p"
proof -
  note ok = pool_ok_poolOf [OF assms(1), of pv]
  show "clientAt pv (final (DeleteClient pv k) p) k' = (if k' = k then Inl (not_registered k') else clientAt pv p k')"
    using kms.get_delete [OF ok, of k k'] oos.get_delete [OF ok, of k k']
    by (cases "pv_kind pv") (simp_all add: clientAt_def DeleteClient_def onManager_final(1) [OF assms(2)])
  show "inTable pv (final (DeleteClient pv k) p)"
    and "compositeKeysByES (final (DeleteClient pv k) p) = compositeKeysByES p"
    unfolding DeleteClient_def by (rule onManager_final(2,3) [OF assms(2)])+
  show "table_ok (final (DeleteClient pv k) p)"
    unfolding DeleteClient_def by (rule onManager_table [OF assms(1)]) (auto split: pkind.split)
qed

lemma deleteKeys_final:
  assumes "table_ok p" "inTable pv p"
  shows "clientAt pv (final (deleteKeys pv refd keys) p) k =
      (if k \<in> set keys \<and> k \<notin> set refd then Inl (not_registered k) else clientAt pv p k) \<and>
    compositeKeysByES (final (deleteKeys pv refd keys) p) = compositeKeysByES p"
  using assms
proof (induction keys arbitrary: p)
  case Nil
  then show ?case by (simp add: deleteKeys_def run_simps)
next
  case (Cons a keys)
  let ?q = "final (if a \<in> set refd then ret () else DeleteClient pv a) p"
  have q: "table_ok ?q" "inTable pv ?q" "compositeKeysByES ?q = compositeKeysByES p"
    "clientAt pv ?q k = (if k = a \<and> a \<notin> set refd then Inl (not_registered k) else clientAt pv p k)"
    using DeleteClient_final [OF Cons.prems, of a] Cons.prems by (auto simp: run_simps)
  have "final (deleteKeys pv refd (a # keys)) p = final (deleteKeys pv refd keys) ?q"
    by (simp add: deleteKeys_def run_simps)
  then show ?case using Cons.IH [OF q(1,2)] q(3,4) by auto
qed

section \<open>Facts: access\<close>

text \<open>What the access rules promise: the API server answered with a store that this namespace may
  use at some moment of the call.\<close>

definition mayRead :: "env \<Rightarrow> ExternalSecretReconciler \<Rightarrow> SecretStoreRef \<Rightarrow> string \<Rightarrow> bool" where
  "mayRead E r ref ns \<longleftrightarrow>
     (if refKind ref = ''ClusterSecretStore''
      then (\<exists>t t' css. e_GetClusterSecretStore E t (ssr_Name ref) = Inr css \<and>
              IsNamespaceAllowedForClusterSecretStore (e_regex E) (e_selector E) css ns (e_GetNamespace E t' ns))
      else refKind ref = ''SecretStore'' \<and> \<not> crossNamespaceDenied r ref ns)"

definition storeFresh :: "int \<Rightarrow> string gomap \<Rightarrow> SecretStoreStatusCondition list \<Rightarrow> bool" where
  "storeFresh generation annotations conditions \<longleftrightarrow>
     \<not> snd (ReadyConditionObservedGeneration conditions) \<or>
     (fst (ReadyConditionObservedGeneration conditions) = generation \<and> gm_str annotations TriggerReconcileAnnotation = [])"

definition servedFresh :: "env \<Rightarrow> ExternalSecretReconciler \<Rightarrow> SecretStoreRef \<Rightarrow> string \<Rightarrow> bool" where
  "servedFresh E r ref ns \<longleftrightarrow>
     (if refKind ref = ''ClusterSecretStore''
      then (\<exists>t css. e_GetClusterSecretStore E t (ssr_Name ref) = Inr css \<and>
              (\<not> rc_ProcessClusterSecretStore r \<or>
               storeFresh (m_Generation (css_meta css)) (m_Annotations (css_meta css)) (st_Conditions (css_Status css))))
      else (\<exists>t s. e_GetSecretStore E t (refNamespace ref ns) (ssr_Name ref) = Inr s \<and>
              storeFresh (m_Generation (ss_meta s)) (m_Annotations (ss_meta s)) (st_Conditions (ss_Status s))))"

lemma freshness_None_iff: "freshness k d g a c = None \<longleftrightarrow> storeFresh g a c"
  by (auto simp: freshness_def storeFresh_def split: prod.splits)

lemma freshness_stale: "freshness k d g a c = Some e \<Longrightarrow> errors_Is e StoreClientStale"
  by (auto simp: freshness_def staleError_def errors_Is_def split: prod.splits if_splits)

lemma post_allowedForCSS:
  "post (allowedForCSS E css ns) (\<lambda>b n. b = False \<or>
     (\<exists>t'. IsNamespaceAllowedForClusterSecretStore (e_regex E) (e_selector E) css ns (e_GetNamespace E t' ns)))"
  unfolding allowedForCSS_def api_defs
  by (intro post_intros) (auto simp: IsNamespaceAllowedForClusterSecretStore_def)

lemma post_validateSecretStoreAccess:
  "post (validateSecretStoreAccess E r ref ns) (\<lambda>v n. v \<noteq> None \<or> mayRead E r ref ns)"
  unfolding validateSecretStoreAccess_def api_defs
  by (intro post_intros post_bind [OF post_allowedForCSS]) (auto simp: mayRead_def split: sum.splits)

lemma post_getSecretStore:
  "post (getSecretStore E r ref ns) (\<lambda>v n. isl v \<or> mayRead E r ref ns)"
  unfolding getSecretStore_def api_defs
  by (intro post_intros post_bind [OF post_allowedForCSS])
    (auto simp: mayRead_def refKind_def split: sum.splits if_splits)

lemma post_ensureStoreClientFresh:
  "post (ensureStoreClientFresh E r ref ns k) (\<lambda>v n. v \<noteq> None \<or> servedFresh E r ref ns)"
  unfolding ensureStoreClientFresh_def warnCSSControllerDisabledOnce_def api_defs
  by (intro post_intros) (auto simp: servedFresh_def freshness_None_iff)

lemma post_cachedClient:
  "post (cachedClient E r c (Some ref) ns k) (\<lambda>v n. isl v \<or> (v = Inr c \<and> mayRead E r ref ns \<and> servedFresh E r ref ns))"
  unfolding cachedClient_def option.case
  by (rule post_bind [OF post_validateSecretStoreAccess], intro post_intros post_bind [OF post_ensureStoreClientFresh])
    (auto split: option.splits)

lemma post_storeClient:
  "post (storeClient E r pv ref ns k ep) (\<lambda>v n. isl v \<or> mayRead E r ref ns)"
  unfolding storeClient_def
proof (rule post_bind [OF post_getSecretStore], rule post_sum, goal_cases)
  case (1 a n e)
  show ?case by (intro post_intros) simp
next
  case (2 a n st)
  then have "mayRead E r ref ns" by simp
  then show ?case
    by (intro post_emits_only [where P = "\<lambda>_. True"] emits_intros) auto
qed

section \<open>Facts: the fetch loops\<close>

lemma post_forM_prefix:
  assumes "\<And>ys b n x. I ys b n \<Longrightarrow> post (f b x) (\<lambda>b' n'. I (ys @ [x]) b' (n' @ n))" and "I [] b n0"
  shows "post (forM xs b f) (\<lambda>b' n'. I xs b' (n' @ n0))"
proof -
  have "post (forM xs b f) (\<lambda>b' n'. I (ys @ xs) b' (n' @ n))" if "I ys b n" for ys b n
    using that
  proof (induction xs arbitrary: ys b n)
    case Nil
    then show ?case by (simp add: post_ret)
  next
    case (Cons x xs)
    show ?case unfolding forM.simps
    proof (rule post_bind)
      show "post (f b x) (\<lambda>b' n'. I (ys @ [x]) b' (n' @ n))" using assms(1) Cons.prems by blast
    next
      fix b' n' assume "I (ys @ [x]) b' (n' @ n)"
      from Cons.IH [OF this] show "post (forM xs b' f) (\<lambda>b'' n''. I (ys @ x # xs) b'' ((n'' @ n') @ n))" by simp
    qed
  qed
  from this [OF assms(2)] show ?thesis by simp
qed

lemma putAll_keys: "gm_has (putAll fk fv m out) k \<Longrightarrow> gm_has out k \<or> k \<in> fk ` {x. gm_has m x}"
proof (induction m arbitrary: out)
  case (Cons kv m)
  obtain a v where kv: "kv = (a, v)" by fastforce
  have "gm_has (kv # m) a" by (simp add: kv gm_has_def gm_get_def)
  moreover have "gm_has m x \<Longrightarrow> gm_has (kv # m) x" for x by (simp add: kv gm_has_def gm_get_def)
  ultimately show ?case using Cons.IH [of "gm_put out (fk a) (fv v)"] Cons.prems kv by auto
qed simp

lemma gm_ok_putAll: "gm_ok out \<Longrightarrow> gm_ok (putAll fk fv m out)"
  by (induction fk fv m out rule: putAll.induct) auto

lemma post_GetExternalSecret:
  "post (GetExternalSecret E c data) (\<lambda>r n. case r of Inl _ \<Rightarrow> True | Inr m \<Rightarrow>
     dataFinalKey data ` {k. gm_has m k} \<subseteq> entryTargetKeys data)"
  unfolding GetExternalSecret_def
proof (rule post_bind_emits [where P = "\<lambda>_. True"], goal_cases)
  case 1
  show ?case
    unfolding getExternalData_def kms_getExternalData_def oos_getExternalData_def sdkFetch_def
    by (auto intro!: emits_intros split: SecretClient.splits option.splits)
next
  case (2 a n)
  have sub: "dataFinalKey data ` {k. gm_has m k} \<subseteq> entryTargetKeys data"
    if "ProcessExternalSecretData E data d = Inr m" for d m
  proof (cases "ds_JMESPath data = []")
    case True
    then show ?thesis by (auto simp: dataFinalKey_def entryTargetKeys_def)
  next
    case False
    then show ?thesis using ProcessExternalSecretData_keys [OF that]
      by (auto simp: dataFinalKey_def entryTargetKeys_def jmesPathTargetKeys_jmesTarget)
  qed
  show ?case by (rule post_ret) (auto split: sum.splits dest: sub)
qed

text \<open>What the first loop has established after the entries \<open>ys\<close>.\<close>

definition dataRound :: "DataSource list \<Rightarrow> fetched \<Rightarrow> bool" where
  "dataRound ys acc = (case acc of (out, errorsMap, succeededKeys) \<Rightarrow>
     gm_ok out \<and> gm_ok errorsMap \<and> nonnil errorsMap \<and>
     set succeededKeys \<union> {k. gm_has errorsMap k} = ds_Key ` set ys \<and>
     {k. gm_has out k} \<subseteq> \<Union> (entryTargetKeys ` {d \<in> set ys. ds_Key d \<in> set succeededKeys}))"

lemma nonnil_put: "nonnil m \<Longrightarrow> nonnil (gm_put m k (Some e))"
  unfolding nonnil_def gm_put_def by (induction m) auto

lemma post_fetchData:
  assumes "dataRound ys acc"
  shows "post (fetchData E r pv ns acc x) (\<lambda>acc' n. dataRound (ys @ [x]) acc')"
proof -
  obtain out errs succ where acc: "acc = (out, errs, succ)" by (cases acc) auto
  have fail: "dataRound (ys @ [x]) (out, gm_put errs (ds_Key x) (Some e), succ)" for e
    using assms unfolding acc dataRound_def prod.case
    by (auto simp: nonnil_put)
  have success: "dataRound (ys @ [x]) (putAll (dataFinalKey x) id m out, errs, ss_add (ds_Key x) succ)"
    if "dataFinalKey x ` {k. gm_has m k} \<subseteq> entryTargetKeys x" for m
  proof -
    have "{k. gm_has (putAll (dataFinalKey x) id m out) k} \<subseteq> {k. gm_has out k} \<union> entryTargetKeys x"
      using putAll_keys [of "dataFinalKey x" id m out] that by blast
    moreover have "{k. gm_has out k} \<subseteq> \<Union> (entryTargetKeys ` {d \<in> set ys. ds_Key d \<in> set succ})"
      using assms by (simp add: acc dataRound_def)
    ultimately have "{k. gm_has (putAll (dataFinalKey x) id m out) k} \<subseteq>
        \<Union> (entryTargetKeys ` {d \<in> set (ys @ [x]). ds_Key d \<in> set (ss_add (ds_Key x) succ)})" by fastforce
    then show ?thesis using assms unfolding acc dataRound_def prod.case
      by (auto simp: gm_ok_putAll)
  qed
  show ?thesis
    unfolding fetchData_def acc prod.case
    by (intro post_bind_emits [where P = "\<lambda>_. True"] emits_intros post_intros post_bind [OF post_GetExternalSecret])
      (use fail success in \<open>auto split: sum.splits\<close>)
qed

text \<open>The same for the extract loop; its output keys are those of the extracted document.\<close>

definition extractRound :: "DataProcess list \<Rightarrow> fetched \<Rightarrow> bool" where
  "extractRound ys acc = (case acc of (out, errorsMap, succeededKeys) \<Rightarrow>
     gm_ok out \<and> gm_ok errorsMap \<and> nonnil errorsMap \<and>
     set succeededKeys \<union> {k. gm_has errorsMap k} = ds_Key ` set (List.map_filter dp_Extract ys))"

lemma post_fetchExtract:
  assumes "extractRound ys acc"
  shows "post (fetchExtract E r pv ns acc x) (\<lambda>acc' n. extractRound (ys @ [x]) acc')"
proof -
  obtain out errs succ where acc: "acc = (out, errs, succ)" by (cases acc) auto
  have mf: "set (List.map_filter dp_Extract (ys @ [x])) =
      set (List.map_filter dp_Extract ys) \<union> (case dp_Extract x of None \<Rightarrow> {} | Some e \<Rightarrow> {e})"
    by (auto simp: List.map_filter_def split: option.splits)
  show ?thesis
    unfolding fetchExtract_def acc prod.case
    by (intro post_bind_emits [where P = "\<lambda>_. True"] emits_intros post_intros)
      (use assms in \<open>auto simp: acc extractRound_def mf nonnil_put gm_ok_putAll split: sum.splits\<close>)
qed

lemma dataRound_start: "dataRound [] (gm_empty, gm_empty, [])"
  by (simp add: dataRound_def nonnil_def) (simp add: gm_empty_def)

lemma extractRound_start: "extractRound [] (gm_empty, gm_empty, [])"
  by (simp add: extractRound_def nonnil_def List.map_filter_simps) (simp add: gm_empty_def)

lemma post_getExternalSecret: "post (getExternalSecret E r pv ds ns) (\<lambda>acc n. dataRound ds acc)"
  unfolding getExternalSecret_def
  by (rule post_forM_prefix [where I = "\<lambda>ys acc n. dataRound ys acc" and ?n0.0 = "[]", simplified])
    (auto intro: post_fetchData dataRound_start)

lemma post_getExternalSecretWithExtract:
  "post (getExternalSecretWithExtract E r pv dps ns) (\<lambda>acc n. extractRound dps acc)"
  unfolding getExternalSecretWithExtract_def
  by (rule post_forM_prefix [where I = "\<lambda>ys acc n. extractRound ys acc" and ?n0.0 = "[]", simplified])
    (auto intro: post_fetchExtract extractRound_start)

section \<open>Properties\<close>

text \<open>C34. No data source is silently dropped, and none writes foreign keys: after the fetch loop the
  key of every entry of \<open>spec.data\<close> is recorded as succeeded or as failed, no error is nil, and every
  key of the output is a target key of an entry that succeeded.\<close>

theorem fetch_accounts_for_every_source:
  "post (getExternalSecret E r pv ds ns) (\<lambda>(out, errorsMap, succeededKeys) n.
     set succeededKeys \<union> {k. gm_has errorsMap k} = ds_Key ` set ds \<and>
     nonnil errorsMap \<and>
     {k. gm_has out k} \<subseteq> \<Union> (entryTargetKeys ` {d \<in> set ds. ds_Key d \<in> set succeededKeys}))"
  by (rule post_conseq [OF post_getExternalSecret]) (auto simp: dataRound_def)

text \<open>C13. A client is handed out for a store reference only when the access rules allow it: a
  ClusterSecretStore must admit the namespace of the ExternalSecret, and a SecretStore of another
  namespace needs the cross-namespace switch.\<close>

theorem client_requires_access:
  "post (getOrCreateClient E r pv clientName (Some ref) ns endpoint) (\<lambda>(res, _) n. isl res \<or> mayRead E r ref ns)"
  unfolding getOrCreateClient_def Let_def option.case
  by (rule post_bind_emits [where P = "\<lambda>_. True"], intro emits_intros,
      intro post_intros post_bind [OF post_cachedClient] post_bind [OF post_storeClient]) auto

text \<open>C12. Freshness: a cached client of a store is served only when some answer of the API server
  during the call shows a store that is not mid rebuild (observed generation equal to the
  generation and no pending trigger annotation), or one without a Ready condition, or, for a
  ClusterSecretStore, when its controller is disabled.\<close>

theorem cached_client_is_fresh:
  "post (cachedClient E r client (Some ref) ns clientKey)
     (\<lambda>res n. isl res \<or> (res = Inr client \<and> mayRead E r ref ns \<and> servedFresh E r ref ns))"
  by (rule post_cachedClient)

definition usedByOthers :: "ExternalSecret \<Rightarrow> ExternalSecret list \<Rightarrow> string \<Rightarrow> bool" where
  "usedByOthers es items k \<longleftrightarrow> (\<exists>o1 \<in> set items. es_UID o1 \<noteq> es_UID es \<and>
     m_DeletionTimestamp (es_meta o1) = None \<and> k \<in> set (compositeClientKeysFromSpec o1))"

text \<open>Cleanup of endpoint-specific clients removes exactly the keys it was given that no other
  live ExternalSecret references; every other client stays.\<close>

theorem cleanup_removes_only_unreferenced:
  assumes "table_ok p" "gm_get (providerMap p) (providerNameOf es) = Some pv" "e_ListES E (tr p) = Inr items"
  shows "clientAt pv (final (deleteUnreferencedCompositeClients E es keys onDeletion) p) k =
    (if k \<in> set keys \<and> \<not> usedByOthers es items k then Inl (not_registered k) else clientAt pv p k)"
proof -
  have pv: "inTable pv p" using assms(1,2) by (auto simp: table_ok_def inTable_def gm_has_def)
  let ?q = "p\<lparr>tr := ListES # tr p\<rparr>"
  have q: "table_ok ?q" "inTable pv ?q" "clientAt pv ?q k = clientAt pv p k"
    using assms(1) pv by (simp_all add: table_ok_def inTable_def clientAt_def split: pkind.split)
  have u: "usedByOthers es items k \<longleftrightarrow> k \<in> set (referencedKeys es items [])"
    by (auto simp: usedByOthers_def set_referencedKeys)
  show ?thesis
    using assms(2,3) deleteKeys_final [OF q(1,2), of "referencedKeys es items []" keys k] q(3) u
    by (simp add: deleteUnreferencedCompositeClients_def GetProviderByName_def api_defs run_simps)
qed

lemma deleteUnreferenced_tracker:
  assumes "table_ok p"
  shows "compositeKeysByES (final (deleteUnreferencedCompositeClients E es keys d) p) = compositeKeysByES p"
proof -
  have step: "compositeKeysByES (final (deleteKeys pv refd keys) (p\<lparr>tr := ListES # tr p\<rparr>)) = compositeKeysByES p"
    if "gm_get (providerMap p) (providerNameOf es) = Some pv" for pv refd
  proof -
    have "inTable pv (p\<lparr>tr := ListES # tr p\<rparr>)" "table_ok (p\<lparr>tr := ListES # tr p\<rparr>)"
      using that assms by (auto simp: table_ok_def inTable_def gm_has_def)
    then show ?thesis using deleteKeys_final by fastforce
  qed
  then show ?thesis
    by (auto simp: deleteUnreferencedCompositeClients_def GetProviderByName_def api_defs run_simps
        split: option.splits sum.splits)
qed

text \<open>The tracker of endpoint keys follows the spec: a round that succeeds records exactly the
  composite keys of the current spec (an empty set leaves no entry), and a round that fails keeps
  the previous snapshot, so the next round retries the same cleanup.\<close>

theorem tracker_follows_spec:
  assumes "table_ok p" "gm_ok (compositeKeysByES p)"
  shows "gm_get (compositeKeysByES (final (reconcileStaleCompositeClients E es) p)) uid =
    (if uid = es_UID es \<and> \<not> isl (result (reconcileStaleCompositeClients E es) p)
     then (let current = compositeClientKeysFromSpec es in if current = [] then None else Some current)
     else gm_get (compositeKeysByES p) uid)"
proof -
  let ?cur = "compositeClientKeysFromSpec es"
  have keep: "compositeKeysByES (final (storeCompositeKeys (es_UID es) ?cur) q) =
      (if ?cur = [] then gm_del (compositeKeysByES q) (es_UID es) else gm_put (compositeKeysByES q) (es_UID es) ?cur)" for q
    by (simp add: storeCompositeKeys_def run_simps)
  show ?thesis
  proof (cases "gm_get (compositeKeysByES p) (es_UID es)")
    case None
    then show ?thesis using assms(2)
      by (simp add: reconcileStaleCompositeClients_def snapshotCompositeKeys_def run_simps Let_def keep)
  next
    case (Some prev)
    let ?m = "if length (filter (\<lambda>k. k \<notin> set ?cur) prev) > 0
              then deleteUnreferencedCompositeClients E es (filter (\<lambda>k. k \<notin> set ?cur) prev) False else ret (Inr ())"
    obtain x q where xq: "result ?m p = x" "final ?m p = q" by blast
    have "compositeKeysByES (final ?m p) = compositeKeysByES p"
      using deleteUnreferenced_tracker [OF assms(1)] by (simp add: run_simps)
    then have c: "compositeKeysByES q = compositeKeysByES p" using xq by simp
    have run: "result (reconcileStaleCompositeClients E es) p =
          (case result ?m p of Inl err \<Rightarrow> Inl err | Inr _ \<Rightarrow> Inr ())"
      "final (reconcileStaleCompositeClients E es) p =
          (case result ?m p of Inl err \<Rightarrow> final ?m p | Inr _ \<Rightarrow> final (storeCompositeKeys (es_UID es) ?cur) (final ?m p))"
      using Some by (simp_all add: reconcileStaleCompositeClients_def snapshotCompositeKeys_def run_simps Let_def
          del: length_greater_0_conv split: sum.split)
    show ?thesis unfolding run xq using c assms(2) by (cases x) (simp_all add: keep Let_def)
  qed
qed

definition demoProc :: proc where
  "demoProc = sampleProc\<lparr>providerMap := [(ProviderKMSName, kms_NewProvider demoOptions)]\<rparr>"

lemma demoProc_ok: "table_ok demoProc" "gm_get (providerMap demoProc) ProviderKMSName = Some (kms_NewProvider demoOptions)"
    "compositeKeysByES demoProc = gm_empty"
  by (auto simp: table_ok_def demoProc_def gm_get_def kms_NewProvider_def pool_ok_NewManager sampleProc_def split: if_splits)

theorem cleanup_removes_only_unreferenced_witness:
  "clientAt (kms_NewProvider demoOptions)
     (final (deleteUnreferencedCompositeClients sampleEnv emptyExternalSecret [''env.client#kms.cn.aliyuncs.com''] True) demoProc)
     ''env.client#kms.cn.aliyuncs.com'' = Inl (not_registered ''env.client#kms.cn.aliyuncs.com'')"
  using cleanup_removes_only_unreferenced [of demoProc emptyExternalSecret "kms_NewProvider demoOptions" sampleEnv "[]"
      "[''env.client#kms.cn.aliyuncs.com'']" True "''env.client#kms.cn.aliyuncs.com''"] demoProc_ok
  by (simp add: providerNameOf_def emptyExternalSecret_def sampleEnv_def usedByOthers_def)

theorem tracker_follows_spec_witness:
  "gm_get (compositeKeysByES (final (reconcileStaleCompositeClients sampleEnv emptyExternalSecret) demoProc)) ''other'' = None"
  using tracker_follows_spec [of demoProc sampleEnv emptyExternalSecret "''other''"] demoProc_ok
  by (simp add: emptyExternalSecret_def noMeta_def)

end
