(* ===== verification/Es_Watch.thy ===== *)
theory Es_Watch
  imports Es_Clients
begin

text \<open>
  What wakes the ExternalSecret controller: \<open>controller/externalsecret/store_watch.go\<close> (the index
  from stores to ExternalSecrets and the mapping of store events) and \<open>predicates.go\<close> (the event
  filters).
\<close>

section \<open>Store references\<close>

definition storeRefKey :: "SecretStoreRef option \<Rightarrow> string \<Rightarrow> string" where
  "storeRefKey ref externalSecretNamespace = (case ref of
      None \<Rightarrow> []
    | Some rf \<Rightarrow>
        if refKind rf = ''ClusterSecretStore'' then ClusterStoreKey (ssr_Name rf)
        else if refKind rf = ''SecretStore'' then SecretStoreKey (refNamespace rf externalSecretNamespace) (ssr_Name rf)
        else [])"

fun addRefKeys :: "string \<Rightarrow> DataSource list \<Rightarrow> strset \<Rightarrow> strset" where
  "addRefKeys ns [] seen = seen"
| "addRefKeys ns (d # ds) seen =
     (let key = storeRefKey (ds_SecretStoreRef d) ns in addRefKeys ns ds (if key \<noteq> [] then ss_add key seen else seen))"

definition storeRefIndexKeys :: "ExternalSecret \<Rightarrow> string list" where
  "storeRefIndexKeys es = addRefKeys (es_Namespace es) (extracts es) (addRefKeys (es_Namespace es) (sp_Data (es_Spec es)) [])"

definition shouldWatch :: "ExternalSecretReconciler \<Rightarrow> string \<Rightarrow> bool" where
  "shouldWatch r namespace = IsNamespaceWatched (rc_WatchNamespaces r) namespace"

text \<open>A request is a namespace and a name.\<close>

definition enqueueReferencingExternalSecrets ::
    "env \<Rightarrow> ExternalSecretReconciler \<Rightarrow> string \<Rightarrow> ((string \<times> string) list) io" where
  "enqueueReferencingExternalSecrets E r storeKey = do {
     got \<leftarrow> listESByStore E storeKey;
     ret (case got of
         Inl _ \<Rightarrow> []
       | Inr items \<Rightarrow> map (\<lambda>es. (es_Namespace es, es_Name es)) (filter (\<lambda>es. shouldWatch r (es_Namespace es)) items))
   }"

definition mapStoreToExternalSecrets ::
    "env \<Rightarrow> ExternalSecretReconciler \<Rightarrow> SecretStore \<Rightarrow> ((string \<times> string) list) io" where
  "mapStoreToExternalSecrets E r st =
     enqueueReferencingExternalSecrets E r (SecretStoreKey (m_Namespace (ss_meta st)) (m_Name (ss_meta st)))"

definition mapClusterStoreToExternalSecrets ::
    "env \<Rightarrow> ExternalSecretReconciler \<Rightarrow> ClusterSecretStore \<Rightarrow> ((string \<times> string) list) io" where
  "mapClusterStoreToExternalSecrets E r st =
     enqueueReferencingExternalSecrets E r (ClusterStoreKey (m_Name (css_meta st)))"

section \<open>Event filters\<close>

text \<open>An update carries the old and the new object; \<open>same\<close> says that both are one object (a
  resync), the only way two non-nil timestamp pointers are equal.\<close>

datatype 'o watch_event = Created 'o | Deleted 'o | Updated (same: bool) 'o 'o | Generic 'o

definition pointersDiffer :: "bool \<Rightarrow> int option \<Rightarrow> int option \<Rightarrow> bool" where
  "pointersDiffer sameObject a b \<longleftrightarrow> \<not> sameObject \<and> \<not> (a = None \<and> b = None)"

definition ExternalSecretsPredicate :: "ExternalSecret watch_event \<Rightarrow> bool" where
  "ExternalSecretsPredicate ev = (case ev of
      Updated s oldObj newObj \<Rightarrow>
        es_Spec oldObj \<noteq> es_Spec newObj \<or>
        pointersDiffer s (m_DeletionTimestamp (es_meta oldObj)) (m_DeletionTimestamp (es_meta newObj)) \<or>
        m_Generation (es_meta oldObj) \<noteq> m_Generation (es_meta newObj)
    | _ \<Rightarrow> True)"

text \<open>\<open>namespaceExcludePredicate\<close>: the false entries of the scope map.\<close>

fun excludedOf :: "bool gomap \<Rightarrow> strset \<Rightarrow> strset" where
  "excludedOf [] s = s"
| "excludedOf ((ns, included) # rest) s = excludedOf rest (if \<not> included then ss_add ns s else s)"

definition allowedNamespace :: "strset \<Rightarrow> ExternalSecret \<Rightarrow> bool" where
  "allowedNamespace excluded obj = (if length excluded = 0 then True else es_Namespace obj \<notin> set excluded)"

definition namespaceExcludePredicate :: "strset \<Rightarrow> ExternalSecret watch_event \<Rightarrow> bool" where
  "namespaceExcludePredicate excluded ev = (case ev of
      Created o1 \<Rightarrow> allowedNamespace excluded o1
    | Deleted _ \<Rightarrow> True
    | Updated _ _ newObj \<Rightarrow> allowedNamespace excluded newObj
    | Generic o1 \<Rightarrow> allowedNamespace excluded o1)"

text \<open>The conjunction installed by \<open>SetupWithManager\<close>.\<close>

definition esEventAdmitted :: "ExternalSecretReconciler \<Rightarrow> ExternalSecret watch_event \<Rightarrow> bool" where
  "esEventAdmitted r ev \<longleftrightarrow>
     ExternalSecretsPredicate ev \<and> namespaceExcludePredicate (excludedOf (rc_WatchNamespaces r) []) ev"

definition storeUpdateRelevant ::
    "bool \<Rightarrow> int \<Rightarrow> int \<Rightarrow> int option \<Rightarrow> int option \<Rightarrow> int \<Rightarrow> int \<Rightarrow> bool" where
  "storeUpdateRelevant specEqual oldGeneration newGeneration oldDeletion newDeletion oldClientGeneration newClientGeneration \<longleftrightarrow>
     \<not> specEqual \<or> oldGeneration \<noteq> newGeneration \<or> oldDeletion \<noteq> newDeletion \<or> oldClientGeneration \<noteq> newClientGeneration"

definition SecretStoreWatchPredicate :: "SecretStore watch_event \<Rightarrow> bool" where
  "SecretStoreWatchPredicate ev = (case ev of
      Updated _ oldObj newObj \<Rightarrow> storeUpdateRelevant (ss_Spec oldObj = ss_Spec newObj)
        (m_Generation (ss_meta oldObj)) (m_Generation (ss_meta newObj))
        (m_DeletionTimestamp (ss_meta oldObj)) (m_DeletionTimestamp (ss_meta newObj))
        (st_ClientGeneration (ss_Status oldObj)) (st_ClientGeneration (ss_Status newObj))
    | _ \<Rightarrow> True)"

definition ClusterSecretStoreWatchPredicate :: "ClusterSecretStore watch_event \<Rightarrow> bool" where
  "ClusterSecretStoreWatchPredicate ev = (case ev of
      Updated _ oldObj newObj \<Rightarrow> storeUpdateRelevant (css_Spec oldObj = css_Spec newObj)
        (m_Generation (css_meta oldObj)) (m_Generation (css_meta newObj))
        (m_DeletionTimestamp (css_meta oldObj)) (m_DeletionTimestamp (css_meta newObj))
        (st_ClientGeneration (css_Status oldObj)) (st_ClientGeneration (css_Status newObj))
    | _ \<Rightarrow> True)"

section \<open>Facts\<close>

text \<open>The store references of an ExternalSecret.\<close>

definition storeRefs :: "ExternalSecret \<Rightarrow> SecretStoreRef set" where
  "storeRefs es = {ref. \<exists>d \<in> set (sp_Data (es_Spec es) @ extracts es). ds_SecretStoreRef d = Some ref}"

lemma set_addRefKeys:
  "set (addRefKeys ns ds seen) = set seen \<union> ({storeRefKey (ds_SecretStoreRef d) ns | d. d \<in> set ds} - {[]})"
  by (induction ns ds seen rule: addRefKeys.induct) (auto simp: Let_def)

lemma storeRefKey_nonempty: "storeRefKey (Some ref) ns \<noteq> [] \<longleftrightarrow> refKind ref \<in> {''ClusterSecretStore'', ''SecretStore''}"
  by (simp add: storeRefKey_def ClusterStoreKey_def SecretStoreKey_def)

lemma set_storeRefIndexKeys:
  "set (storeRefIndexKeys es) = {storeRefKey (Some ref) (es_Namespace es) | ref. ref \<in> storeRefs es} - {[]}"
proof -
  have "{storeRefKey (ds_SecretStoreRef d) ns | d. d \<in> D} - {[]} =
      {storeRefKey (Some ref) ns | ref. \<exists>d \<in> D. ds_SecretStoreRef d = Some ref} - {[]}" for D ns
  proof -
    have n: "storeRefKey None ns = []" by (simp add: storeRefKey_def)
    show ?thesis
    proof (intro set_eqI iffI)
      fix k assume "k \<in> {storeRefKey (ds_SecretStoreRef d) ns | d. d \<in> D} - {[]}"
      then obtain d where "d \<in> D" "k = storeRefKey (ds_SecretStoreRef d) ns" "k \<noteq> []" by auto
      then show "k \<in> {storeRefKey (Some ref) ns | ref. \<exists>d \<in> D. ds_SecretStoreRef d = Some ref} - {[]}"
        using n by (cases "ds_SecretStoreRef d") auto
    next
      fix k assume "k \<in> {storeRefKey (Some ref) ns | ref. \<exists>d \<in> D. ds_SecretStoreRef d = Some ref} - {[]}"
      then show "k \<in> {storeRefKey (ds_SecretStoreRef d) ns | d. d \<in> D} - {[]}" by force
    qed
  qed
  then show ?thesis
    by (simp add: storeRefIndexKeys_def set_addRefKeys storeRefs_def) blast
qed

lemma set_excludedOf: "set (excludedOf m s) = set s \<union> {ns. (ns, False) \<in> set m}"
  by (induction m s rule: excludedOf.induct) auto

text \<open>The key of a SecretStore is an index key of an ExternalSecret exactly when some source of it
  references that very store, and likewise for a ClusterSecretStore (names of Kubernetes objects
  contain no slash).\<close>

lemma store_index_exact:
  assumes "clean_name ns" "\<forall>ref \<in> storeRefs es. clean_name (refNamespace ref (es_Namespace es))"
  shows "(SecretStoreKey ns n \<in> set (storeRefIndexKeys es) \<longleftrightarrow>
            (\<exists>ref \<in> storeRefs es. refKind ref = ''SecretStore'' \<and> refNamespace ref (es_Namespace es) = ns \<and> ssr_Name ref = n)) \<and>
         (ClusterStoreKey n \<in> set (storeRefIndexKeys es) \<longleftrightarrow>
            (\<exists>ref \<in> storeRefs es. refKind ref = ''ClusterSecretStore'' \<and> ssr_Name ref = n))"
proof -
  have ne: "SecretStoreKey ns n \<noteq> []" "ClusterStoreKey n \<noteq> []" by (simp_all add: SecretStoreKey_def ClusterStoreKey_def)
  have ss: "storeRefKey (Some ref) (es_Namespace es) = SecretStoreKey ns n \<longleftrightarrow>
      refKind ref = ''SecretStore'' \<and> refNamespace ref (es_Namespace es) = ns \<and> ssr_Name ref = n" if "ref \<in> storeRefs es" for ref
    using assms that ne by (auto simp: storeRefKey_def SecretStoreKey_inj)
  have cs: "storeRefKey (Some ref) (es_Namespace es) = ClusterStoreKey n \<longleftrightarrow>
      refKind ref = ''ClusterSecretStore'' \<and> ssr_Name ref = n" for ref
    using ne by (auto simp: storeRefKey_def) (simp_all add: ClusterStoreKey_def)
  show ?thesis
    unfolding set_storeRefIndexKeys using ne ss cs by (auto simp: eq_commute)
qed

text \<open>For the two supported kinds the index key of a reference is the client name under which its
  client is cached.\<close>

lemma index_key_is_client_name:
  "refKind ref \<in> {''ClusterSecretStore'', ''SecretStore''} \<Longrightarrow> storeRefKey (Some ref) ns = resolveClientName (Some ref) ns"
  by (auto simp: storeRefKey_def resolveClientName_def)

lemma result_enqueue:
  "result (enqueueReferencingExternalSecrets E r k) p = (case e_ListESByStore E (tr p) k of
      Inl _ \<Rightarrow> []
    | Inr items \<Rightarrow> map (\<lambda>es. (es_Namespace es, es_Name es)) (filter (\<lambda>es. shouldWatch r (es_Namespace es)) items))"
  by (simp add: enqueueReferencingExternalSecrets_def api_defs run_simps)

section \<open>Properties\<close>

text \<open>A store event wakes exactly its consumers: when the list by index answers with the objects
  that carry the key (the index of the cache), the requests of a SecretStore event are those of the
  ExternalSecrets in watched namespaces with a source that references this very store, and those of
  a ClusterSecretStore event likewise.\<close>

theorem store_event_wakes_consumers:
  assumes "\<And>t k. e_ListESByStore E t k = Inr (filter (\<lambda>es. k \<in> set (storeRefIndexKeys es)) objects)"
    and "clean_name (m_Namespace (ss_meta st))"
    and "\<forall>es \<in> set objects. \<forall>ref \<in> storeRefs es. clean_name (refNamespace ref (es_Namespace es))"
  shows "set (result (mapStoreToExternalSecrets E r st) p) =
      {(es_Namespace es, es_Name es) | es. es \<in> set objects \<and> shouldWatch r (es_Namespace es) \<and>
        (\<exists>ref \<in> storeRefs es. refKind ref = ''SecretStore'' \<and>
           refNamespace ref (es_Namespace es) = m_Namespace (ss_meta st) \<and> ssr_Name ref = m_Name (ss_meta st))} \<and>
    set (result (mapClusterStoreToExternalSecrets E r css) p) =
      {(es_Namespace es, es_Name es) | es. es \<in> set objects \<and> shouldWatch r (es_Namespace es) \<and>
        (\<exists>ref \<in> storeRefs es. refKind ref = ''ClusterSecretStore'' \<and> ssr_Name ref = m_Name (css_meta css))}"
proof -
  have "SecretStoreKey (m_Namespace (ss_meta st)) n \<in> set (storeRefIndexKeys es) \<longleftrightarrow>
      (\<exists>ref \<in> storeRefs es. refKind ref = ''SecretStore'' \<and> refNamespace ref (es_Namespace es) = m_Namespace (ss_meta st) \<and> ssr_Name ref = n)"
    "ClusterStoreKey n \<in> set (storeRefIndexKeys es) \<longleftrightarrow> (\<exists>ref \<in> storeRefs es. refKind ref = ''ClusterSecretStore'' \<and> ssr_Name ref = n)"
    if "es \<in> set objects" for es n
    using store_index_exact [OF assms(2)] assms(3) that by blast+
  note index = this
  have requests: "set (map f (filter Q (filter P xs))) = {f x | x. x \<in> set xs \<and> Q x \<and> P x}" for f :: "ExternalSecret \<Rightarrow> string \<times> string" and P Q xs
    by auto
  show ?thesis
    unfolding mapStoreToExternalSecrets_def mapClusterStoreToExternalSecrets_def result_enqueue assms(1) sum.case requests
    using index by (intro conjI Collect_cong ex_cong1) (simp_all cong: conj_cong)
qed

text \<open>A sample ExternalSecret in namespace \<open>a\<close> with a source from the SecretStore \<open>s\<close> there.\<close>

definition demoRef :: SecretStoreRef where
  "demoRef = \<lparr>ssr_Name = ''s'', ssr_Kind = [], ssr_Namespace = []\<rparr>"

definition demoUser :: ExternalSecret where
  "demoUser = emptyExternalSecret\<lparr>es_meta := noMeta\<lparr>m_Name := ''x'', m_Namespace := ''a''\<rparr>,
     es_Spec := (es_Spec emptyExternalSecret)\<lparr>sp_Data := [emptyDataSource\<lparr>ds_SecretStoreRef := Some demoRef\<rparr>]\<rparr>\<rparr>"

definition demoStore :: SecretStore where
  "demoStore = \<lparr>ss_meta = noMeta\<lparr>m_Name := ''s'', m_Namespace := ''a''\<rparr>, ss_Spec = \<lparr>ss_KMS = None, ss_OOS = None\<rparr>,
     ss_Status = \<lparr>st_Conditions = [], st_Capabilities = [], st_ClientGeneration = 0\<rparr>\<rparr>"

definition everyNamespace :: ExternalSecretReconciler where
  "everyNamespace = \<lparr>rc_WatchNamespaces = gm_empty, rc_ReconciliationPeriod = 5, rc_CleanUpSecretOnFailure = True,
     rc_DisablePolling = False, rc_RotationInterval = 7, rc_KmsLimiter = True, rc_OosLimiter = True,
     rc_EnableCrossNamespace = False, rc_RestConfig = True, rc_ProcessClusterSecretStore = True\<rparr>"

theorem store_event_wakes_consumers_witness:
  "set (result (mapStoreToExternalSecrets
     (sampleEnv\<lparr>e_ListESByStore := \<lambda>_ k. Inr (filter (\<lambda>es. k \<in> set (storeRefIndexKeys es)) [demoUser])\<rparr>)
     everyNamespace demoStore) sampleProc) = {(''a'', ''x'')}"
proof -
  let ?E = "sampleEnv\<lparr>e_ListESByStore := \<lambda>_ k. Inr (filter (\<lambda>es. k \<in> set (storeRefIndexKeys es)) [demoUser])\<rparr>"
  have l: "e_ListESByStore ?E t k = Inr (filter (\<lambda>es. k \<in> set (storeRefIndexKeys es)) [demoUser])" for t k by simp
  have r: "storeRefs demoUser = {demoRef}"
    by (auto simp: storeRefs_def demoUser_def extracts_def List.map_filter_def emptyExternalSecret_def)
  have n: "es_Namespace demoUser = ''a''" "es_Name demoUser = ''x''" by (simp_all add: demoUser_def)
  have "clean_name (m_Namespace (ss_meta demoStore))"
    "\<forall>es \<in> set [demoUser]. \<forall>ref \<in> storeRefs es. clean_name (refNamespace ref (es_Namespace es))"
    by (simp_all add: r n demoStore_def clean_name_def refNamespace_def demoRef_def)
  from store_event_wakes_consumers [of ?E "[demoUser]", OF l this, of everyNamespace sampleProc] show ?thesis
    by (auto simp: r n demoStore_def refKind_def refNamespace_def demoRef_def shouldWatch_def IsNamespaceWatched_def everyNamespace_def
        gm_empty_def gm_get_def)
qed

text \<open>In an excluded namespace no event of a live object is admitted, not even the update that
  announces its deletion; only the event sent after the object is gone is.\<close>

theorem excluded_namespace_events:
  assumes "gm_get (rc_WatchNamespaces r) (es_Namespace es) = Some False"
  shows "esEventAdmitted r (Deleted es) \<and> \<not> esEventAdmitted r (Created es) \<and> \<not> esEventAdmitted r (Updated s old es)"
proof -
  have "(es_Namespace es, False) \<in> set (rc_WatchNamespaces r)"
    using assms by (auto simp: gm_get_def dest: map_of_SomeD)
  then have "es_Namespace es \<in> set (excludedOf (rc_WatchNamespaces r) [])" by (simp add: set_excludedOf)
  then show ?thesis
    by (auto simp: esEventAdmitted_def namespaceExcludePredicate_def allowedNamespace_def ExternalSecretsPredicate_def)
qed

theorem excluded_namespace_events_witness:
  "\<not> esEventAdmitted (everyNamespace\<lparr>rc_WatchNamespaces := [(''a'', False)]\<rparr>)
     (Updated False demoUser (demoUser\<lparr>es_meta := (es_meta demoUser)\<lparr>m_DeletionTimestamp := Some 1\<rparr>\<rparr>))"
  using excluded_namespace_events [of "everyNamespace\<lparr>rc_WatchNamespaces := [(''a'', False)]\<rparr>"
      "demoUser\<lparr>es_meta := (es_meta demoUser)\<lparr>m_DeletionTimestamp := Some 1\<rparr>\<rparr>" False demoUser]
  by (simp add: gm_get_def demoUser_def)

end
