(* ===== verification/Secret_Write.thy ===== *)
theory Secret_Write
  imports Sync_Status
begin

text \<open>
  \<open>controller/externalsecret/secret_operation_handler.go\<close>: how the target Secret is created,
  updated or deleted. The handler is the pair of its client (\<open>env\<close>) and its cleanup flag. A nil
  map and an empty map of Secret data have the same length and are stored alike, so both are the
  empty map here. \<open>metadataTargets\<close> maps \<open>annotations\<close> and \<open>labels\<close> to the entries to lay over
  the existing metadata; the nil map is \<open>None\<close>.
\<close>

type_synonym metadata_targets = "string gomap gomap option"

fun StrContains :: "string \<Rightarrow> string \<Rightarrow> bool" where
  "StrContains [] sub = HasPrefix [] sub"
| "StrContains (c # cs) sub = (HasPrefix (c # cs) sub \<or> StrContains cs sub)"

definition SecretTypeOpaque :: string where "SecretTypeOpaque = ''Opaque''"

definition getSecretType :: "ExternalSecret \<Rightarrow> string" where
  "getSecretType es = (case es_template es of
      Some t \<Rightarrow> if t_Type t \<noteq> [] then t_Type t
                else if sp_Type (es_Spec es) \<noteq> [] then sp_Type (es_Spec es) else SecretTypeOpaque
    | None \<Rightarrow> if sp_Type (es_Spec es) \<noteq> [] then sp_Type (es_Spec es) else SecretTypeOpaque)"

definition updateSecretWithoutOwner ::
    "env \<Rightarrow> Secret \<Rightarrow> bytes gomap \<Rightarrow> string gomap \<Rightarrow> string gomap \<Rightarrow> unit res io" where
  "updateSecretWithoutOwner E currentSecret secretData labels annotations = do {
     let updatedSecret = currentSecret\<lparr>sec_Data := secretData,
           sec_meta := (sec_meta currentSecret)\<lparr>m_Labels := labels, m_Annotations := annotations\<rparr>\<rparr>;
     r \<leftarrow> updateSecret_api E updatedSecret;
     ret (case r of
         Inl e \<Rightarrow> Inl (wrap_w ''failed to update secret without owner reference: '' e)
       | Inr _ \<Rightarrow> Inr ())
   }"

definition namespaceTerminatingError :: "goerror \<Rightarrow> bool" where
  "namespaceTerminatingError e \<longleftrightarrow>
     StrContains (err_msg e) ''unable to create new content in namespace'' \<and>
     StrContains (err_msg e) ''because it is being terminated''"

definition newSecret ::
    "ExternalSecret \<Rightarrow> string \<Rightarrow> bytes gomap \<Rightarrow> string gomap \<Rightarrow> string gomap \<Rightarrow> Secret" where
  "newSecret es secretName secretData labels annotations =
     \<lparr>sec_meta = noMeta\<lparr>m_Name := secretName, m_Namespace := es_Namespace es,
        m_Labels := labels, m_Annotations := annotations\<rparr>,
      sec_Data = secretData, sec_Type = getSecretType es\<rparr>"

definition createSecretWithoutOwner ::
    "env \<Rightarrow> ExternalSecret \<Rightarrow> string \<Rightarrow> bytes gomap \<Rightarrow> string gomap \<Rightarrow> string gomap \<Rightarrow> unit res io" where
  "createSecretWithoutOwner E es secretName secretData labels annotations = do {
     r \<leftarrow> createSecret E (newSecret es secretName secretData labels annotations);
     case r of
       Inr _ \<Rightarrow> ret (Inr ())
     | Inl err \<Rightarrow>
         if errors_Is err AlreadyExists then do {
           got \<leftarrow> getSecret E (es_Namespace es) secretName;
           case got of
             Inl getErr \<Rightarrow> ret (Inl (wrap_w ''secret already exists but failed to re-fetch it: '' getErr))
           | Inr existing \<Rightarrow> updateSecretWithoutOwner E existing secretData labels annotations
         }
         else if namespaceTerminatingError err then ret (Inr ())
         else ret (Inl (wrap_w ''failed to create secret without owner reference: '' err))
   }"

definition handleProviderDeletion :: "env \<Rightarrow> ExternalSecret \<Rightarrow> string \<Rightarrow> unit res io" where
  "handleProviderDeletion E es secretName = do {
     got \<leftarrow> getSecret E (es_Namespace es) secretName;
     case got of
       Inl err \<Rightarrow> if errors_Is err NotFound then ret (Inr ())
                  else ret (Inl (wrap_w ''failed to get secret for deletion: '' err))
     | Inr secret \<Rightarrow> do {
         r \<leftarrow> deleteSecret E (m_Namespace (sec_meta secret)) (m_Name (sec_meta secret));
         ret (case r of
             Inl e \<Rightarrow> Inl (wrap_w ''failed to delete secret: '' e)
           | Inr _ \<Rightarrow> Inr ())
       }
   }"

definition targetsOf :: "metadata_targets \<Rightarrow> string \<Rightarrow> string gomap" where
  "targetsOf metadataTargets kind = (case metadataTargets of
      None \<Rightarrow> gm_empty
    | Some m \<Rightarrow> (case gm_get m kind of None \<Rightarrow> gm_empty | Some t \<Rightarrow> t))"

definition HandleSecretOperation ::
    "env \<Rightarrow> bool \<Rightarrow> ExternalSecret \<Rightarrow> bytes gomap \<Rightarrow> metadata_targets \<Rightarrow> unit res io" where
  "HandleSecretOperation E cleanUp es secretData metadataTargets =
     (let secretName = target_secret_name es
      in if cleanUp \<and> gm_len secretData = 0 then handleProviderDeletion E es secretName
         else do {
           got \<leftarrow> getSecret E (es_Namespace es) secretName;
           let layer = (\<lambda>kind existing. gm_overlay (gm_overlay gm_empty existing) (targetsOf metadataTargets kind));
           case got of
             Inr currentSecret \<Rightarrow>
               updateSecretWithoutOwner E currentSecret secretData
                 (layer ''labels'' (m_Labels (sec_meta currentSecret)))
                 (layer ''annotations'' (m_Annotations (sec_meta currentSecret)))
           | Inl err \<Rightarrow>
               if \<not> errors_Is err NotFound then ret (Inl (wrap_w ''failed to get current secret: '' err))
               else createSecretWithoutOwner E es secretName secretData
                      (layer ''labels'' gm_empty) (layer ''annotations'' gm_empty)
         })"

section \<open>Facts\<close>

lemmas secret_write_defs = HandleSecretOperation_def createSecretWithoutOwner_def
  updateSecretWithoutOwner_def handleProviderDeletion_def Let_def

lemma emits_HandleSecretOperation [emits_intros]:
  assumes "\<And>ns n. P (GetSecret ns n)" "\<And>s b. P (CreateSecret s b)" "\<And>s b. P (UpdateSecret s b)"
    "\<And>ns n b. P (DeleteSecret ns n b)"
  shows "emits P (HandleSecretOperation E c es d mt)"
  unfolding secret_write_defs api_defs by (intro emits_intros assms)

lemma emits_Handle_write:
  assumes "\<And>ns n. P (GetSecret ns n)"
    "\<And>l a b. P (CreateSecret (newSecret es (target_secret_name es) d l a) b)"
    "\<And>s b. sec_Data s = d \<Longrightarrow> P (UpdateSecret s b)"
    and "\<not> (c \<and> gm_len d = 0)"
  shows "emits P (HandleSecretOperation E c es d mt)"
  unfolding HandleSecretOperation_def Let_def if_not_P [OF assms(4)]
  unfolding createSecretWithoutOwner_def updateSecretWithoutOwner_def api_defs Let_def
  by (intro emits_intros assms) simp_all

lemma emits_Handle_delete:
  assumes "\<And>ns n. P (GetSecret ns n)" "\<And>ns n b. P (DeleteSecret ns n b)"
    and "c" "gm_len d = 0"
  shows "emits P (HandleSecretOperation E c es d mt)"
  unfolding HandleSecretOperation_def Let_def if_P [OF conjI [OF assms(3,4)]]
  unfolding handleProviderDeletion_def api_defs by (intro emits_intros assms)

end
