(* ===== verification/Templates.thy ===== *)
theory Templates
  imports Secret_Write
begin

text \<open>
  \<open>controller/externalsecret/template_processor.go\<close>. The engine of \<open>text/template\<close> with the
  sprig functions is the field \<open>e_template_Parse\<close> of the environment: a parse error, or the
  execution of the template on the string data of the round. \<open>validation.IsQualifiedName\<close> of
  apimachinery is \<open>e_IsQualifiedName\<close>. The custom template functions without a library engine
  (\<open>jsonPath\<close>, \<open>mergeJson\<close>, \<open>parseKeyValue\<close>, \<open>toLines\<close>) are defined here, and \<open>bcrypt\<close> and \<open>htpasswd\<close> over the
  hash generator of the bcrypt package.

  The API server admits only the targets Data, Annotations and Labels. Their entries go to
  different maps, so the order of the loop over the results by target does not matter.
\<close>

definition ManagedKeysAnnotation :: string where
  "ManagedKeysAnnotation = ''ack-alibabacloud.com/managed-keys''"

record UnifiedTemplateResult =
  u_Data :: "bytes gomap"
  u_Labels :: "string gomap"
  u_Annotations :: "string gomap"
  u_DataTemplatesProcessed :: nat
  u_TemplateFromProcessed :: nat
  u_MetadataTemplatesProcessed :: nat
  u_Errors :: "string list"
  u_FatalErrors :: "string list"

definition rawResult :: "bytes gomap \<Rightarrow> UnifiedTemplateResult" where
  "rawResult rawData = \<lparr>u_Data = gm_overlay gm_empty rawData, u_Labels = gm_empty, u_Annotations = gm_empty,
     u_DataTemplatesProcessed = 0, u_TemplateFromProcessed = 0, u_MetadataTemplatesProcessed = 0,
     u_Errors = [], u_FatalErrors = []\<rparr>"

section \<open>Template functions\<close>

definition isLineComment :: "string \<Rightarrow> bool" where
  "isLineComment line \<longleftrightarrow> line = [] \<or> HasPrefix line ''#''"

fun parseKeyValueLines :: "string list \<Rightarrow> string gomap \<Rightarrow> string gomap" where
  "parseKeyValueLines [] m = m"
| "parseKeyValueLines (l # ls) m =
     (let line = TrimSpace l
      in if isLineComment line then parseKeyValueLines ls m
         else (case SplitN2 line CHR ''='' of
                 [k, v] \<Rightarrow> parseKeyValueLines ls (gm_put m (TrimSpace k) (TrimSpace v))
               | _ \<Rightarrow> parseKeyValueLines ls m))"

definition parseKeyValue :: "string \<Rightarrow> string gomap" where
  "parseKeyValue input = parseKeyValueLines (SplitChar input CHR 0x0A) gm_empty"

definition toLines :: "string \<Rightarrow> string list" where
  "toLines input = (if input = [] then [] else SplitChar (TrimSpace input) CHR 0x0A)"

text \<open>\<open>strconv.Atoi\<close> is \<open>ParseInt64\<close>: an \<open>int\<close> has 64 bits.\<close>

fun jsonPathLoop :: "GoVal \<Rightarrow> string list \<Rightarrow> GoVal" where
  "jsonPathLoop current [] = current"
| "jsonPathLoop current (part # parts) = (case current of
      VObj v \<Rightarrow> (case gm_get v part of Some x \<Rightarrow> jsonPathLoop x parts | None \<Rightarrow> VStr [])
    | VArr v \<Rightarrow> (case ParseInt64 part of
         Some idx \<Rightarrow> if idx \<ge> 0 \<and> idx < int (length v) then jsonPathLoop (v ! nat idx) parts else VStr []
       | None \<Rightarrow> VStr [])
    | _ \<Rightarrow> VStr [])"

definition extractJSONPath :: "GoVal \<Rightarrow> string \<Rightarrow> GoVal" where
  "extractJSONPath data path = (if path = [] then data else jsonPathLoop data (SplitChar path CHR ''.''))"

text \<open>The values of a parsed document are trees, so the cycle check of the source never fires.\<close>

lemma gm_get_size:
  "gm_get m k = Some v \<Longrightarrow> size v < size_list (\<lambda>p. size (snd p)) m + 1"
  unfolding gm_get_def by (induction m) (auto split: if_splits)

lemma gm_get_VObj_size [termination_simp]:
  assumes "gm_get m k = Some (VObj b)"
  shows "size_list (\<lambda>p. size (snd p)) b < size_list (\<lambda>p. size (snd p)) m"
proof -
  have "size_list (\<lambda>p. size (snd p)) b \<le> size_list (size_prod (\<lambda>x. 0) size) b"
    by (induction b) (auto simp: prod.size_gen)
  then show ?thesis using gm_get_size [OF assms] by simp
qed

function deepMerge :: "GoVal gomap \<Rightarrow> GoVal gomap \<Rightarrow> GoVal gomap" where
  "deepMerge base override = gm_overlay (gm_overlay gm_empty base)
     (map (\<lambda>(k, v). (k, case gm_get base k of
            Some (VObj baseMap) \<Rightarrow> (case v of VObj overrideMap \<Rightarrow> VObj (deepMerge baseMap overrideMap) | _ \<Rightarrow> v)
          | _ \<Rightarrow> v)) override)"
  by pat_completeness auto
termination
  by (relation "measure (\<lambda>(b, _). size_list (\<lambda>p. size (snd p)) b)") (auto dest: gm_get_VObj_size)

declare deepMerge.simps [simp del]

definition mergeJson :: "env \<Rightarrow> string \<Rightarrow> string \<Rightarrow> string" where
  "mergeJson E base override = (case e_json_map E base of
      Inl _ \<Rightarrow> base
    | Inr baseMap \<Rightarrow> (case e_json_map E override of
         Inl _ \<Rightarrow> base
       | Inr overrideMap \<Rightarrow> (case e_json_Marshal E (VObj (deepMerge baseMap overrideMap)) of
            Inl _ \<Rightarrow> base
          | Inr r \<Rightarrow> r)))"

definition jsonPath :: "env \<Rightarrow> string \<Rightarrow> string \<Rightarrow> GoVal" where
  "jsonPath E jsonStr path = (case e_json E jsonStr of
      Inl _ \<Rightarrow> VStr []
    | Inr data \<Rightarrow> extractJSONPath data path)"

text \<open>Password hashing; the generator of the bcrypt package and its default cost are arguments.\<close>

definition bcrypt :: "(bytes \<Rightarrow> int \<Rightarrow> bytes res) \<Rightarrow> int \<Rightarrow> string \<Rightarrow> int list \<Rightarrow> string" where
  "bcrypt GenerateFromPassword DefaultCost password cost =
     (let hashCost = (case cost of [] \<Rightarrow> DefaultCost | c # _ \<Rightarrow> c) in
      case GenerateFromPassword password hashCost of
        Inl _ \<Rightarrow> []
      | Inr hash \<Rightarrow> hash)"

definition htpasswd :: "(bytes \<Rightarrow> int \<Rightarrow> bytes res) \<Rightarrow> int \<Rightarrow> string \<Rightarrow> string \<Rightarrow> string" where
  "htpasswd GenerateFromPassword DefaultCost username password = (case GenerateFromPassword password DefaultCost of
      Inl _ \<Rightarrow> []
    | Inr hash \<Rightarrow> username @ '':'' @ hash @ [CHR 0x0A])"

section \<open>Key formats\<close>

definition toLower :: "char \<Rightarrow> char" where
  "toLower c = (if CHR ''A'' \<le> c \<and> c \<le> CHR ''Z'' then char_of (of_char c + (32::nat)) else c)"

definition isLetter :: "char \<Rightarrow> bool" where
  "isLetter c \<longleftrightarrow> (CHR ''a'' \<le> c \<and> c \<le> CHR ''z'') \<or> (CHR ''A'' \<le> c \<and> c \<le> CHR ''Z'')"

definition isValidAnnotationKey :: "env \<Rightarrow> string \<Rightarrow> bool" where
  "isValidAnnotationKey E key = e_IsQualifiedName E (map toLower key)"

definition isValidLabelKey :: "env \<Rightarrow> string \<Rightarrow> bool" where
  "isValidLabelKey E key = e_IsQualifiedName E key"

text \<open>For ASCII keys.\<close>

definition isValidSecretKey :: "string \<Rightarrow> bool" where
  "isValidSecretKey key =
     (if length key = 0 then False
      else list_all (\<lambda>c. isLetter c \<or> is_digit c \<or> c = CHR ''-'' \<or> c = CHR ''_'' \<or> c = CHR ''.'') key)"

section \<open>Executing\<close>

definition executeTemplate :: "env \<Rightarrow> string \<Rightarrow> string gomap \<Rightarrow> bytes res" where
  "executeTemplate E templateStr data = (case e_template_Parse E templateStr of
      Inl err \<Rightarrow> Inl \<lparr>err_msg = ''failed to parse template: '' @ err_msg err, err_chain = [TemplateParse]\<rparr>
    | Inr tmpl \<Rightarrow> (case tmpl data of
         Inl err \<Rightarrow> Inl \<lparr>err_msg = ''template execution failed: '' @ err_msg err, err_chain = [TemplateExecution]\<rparr>
       | Inr buf \<Rightarrow> Inr buf))"

text \<open>Template.Data: the result so far and the managed keys.\<close>

fun inlineTemplates ::
    "env \<Rightarrow> string gomap \<Rightarrow> string gomap \<Rightarrow> UnifiedTemplateResult \<times> strset \<Rightarrow> UnifiedTemplateResult \<times> strset" where
  "inlineTemplates E data [] acc = acc"
| "inlineTemplates E data ((key, templateStr) # rest) (u, managedKeys) =
     (case executeTemplate E templateStr data of
        Inl err \<Rightarrow>
          if errors_Is err TemplateParse
          then inlineTemplates E data rest
                 (u\<lparr>u_FatalErrors := u_FatalErrors u @ [''data template '' @ key @ '' parse failed: '' @ err_msg err]\<rparr>,
                  managedKeys)
          else inlineTemplates E data rest
                 (u\<lparr>u_Errors := u_Errors u @ [''data template '' @ key @ '' execution failed: '' @ err_msg err]\<rparr>,
                  managedKeys)
      | Inr processedValue \<Rightarrow>
          inlineTemplates E data rest
            (u\<lparr>u_Data := gm_put (u_Data u) key processedValue,
               u_DataTemplatesProcessed := u_DataTemplatesProcessed u + 1\<rparr>, ss_add key managedKeys))"

subsection \<open>TemplateFrom\<close>

fun addPairs :: "string list \<Rightarrow> bytes gomap \<Rightarrow> bytes gomap" where
  "addPairs [] r = r"
| "addPairs (l # ls) r =
     (let line = TrimSpace l
      in if line = [] then addPairs ls r
         else (case SplitN2 line CHR ''='' of
                 [k, v] \<Rightarrow> if TrimSpace k \<noteq> [] then addPairs ls (gm_put r (TrimSpace k) (TrimSpace v)) else addPairs ls r
               | _ \<Rightarrow> addPairs ls r))"

definition scopeOutput :: "TemplateRefItem \<Rightarrow> bytes \<Rightarrow> bytes gomap \<Rightarrow> bytes gomap" where
  "scopeOutput item processedValue r =
     (if tri_TemplateAs item = TemplateScopeValues then gm_put r (tri_Key item) processedValue
      else if tri_TemplateAs item = TemplateScopeKeysAndValues
      then addPairs (SplitChar (TrimSpace processedValue) CHR 0x0A) r
      else gm_put r (tri_Key item) processedValue)"

definition processTemplateFromRef ::
    "env \<Rightarrow> TemplateRef \<Rightarrow> string gomap \<Rightarrow> (string \<Rightarrow> string res io) \<Rightarrow> string \<Rightarrow> (bytes gomap) res io" where
  "processTemplateFromRef E templateRef data getTemplateData resourceType =
     forE (tr_Items templateRef) gm_empty (\<lambda>r item. do {
       got \<leftarrow> getTemplateData (tri_Key item);
       ret (case got of
           Inl e \<Rightarrow> Inl e
         | Inr templateValue \<Rightarrow> (case executeTemplate E templateValue data of
              Inl e \<Rightarrow> Inl (wrap_w (''failed to process '' @ resourceType @ '' template key '' @ tri_Key item @ '': '') e)
            | Inr processedValue \<Rightarrow> Inr (scopeOutput item processedValue r)))
     })"

definition processConfigMapTemplate ::
    "env \<Rightarrow> TemplateRef \<Rightarrow> string \<Rightarrow> string gomap \<Rightarrow> (bytes gomap) res io" where
  "processConfigMapTemplate E templateRef namespace data =
     processTemplateFromRef E templateRef data (\<lambda>key. do {
       got \<leftarrow> getConfigMap E namespace (tr_Name templateRef);
       ret (case got of
           Inl e \<Rightarrow> Inl (wrap_w (''failed to get ConfigMap '' @ tr_Name templateRef @ '': '') e)
         | Inr d \<Rightarrow> (case gm_get d key of
              None \<Rightarrow> Inl (errorf (''key '' @ key @ '' not found in ConfigMap '' @ tr_Name templateRef))
            | Some v \<Rightarrow> Inr v))
     }) ''ConfigMap''"

definition processSecretTemplate ::
    "env \<Rightarrow> TemplateRef \<Rightarrow> string \<Rightarrow> string gomap \<Rightarrow> (bytes gomap) res io" where
  "processSecretTemplate E templateRef namespace data =
     processTemplateFromRef E templateRef data (\<lambda>key. do {
       got \<leftarrow> getSecret E namespace (tr_Name templateRef);
       ret (case got of
           Inl e \<Rightarrow> Inl (wrap_w (''failed to get Secret '' @ tr_Name templateRef @ '': '') e)
         | Inr s \<Rightarrow> (case gm_get (sec_Data s) key of
              None \<Rightarrow> Inl (errorf (''key '' @ key @ '' not found in Secret '' @ tr_Name templateRef))
            | Some v \<Rightarrow> Inr v))
     }) ''Secret''"

definition processLiteralTemplate :: "env \<Rightarrow> string \<Rightarrow> string gomap \<Rightarrow> (bytes gomap) res" where
  "processLiteralTemplate E literal data = (case executeTemplate E literal data of
      Inl e \<Rightarrow> Inl (wrap_w ''failed to process literal template: '' e)
    | Inr processedValue \<Rightarrow> Inr (gm_put gm_empty ''literal'' processedValue))"

definition targetName :: "TemplateFrom \<Rightarrow> string" where
  "targetName tf = (if tf_Target tf = [] then TemplateTargetData else tf_Target tf)"

definition withTarget :: "bytes gomap gomap \<Rightarrow> string \<Rightarrow> bytes gomap gomap" where
  "withTarget results target = (if gm_has results target then results else gm_put results target gm_empty)"

definition addToTarget :: "bytes gomap gomap \<Rightarrow> string \<Rightarrow> bytes gomap \<Rightarrow> bytes gomap gomap" where
  "addToTarget results target templateData =
     gm_put results target
       (gm_overlay (case gm_get results target of Some m \<Rightarrow> m | None \<Rightarrow> gm_empty) templateData)"

definition processTemplateFromByTarget ::
    "env \<Rightarrow> ExternalSecret \<Rightarrow> TemplateFrom list \<Rightarrow> string gomap \<Rightarrow> (bytes gomap gomap) res io" where
  "processTemplateFromByTarget E es templateFroms data =
     forE templateFroms gm_empty (\<lambda>results tf. do {
       let target = targetName tf;
       let results = withTarget results target;
       let finish = (\<lambda>r. case r of Inl e \<Rightarrow> Inl e | Inr d \<Rightarrow> Inr (addToTarget results target d));
       case tf_ConfigMap tf of
         Some cm \<Rightarrow> do { r \<leftarrow> processConfigMapTemplate E cm (es_Namespace es) data; ret (finish r) }
       | None \<Rightarrow> (case tf_Secret tf of
           Some sec \<Rightarrow> do { r \<leftarrow> processSecretTemplate E sec (es_Namespace es) data; ret (finish r) }
         | None \<Rightarrow> (case tf_Literal tf of
             Some lit \<Rightarrow> ret (finish (processLiteralTemplate E lit data))
           | None \<Rightarrow> ret (Inr results)))
     })"

fun addAnnotations :: "env \<Rightarrow> bytes gomap \<Rightarrow> UnifiedTemplateResult \<Rightarrow> UnifiedTemplateResult" where
  "addAnnotations E [] u = u"
| "addAnnotations E ((k, v) # rest) u = addAnnotations E rest
     (if isValidAnnotationKey E k then u\<lparr>u_Annotations := gm_put (u_Annotations u) k v\<rparr> else u)"

fun addLabels :: "env \<Rightarrow> bytes gomap \<Rightarrow> UnifiedTemplateResult \<Rightarrow> UnifiedTemplateResult" where
  "addLabels E [] u = u"
| "addLabels E ((k, v) # rest) u = addLabels E rest
     (if isValidLabelKey E k then u\<lparr>u_Labels := gm_put (u_Labels u) k v\<rparr> else u)"

fun addData :: "bytes gomap \<Rightarrow> UnifiedTemplateResult \<times> strset \<Rightarrow> UnifiedTemplateResult \<times> strset" where
  "addData [] acc = acc"
| "addData ((k, v) # rest) (u, managedKeys) = addData rest
     (if isValidSecretKey k
      then (u\<lparr>u_Data := gm_put (u_Data u) k v, u_DataTemplatesProcessed := u_DataTemplatesProcessed u + 1\<rparr>,
            ss_add k managedKeys)
      else (u, managedKeys))"

fun applyTargets ::
    "env \<Rightarrow> bytes gomap gomap \<Rightarrow> UnifiedTemplateResult \<times> strset \<Rightarrow> UnifiedTemplateResult \<times> strset" where
  "applyTargets E [] acc = acc"
| "applyTargets E ((target, targetData) # rest) (u, managedKeys) =
     (let (u', mk') =
            (if target = TemplateTargetAnnotations then (addAnnotations E targetData u, managedKeys)
             else if target = TemplateTargetLabels then (addLabels E targetData u, managedKeys)
             else addData targetData (u, managedKeys))
      in applyTargets E rest (u'\<lparr>u_TemplateFromProcessed := u_TemplateFromProcessed u' + 1\<rparr>, mk'))"

definition isReplaceMode :: "ExternalSecretTemplate \<Rightarrow> bool" where
  "isReplaceMode t \<longleftrightarrow> t_MergePolicy t = [] \<or> t_MergePolicy t = MergePolicyReplace"

definition templateDataEntries :: "ExternalSecretTemplate \<Rightarrow> string gomap" where
  "templateDataEntries t = (case t_Data t of Some d \<Rightarrow> d | None \<Rightarrow> gm_empty)"

definition clearData :: "bool \<Rightarrow> UnifiedTemplateResult \<Rightarrow> UnifiedTemplateResult" where
  "clearData b u = (if b then u\<lparr>u_Data := gm_empty\<rparr> else u)"

definition inlineStage ::
    "env \<Rightarrow> ExternalSecretTemplate \<Rightarrow> string gomap \<Rightarrow> UnifiedTemplateResult \<Rightarrow> UnifiedTemplateResult \<times> strset" where
  "inlineStage E t data u = (case t_Data t of
      None \<Rightarrow> (u, [])
    | Some entries \<Rightarrow>
        if gm_len entries > 0 then inlineTemplates E data entries (clearData (isReplaceMode t) u, []) else (u, []))"

definition templateFromStage ::
    "env \<Rightarrow> ExternalSecret \<Rightarrow> ExternalSecretTemplate \<Rightarrow> string gomap \<Rightarrow> UnifiedTemplateResult \<times> strset
       \<Rightarrow> (UnifiedTemplateResult \<times> strset) io" where
  "templateFromStage E es t data acc =
     (if length (t_TemplateFrom t) > 0 then do {
        let (u, managedKeys) = acc;
        r \<leftarrow> processTemplateFromByTarget E es (t_TemplateFrom t) data;
        ret (case r of
            Inl err \<Rightarrow> (u\<lparr>u_FatalErrors := u_FatalErrors u @ [''TemplateFrom processing failed: '' @ err_msg err]\<rparr>,
                        managedKeys)
          | Inr templateFromResults \<Rightarrow>
              (let hasTemplateData = gm_len (templateDataEntries t) > 0;
                   hasDataTarget = gm_has templateFromResults TemplateTargetData
               in applyTargets E templateFromResults
                    (clearData (isReplaceMode t \<and> \<not> hasTemplateData \<and> hasDataTarget) u, managedKeys)))
      } else ret acc)"

definition managedStage :: "UnifiedTemplateResult \<times> strset \<Rightarrow> UnifiedTemplateResult" where
  "managedStage acc = (case acc of (u, managedKeys) \<Rightarrow>
     if length managedKeys > 0
     then u\<lparr>u_Annotations := gm_put (u_Annotations u) ManagedKeysAnnotation (Join (sort managedKeys) '','')\<rparr>
     else u)"

fun metaLabels :: "env \<Rightarrow> string gomap \<Rightarrow> string gomap \<Rightarrow> UnifiedTemplateResult \<Rightarrow> UnifiedTemplateResult" where
  "metaLabels E data [] u = u"
| "metaLabels E data ((key, templateStr) # rest) u = metaLabels E data rest
     (case executeTemplate E templateStr data of
        Inl err \<Rightarrow> u\<lparr>u_Errors := u_Errors u @ [''metadata label template '' @ key @ '' processing failed: '' @ err_msg err]\<rparr>
      | Inr v \<Rightarrow> if isValidLabelKey E key
           then u\<lparr>u_Labels := gm_put (u_Labels u) key v, u_MetadataTemplatesProcessed := u_MetadataTemplatesProcessed u + 1\<rparr>
           else u)"

fun metaAnnotations :: "env \<Rightarrow> string gomap \<Rightarrow> string gomap \<Rightarrow> UnifiedTemplateResult \<Rightarrow> UnifiedTemplateResult" where
  "metaAnnotations E data [] u = u"
| "metaAnnotations E data ((key, templateStr) # rest) u = metaAnnotations E data rest
     (case executeTemplate E templateStr data of
        Inl err \<Rightarrow> u\<lparr>u_Errors := u_Errors u @ [''metadata annotation template '' @ key @ '' processing failed: '' @ err_msg err]\<rparr>
      | Inr v \<Rightarrow> if isValidAnnotationKey E key
           then u\<lparr>u_Annotations := gm_put (u_Annotations u) key v, u_MetadataTemplatesProcessed := u_MetadataTemplatesProcessed u + 1\<rparr>
           else u)"

definition metadataStage :: "env \<Rightarrow> ExternalSecretTemplate \<Rightarrow> string gomap \<Rightarrow> UnifiedTemplateResult \<Rightarrow> UnifiedTemplateResult" where
  "metadataStage E t data u = (case t_Metadata t of
      None \<Rightarrow> u
    | Some md \<Rightarrow> metaAnnotations E data (tm_Annotations md) (metaLabels E data (tm_Labels md) u))"

text \<open>The result, and the error that aborts the round.\<close>

definition ProcessAllTemplates ::
    "env \<Rightarrow> ExternalSecret \<Rightarrow> bytes gomap \<Rightarrow> (UnifiedTemplateResult \<times> goerror option) io" where
  "ProcessAllTemplates E es rawData =
     (if m_DeletionTimestamp (es_meta es) \<noteq> None then ret (rawResult rawData, None)
      else (case es_template es of
        None \<Rightarrow> ret (rawResult rawData, None)
      | Some t \<Rightarrow> do {
          let data = gm_overlay gm_empty rawData;
          acc \<leftarrow> templateFromStage E es t data (inlineStage E t data (rawResult rawData));
          let u = metadataStage E t data (managedStage acc);
          ret (u, if length (u_FatalErrors u) > 0
                  then Some (errorf (''fatal template processing errors: '' @ Join (u_FatalErrors u) ''; ''))
                  else None)
        }))"

section \<open>Facts\<close>

text \<open>The entries of a template map that render.\<close>

definition rendered :: "env \<Rightarrow> string gomap \<Rightarrow> string gomap \<Rightarrow> bytes gomap" where
  "rendered E data entries = List.map_filter (\<lambda>(k, t). case executeTemplate E t data of
      Inl _ \<Rightarrow> None | Inr v \<Rightarrow> Some (k, v)) entries"

definition parses :: "env \<Rightarrow> string \<Rightarrow> bool" where
  "parses E t \<longleftrightarrow> \<not> isl (e_template_Parse E t)"

lemma executeTemplate_Parse_iff:
  "(\<exists>err. executeTemplate E t data = Inl err \<and> errors_Is err TemplateParse) \<longleftrightarrow> \<not> parses E t"
  by (auto simp: executeTemplate_def errors_Is_def parses_def split: sum.splits)

lemma rendered_simps [simp]:
  "rendered E data [] = []"
  "rendered E data ((k, t) # xs) = (case executeTemplate E t data of
      Inl _ \<Rightarrow> rendered E data xs | Inr v \<Rightarrow> (k, v) # rendered E data xs)"
  by (auto simp: rendered_def List.map_filter_simps split: sum.splits)

lemma rendered_in: "(k, v) \<in> set (rendered E data xs) \<Longrightarrow> \<exists>t. (k, t) \<in> set xs \<and> executeTemplate E t data = Inr v"
  by (auto simp: rendered_def List.map_filter_def split: sum.splits)

lemma rendered_keys: "set (map fst (rendered E data xs)) \<subseteq> set (map fst xs)"
  by (force dest: rendered_in)

lemma gm_ok_rendered: "gm_ok xs \<Longrightarrow> gm_ok (rendered E data xs)"
proof (induction xs)
  case (Cons x xs)
  obtain k t where x: "x = (k, t)" by fastforce
  with Cons.prems have "gm_ok xs" "k \<notin> set (map fst xs)" by (auto simp: gm_ok_def)
  with Cons.IH have "gm_ok (rendered E data xs)" "k \<notin> set (map fst (rendered E data xs))"
    using rendered_keys [of E data xs] by blast+
  then show ?case using x by (simp add: gm_ok_def split: sum.splits)
qed (simp add: gm_ok_def)

lemma gm_get_rendered:
  "gm_ok xs \<Longrightarrow> gm_get (rendered E data xs) k = (case gm_get xs k of
      None \<Rightarrow> None | Some t \<Rightarrow> (case executeTemplate E t data of Inl _ \<Rightarrow> None | Inr v \<Rightarrow> Some v))"
proof (induction xs)
  case (Cons x xs)
  obtain k' t where x: "x = (k', t)" by fastforce
  then have "gm_ok xs" and no: "map_of xs k' = None"
    using Cons.prems by (auto simp: gm_ok_def map_of_eq_None_iff)
  then show ?case using Cons.IH x
    by (auto simp: gm_get_def split: sum.splits option.splits)
qed (simp add: gm_get_def)

lemma inlineTemplates_data:
  "u_Data (fst (inlineTemplates E data xs (u, mk))) = gm_overlay (u_Data u) (rendered E data xs)"
  by (induction xs arbitrary: u mk) (auto split: sum.splits)

lemma inlineTemplates_managed:
  "snd (inlineTemplates E data xs (u, mk)) = addKeys (map fst (rendered E data xs)) mk"
  by (induction xs arbitrary: u mk) (auto split: sum.splits)

lemma inlineTemplates_meta [simp]:
  "u_Labels (fst (inlineTemplates E data xs (u, mk))) = u_Labels u"
  "u_Annotations (fst (inlineTemplates E data xs (u, mk))) = u_Annotations u"
  by (induction xs arbitrary: u mk) (auto split: sum.splits)

lemma inlineTemplates_fatal:
  "u_FatalErrors (fst (inlineTemplates E data xs (u, mk))) \<noteq> [] \<longleftrightarrow>
     u_FatalErrors u \<noteq> [] \<or> (\<exists>(k, t) \<in> set xs. \<not> parses E t)"
proof (induction xs arbitrary: u mk)
  case (Cons x xs)
  obtain k t where x: "x = (k, t)" by fastforce
  show ?case
  proof (cases "executeTemplate E t data")
    case (Inl err)
    then have "errors_Is err TemplateParse \<longleftrightarrow> \<not> parses E t"
      using executeTemplate_Parse_iff [of E t data] by auto
    then show ?thesis using Cons.IH Inl x by auto
  next
    case (Inr v)
    then have "parses E t" using executeTemplate_Parse_iff [of E t data] by auto
    then show ?thesis using Cons.IH Inr x by auto
  qed
qed simp

text \<open>Loops over the results of TemplateFrom.\<close>

definition validData :: "bytes gomap \<Rightarrow> bytes gomap" where
  "validData m = filter (\<lambda>(k, v). isValidSecretKey k) m"

lemma addData_data: "u_Data (fst (addData m (u, mk))) = gm_overlay (u_Data u) (validData m)"
  by (induction m arbitrary: u mk) (auto simp: validData_def)

lemma addData_managed: "snd (addData m (u, mk)) = addKeys (map fst (validData m)) mk"
  by (induction m arbitrary: u mk) (auto simp: validData_def)

lemma addData_other [simp]:
  "u_Labels (fst (addData m (u, mk))) = u_Labels u"
  "u_Annotations (fst (addData m (u, mk))) = u_Annotations u"
  "u_FatalErrors (fst (addData m (u, mk))) = u_FatalErrors u"
  by (induction m arbitrary: u mk) auto

lemma addAnnotations_other [simp]:
  "u_Data (addAnnotations E m u) = u_Data u" "u_Labels (addAnnotations E m u) = u_Labels u"
  "u_FatalErrors (addAnnotations E m u) = u_FatalErrors u"
  by (induction m arbitrary: u) auto

lemma addLabels_other [simp]:
  "u_Data (addLabels E m u) = u_Data u" "u_Annotations (addLabels E m u) = u_Annotations u"
  "u_FatalErrors (addLabels E m u) = u_FatalErrors u"
  by (induction m arbitrary: u) auto

definition metadataTarget :: "string \<Rightarrow> bool" where
  "metadataTarget target \<longleftrightarrow> target = TemplateTargetAnnotations \<or> target = TemplateTargetLabels"

lemma applyTargets_metadata_only:
  "\<forall>(t, d) \<in> set m. metadataTarget t \<Longrightarrow>
   u_Data (fst (applyTargets E m (u, mk))) = u_Data u \<and> snd (applyTargets E m (u, mk)) = mk"
proof (induction m arbitrary: u mk)
  case (Cons x m)
  obtain t d where x: "x = (t, d)" by fastforce
  show ?case using Cons x by (auto simp: Let_def metadataTarget_def split_beta)
qed simp

lemma applyTargets_fatal [simp]: "u_FatalErrors (fst (applyTargets E m (u, mk))) = u_FatalErrors u"
  by (induction m arbitrary: u mk) (auto simp: Let_def split_beta)

lemma metaLabels_other [simp]:
  "u_Data (metaLabels E data m u) = u_Data u" "u_FatalErrors (metaLabels E data m u) = u_FatalErrors u"
  "u_Annotations (metaLabels E data m u) = u_Annotations u"
  by (induction m arbitrary: u) (auto split: sum.splits)

lemma metaAnnotations_other [simp]:
  "u_Data (metaAnnotations E data m u) = u_Data u" "u_FatalErrors (metaAnnotations E data m u) = u_FatalErrors u"
  "u_Labels (metaAnnotations E data m u) = u_Labels u"
  by (induction m arbitrary: u) (auto split: sum.splits)

lemma metadataStage_other [simp]:
  "u_Data (metadataStage E t data u) = u_Data u"
  "u_FatalErrors (metadataStage E t data u) = u_FatalErrors u"
  by (auto simp: metadataStage_def split: option.splits)

lemma managedStage_other [simp]:
  "u_Data (managedStage acc) = u_Data (fst acc)" "u_FatalErrors (managedStage acc) = u_FatalErrors (fst acc)"
  by (auto simp: managedStage_def split: prod.splits)

lemma emits_processTemplateFromRef [emits_intros]:
  "(\<And>ns n. P (GetConfigMap ns n)) \<Longrightarrow> emits P (processConfigMapTemplate E r ns data)"
  "(\<And>ns n. P (GetSecret ns n)) \<Longrightarrow> emits P (processSecretTemplate E r ns data)"
  unfolding processConfigMapTemplate_def processSecretTemplate_def processTemplateFromRef_def api_defs
  by (intro emits_intros; simp)+

lemma emits_processTemplateFromByTarget [emits_intros]:
  "(\<And>ns n. P (GetConfigMap ns n)) \<Longrightarrow> (\<And>ns n. P (GetSecret ns n)) \<Longrightarrow>
   emits P (processTemplateFromByTarget E es tfs data)"
  unfolding processTemplateFromByTarget_def by (intro emits_intros; simp)

lemma emits_ProcessAllTemplates [emits_intros]:
  "(\<And>ns n. P (GetConfigMap ns n)) \<Longrightarrow> (\<And>ns n. P (GetSecret ns n)) \<Longrightarrow>
   emits P (ProcessAllTemplates E es raw)"
  unfolding ProcessAllTemplates_def templateFromStage_def by (intro emits_intros; simp)

lemma post_refs:
  "post (processConfigMapTemplate E r ns data) (\<lambda>_ n. list_all (\<lambda>_. True) n)"
  "post (processSecretTemplate E r ns data) (\<lambda>_ n. list_all (\<lambda>_. True) n)"
  by (intro post_of_emits emits_intros; simp)+

lemma keys_put: "set (map fst (gm_put m k v)) = insert k (set (map fst m))"
  by (simp add: gm_put_def dom_update)

lemma targets_grow:
  "set (map fst (addToTarget (withTarget res t) t d)) = insert t (set (map fst res))"
  "set (map fst (withTarget res t)) = insert t (set (map fst res))"
  by (auto simp: addToTarget_def withTarget_def keys_put gm_has_keys gm_keys_def simp del: set_map)

text \<open>The targets of the results are targets of the references.\<close>

lemma post_processTemplateFromByTarget:
  "post (processTemplateFromByTarget E es tfs data)
     (\<lambda>r _. case r of Inl e \<Rightarrow> True | Inr res \<Rightarrow> set (map fst res) \<subseteq> targetName ` set tfs)"
  unfolding processTemplateFromByTarget_def
proof (rule post_conseq [OF post_forE [where I = "\<lambda>res _. set (map fst res) \<subseteq> targetName ` set tfs"
      and R = "\<lambda>_ _. True" and ?n0.0 = "[]"]])
  fix b :: "bytes gomap gomap" and n x
  assume x: "x \<in> set tfs" and b: "set (map fst b) \<subseteq> targetName ` set tfs"
  have fin: "post (ret (case r of Inl e \<Rightarrow> Inl e | Inr d \<Rightarrow> Inr (addToTarget (withTarget b (targetName x)) (targetName x) d)))
     (\<lambda>r n'. case r of Inl e \<Rightarrow> True | Inr res \<Rightarrow> set (map fst res) \<subseteq> targetName ` set tfs)" for r :: "(bytes gomap) res"
    using x b by (cases r) (auto simp del: set_map simp: targets_grow intro!: post_ret)
  show "post (let target = targetName x; results = withTarget b target;
               finish = \<lambda>r. case r of Inl e \<Rightarrow> Inl e | Inr d \<Rightarrow> Inr (addToTarget results target d)
           in case tf_ConfigMap x of
             Some cm \<Rightarrow> do { r \<leftarrow> processConfigMapTemplate E cm (es_Namespace es) data; ret (finish r) }
           | None \<Rightarrow> (case tf_Secret x of
               Some sec \<Rightarrow> do { r \<leftarrow> processSecretTemplate E sec (es_Namespace es) data; ret (finish r) }
             | None \<Rightarrow> (case tf_Literal x of
                 Some lit \<Rightarrow> ret (finish (processLiteralTemplate E lit data))
               | None \<Rightarrow> ret (Inr results))))
     (\<lambda>r n'. case r of Inl e \<Rightarrow> True | Inr res \<Rightarrow> set (map fst res) \<subseteq> targetName ` set tfs)"
    using x b unfolding Let_def
    by (intro post_option post_bind [OF post_refs(1)] post_bind [OF post_refs(2)] fin)
      (auto simp del: set_map simp: targets_grow intro!: post_ret)
qed (auto simp: gm_empty_def split: sum.splits)

text \<open>One round for a template without TemplateFrom references is a pure function.\<close>

lemma ProcessAllTemplates_inline:
  assumes "m_DeletionTimestamp (es_meta es) = None" "es_template es = Some t" "t_TemplateFrom t = []"
  shows "result (ProcessAllTemplates E es raw) p =
     (let data = gm_overlay gm_empty raw;
          u = metadataStage E t data (managedStage (inlineStage E t data (rawResult raw)))
      in (u, if length (u_FatalErrors u) > 0
             then Some (errorf (''fatal template processing errors: '' @ Join (u_FatalErrors u) ''; '')) else None))"
  using assms by (simp add: ProcessAllTemplates_def templateFromStage_def run_simps Let_def)

lemma inlineStage_eq:
  "t_Data t = Some entries \<Longrightarrow> entries \<noteq> gm_empty \<Longrightarrow>
   inlineStage E t data u = inlineTemplates E data entries (clearData (isReplaceMode t) u, [])"
  by (cases entries) (auto simp: inlineStage_def gm_len_def gm_empty_def)

lemma u_Data_start [simp]: "u_Data (clearData b (rawResult raw)) = (if b then gm_empty else gm_overlay gm_empty raw)"
  by (simp add: clearData_def rawResult_def)

lemma fatal_start [simp]: "u_FatalErrors (clearData b (rawResult raw)) = []"
  by (simp add: clearData_def rawResult_def)

lemma addKeys_distinct: "distinct (s @ ks) \<Longrightarrow> addKeys ks s = s @ ks"
  by (induction ks s rule: addKeys.induct) (auto simp: ss_add_def)

lemma addKeys_nil: "distinct ks \<Longrightarrow> addKeys ks [] = ks"
  using addKeys_distinct [of "[]" ks] by simp

section \<open>Properties\<close>

text \<open>The resource of the examples: one inline template, or one label reference.\<close>

definition demoTemplate :: ExternalSecretTemplate where
  "demoTemplate = \<lparr>t_Data = Some [(''a'', ''x'')], t_TemplateFrom = [], t_Metadata = None, t_Type = [],
     t_MergePolicy = []\<rparr>"

definition demoLabels :: ExternalSecretTemplate where
  "demoLabels = \<lparr>t_Data = None,
     t_TemplateFrom = [\<lparr>tf_ConfigMap = None, tf_Secret = None, tf_Target = TemplateTargetLabels, tf_Literal = Some ''v''\<rparr>],
     t_Metadata = None, t_Type = [], t_MergePolicy = []\<rparr>"

definition demoES :: "ExternalSecretTemplate \<Rightarrow> ExternalSecret" where
  "demoES t = emptyExternalSecret\<lparr>es_Spec := (es_Spec emptyExternalSecret)\<lparr>sp_Target := Some \<lparr>tg_Name = [],
     tg_Template = Some t\<rparr>\<rparr>\<rparr>"

lemma demo_simps [simp]:
  "m_DeletionTimestamp (es_meta (demoES t)) = None" "es_template (demoES t) = Some t"
  "t_TemplateFrom demoTemplate = []" "t_Data demoTemplate = Some [(''a'', ''x'')]" "t_Metadata demoTemplate = None"
  "isReplaceMode demoTemplate" "executeTemplate sampleEnv s d = Inr s"
  by (simp_all add: demoES_def emptyExternalSecret_def noMeta_def es_template_def demoTemplate_def isReplaceMode_def
      executeTemplate_def sampleEnv_def)

text \<open>Inline data templates: every key of \<open>spec.target.template.data\<close> whose template renders
  gets its rendered value; under the Replace policy nothing else remains, under the Merge policy
  the fetched data remains for all other keys (a template that fails keeps the fetched value).\<close>

theorem inline_template_data:
  assumes "m_DeletionTimestamp (es_meta es) = None" "es_template es = Some t" "t_TemplateFrom t = []"
    and "t_Data t = Some entries" "entries \<noteq> gm_empty" "gm_ok entries" "gm_ok raw"
  shows "gm_get (u_Data (fst (result (ProcessAllTemplates E es raw) p))) k =
    (case gm_get entries k of
       Some s \<Rightarrow> (case executeTemplate E s (gm_overlay gm_empty raw) of
                    Inr v \<Rightarrow> Some v
                  | Inl _ \<Rightarrow> if isReplaceMode t then None else gm_get raw k)
     | None \<Rightarrow> if isReplaceMode t then None else gm_get raw k)"
proof -
  let ?data = "gm_overlay gm_empty raw"
  have "u_Data (fst (result (ProcessAllTemplates E es raw) p)) =
      gm_overlay (u_Data (clearData (isReplaceMode t) (rawResult raw))) (rendered E ?data entries)"
    by (simp add: ProcessAllTemplates_inline [OF assms(1-3)] inlineStage_eq [OF assms(4,5)] inlineTemplates_data Let_def)
  then show ?thesis
    using assms(6,7) by (simp add: gm_get_overlay gm_ok_rendered gm_get_rendered split: option.splits sum.splits)
qed

theorem inline_template_data_witness:
  "gm_get (u_Data (fst (result (ProcessAllTemplates sampleEnv (demoES demoTemplate) [(''b'', ''raw'')]) sampleProc))) ''a'' = Some ''x''"
  using inline_template_data [of "demoES demoTemplate" demoTemplate "[(''a'', ''x'')]" "[(''b'', ''raw'')]" sampleEnv sampleProc "''a''"]
  by (simp add: gm_empty_def gm_ok_def gm_get_def)

text \<open>A TemplateFrom list that only targets labels and annotations never clears the fetched
  data, whatever the merge policy and whatever the references yield.\<close>

theorem metadata_only_template_keeps_data:
  assumes "es_template es = Some t" "templateDataEntries t = gm_empty"
    and "\<forall>tf \<in> set (t_TemplateFrom t). metadataTarget (targetName tf)" "gm_ok raw"
  shows "gm_get (u_Data (fst (result (ProcessAllTemplates E es raw) p))) = gm_get raw"
proof (cases "m_DeletionTimestamp (es_meta es) = None \<and> t_TemplateFrom t \<noteq> []")
  case False
  have "inlineStage E t d u = (u, [])" for d u
    using assms(2) by (auto simp: inlineStage_def templateDataEntries_def split: option.splits)
  with False assms(1,4) show ?thesis
    by (auto simp: ProcessAllTemplates_def templateFromStage_def run_simps rawResult_def Let_def)
next
  case True
  let ?data = "gm_overlay gm_empty raw"
  have inl: "inlineStage E t d u = (u, [])" for d u
    using assms(2) by (auto simp: inlineStage_def templateDataEntries_def split: option.splits)
  let ?r = "result (processTemplateFromByTarget E es (t_TemplateFrom t) ?data) p"
  have targets: "\<forall>(tg, d) \<in> set m. metadataTarget tg" if "?r = Inr m" for m
    using post_new_events [OF post_processTemplateFromByTarget [of E es "t_TemplateFrom t" ?data], of p] that assms(3)
    by fastforce
  have nd: "\<not> metadataTarget TemplateTargetData"
    by (simp add: metadataTarget_def TemplateTargetData_def TemplateTargetAnnotations_def TemplateTargetLabels_def)
  have "u_Data (fst (result (templateFromStage E es t ?data (rawResult raw, [])) p)) = ?data"
  proof (cases ?r)
    case (Inl e)
    with True show ?thesis by (simp add: templateFromStage_def run_simps rawResult_def)
  next
    case (Inr m)
    have "\<not> gm_has m TemplateTargetData"
      using targets [OF Inr] nd by (auto simp: gm_has_keys gm_keys_def)
    then show ?thesis using True Inr applyTargets_metadata_only [OF targets [OF Inr]]
      by (simp add: templateFromStage_def run_simps clearData_def rawResult_def)
  qed
  then show ?thesis using True assms(1,4) inl
    by (simp add: ProcessAllTemplates_def run_simps Let_def)
qed

theorem metadata_only_template_keeps_data_witness:
  "gm_get (u_Data (fst (result (ProcessAllTemplates sampleEnv (demoES demoLabels) [(''b'', ''raw'')]) sampleProc))) ''b'' = Some ''raw''"
  using metadata_only_template_keeps_data [of "demoES demoLabels" demoLabels "[(''b'', ''raw'')]" sampleEnv sampleProc]
  by (simp add: templateDataEntries_def demoLabels_def targetName_def metadataTarget_def TemplateTargetLabels_def gm_ok_def gm_get_def)

text \<open>Without TemplateFrom references a round is aborted exactly when some inline data template
  does not parse: an execution failure never aborts it.\<close>

theorem parse_error_is_fatal:
  assumes "m_DeletionTimestamp (es_meta es) = None" "es_template es = Some t" "t_TemplateFrom t = []"
  shows "snd (result (ProcessAllTemplates E es raw) p) \<noteq> None \<longleftrightarrow>
    list_ex (\<lambda>(k, s). \<not> parses E s) (templateDataEntries t)"
proof (cases "templateDataEntries t = gm_empty")
  case True
  have "inlineStage E t d u = (u, [])" for d u
    using True by (auto simp: inlineStage_def templateDataEntries_def split: option.splits)
  then show ?thesis using True
    by (simp add: ProcessAllTemplates_inline [OF assms] Let_def rawResult_def gm_empty_def)
next
  case False
  then have d: "t_Data t = Some (templateDataEntries t)"
    by (auto simp: templateDataEntries_def split: option.splits)
  show ?thesis
    by (simp add: ProcessAllTemplates_inline [OF assms] inlineStage_eq [OF d False] Let_def
        inlineTemplates_fatal list_ex_iff)
qed

theorem parse_error_is_fatal_witness:
  "snd (result (ProcessAllTemplates (sampleEnv\<lparr>e_template_Parse := \<lambda>_. Inl (errorf [])\<rparr>) (demoES demoTemplate) []) sampleProc) \<noteq> None"
  using parse_error_is_fatal [of "demoES demoTemplate" demoTemplate "sampleEnv\<lparr>e_template_Parse := \<lambda>_. Inl (errorf [])\<rparr>" "[]" sampleProc]
  by (simp add: templateDataEntries_def parses_def)

text \<open>The managed-keys annotation lists, sorted and joined with commas, exactly the keys whose
  inline templates rendered.\<close>

theorem managed_keys_annotation:
  assumes "m_DeletionTimestamp (es_meta es) = None" "es_template es = Some t" "t_TemplateFrom t = []"
    and "t_Metadata t = None" "t_Data t = Some entries" "entries \<noteq> gm_empty" "gm_ok entries"
  shows "gm_get (u_Annotations (fst (result (ProcessAllTemplates E es raw) p))) ManagedKeysAnnotation =
    (let ks = map fst (rendered E (gm_overlay gm_empty raw) entries)
     in if ks = [] then None else Some (Join (sort ks) '',''))"
proof -
  let ?data = "gm_overlay gm_empty raw"
  let ?i = "inlineTemplates E ?data entries (clearData (isReplaceMode t) (rawResult raw), [])"
  have ann: "u_Annotations (fst ?i) = gm_empty" by (simp add: clearData_def rawResult_def)
  have "distinct (map fst (rendered E ?data entries))"
    using gm_ok_rendered [OF assms(7)] by (simp add: gm_ok_def)
  then have mk: "snd ?i = map fst (rendered E ?data entries)"
    by (simp add: inlineTemplates_managed addKeys_nil)
  have "fst (result (ProcessAllTemplates E es raw) p) = managedStage ?i"
    using assms(4) by (simp add: ProcessAllTemplates_inline [OF assms(1-3)] inlineStage_eq [OF assms(5,6)]
      metadataStage_def Let_def)
  then show ?thesis using ann mk by (cases ?i) (auto simp: managedStage_def Let_def)
qed

theorem managed_keys_annotation_witness:
  "gm_get (u_Annotations (fst (result (ProcessAllTemplates sampleEnv (demoES demoTemplate) []) sampleProc))) ManagedKeysAnnotation = Some ''a''"
  using managed_keys_annotation [of "demoES demoTemplate" demoTemplate "[(''a'', ''x'')]" sampleEnv "[]" sampleProc]
  by (simp add: gm_empty_def gm_ok_def)

end
