(* ===== verification/Es_Reconcile.thy ===== *)
theory Es_Reconcile
  imports Es_Watch Templates
begin

text \<open>
  One reconcile round of an ExternalSecret, \<open>externalsecret_controller.go\<close>: \<open>Reconcile\<close>, the
  deletion path and \<open>syncIfNeedUpdate\<close>, whose body is split at its early returns into the stages
  below (acquire, fetch, judge, render, write). The object in hand is threaded through, since every
  status write replaces it. A result is the requeue delay in nanoseconds (0 for none) and an error.
\<close>

definition secretFinalizer :: string where
  "secretFinalizer = ''finalizer.ack.secrets-manager.alibabacloud.com''"

definition storeClientStaleRetryInterval :: int where "storeClientStaleRetryInterval = 2000000000"

type_synonym reconcile_result = "int \<times> goerror option"

section \<open>Helpers\<close>

definition IgnoreNotFoundError :: "goerror \<Rightarrow> goerror option" where
  "IgnoreNotFoundError e = (if errors_Is e NotFound then None else Some e)"

definition RequeueAfter :: "ExternalSecretReconciler \<Rightarrow> int \<Rightarrow> int" where
  "RequeueAfter r duration = (if rc_DisablePolling r then 0 else duration)"

definition getCurrentData ::
    "env \<Rightarrow> string \<Rightarrow> string \<Rightarrow> (bytes gomap \<times> string gomap \<times> string gomap \<times> goerror option) io" where
  "getCurrentData E namespace name = do {
     got \<leftarrow> readSecret E namespace name;
     ret (case got of
         Inl err \<Rightarrow> (gm_empty, gm_empty, gm_empty, Some err)
       | Inr s \<Rightarrow> (gm_overlay gm_empty (sec_Data s), gm_overlay gm_empty (m_Labels (sec_meta s)),
                   gm_overlay gm_empty (m_Annotations (sec_meta s)), None))
   }"

definition updateSecret ::
    "env \<Rightarrow> ExternalSecretReconciler \<Rightarrow> ExternalSecret \<Rightarrow> bytes gomap option \<Rightarrow> metadata_targets \<Rightarrow> unit res io" where
  "updateSecret E r es secretMap metadataTargets =
     HandleSecretOperation E (rc_CleanUpSecretOnFailure r) es
       (case secretMap of None \<Rightarrow> gm_empty | Some m \<Rightarrow> m) metadataTargets"

definition isNamespaceTerminating :: "env \<Rightarrow> string \<Rightarrow> bool res io" where
  "isNamespaceTerminating E namespace = do {
     got \<leftarrow> getNamespace E namespace;
     ret (case got of Inl e \<Rightarrow> Inl e | Inr ns \<Rightarrow> Inr (ns_Phase ns = ''Terminating''))
   }"

definition addFinalizer :: "env \<Rightarrow> ExternalSecret \<Rightarrow> (ExternalSecret \<times> goerror option) io" where
  "addFinalizer E es = do {
     let es' = es\<lparr>es_meta := (es_meta es)\<lparr>m_Finalizers := es_Finalizers es @ [secretFinalizer]\<rparr>\<rparr>;
     r \<leftarrow> updateES E es';
     ret (case r of Inl e \<Rightarrow> (es', Some e) | Inr stored \<Rightarrow> (stored, None))
   }"

text \<open>\<open>ProviderLimiter.Wait\<close> of \<open>pull_limit.go\<close>.\<close>

definition limiterWait :: "env \<Rightarrow> bool \<Rightarrow> string \<Rightarrow> goerror option io" where
  "limiterWait E limiter providerName =
     (if \<not> limiter then ret (Some (errorf ''secret pull limiter is empty''))
      else call (\<lambda>_. LimiterWait providerName) (\<lambda>t. e_LimiterWait E t providerName))"

section \<open>Deletion\<close>

definition finalizeExternalSecret :: "env \<Rightarrow> ExternalSecret \<Rightarrow> string \<Rightarrow> unit res io" where
  "finalizeExternalSecret E es secretName = do {
     got \<leftarrow> getSecret E (es_Namespace es) secretName;
     case got of
       Inl err \<Rightarrow> if errors_Is err NotFound then cleanupEndpointClients E es
                  else ret (Inl (wrap_w ''failed to get secret: '' err))
     | Inr secret \<Rightarrow> do {
         del \<leftarrow> deleteSecret E (m_Namespace (sec_meta secret)) (m_Name (sec_meta secret));
         case del of
           Inl e \<Rightarrow> if errors_Is e NotFound then cleanupEndpointClients E es
                    else ret (Inl (wrap_w ''failed to delete secret: '' e))
         | Inr _ \<Rightarrow> cleanupEndpointClients E es
       }
   }"

definition handleDeletion ::
    "env \<Rightarrow> ExternalSecretReconciler \<Rightarrow> ExternalSecret \<Rightarrow> int \<Rightarrow> string \<Rightarrow> reconcile_result io" where
  "handleDeletion E r es rotationInterval secretName =
     (if \<not> Contains (es_Finalizers es) secretFinalizer then ret (RequeueAfter r rotationInterval, None)
      else do {
        fin \<leftarrow> finalizeExternalSecret E es secretName;
        case fin of
          Inl err \<Rightarrow> ret (rc_ReconciliationPeriod r, Some err)
        | Inr _ \<Rightarrow> do {
            u \<leftarrow> updateES E (es\<lparr>es_meta := (es_meta es)\<lparr>m_Finalizers := Remove (es_Finalizers es) secretFinalizer\<rparr>\<rparr>);
            ret (case u of
                Inl err \<Rightarrow> (RequeueAfter r (rc_ReconciliationPeriod r), Some err)
              | Inr _ \<Rightarrow> (RequeueAfter r rotationInterval, None))
          }
      })"

section \<open>The round\<close>

text \<open>What the fetch stage produced.\<close>

record round =
  rd_secretMap :: "bytes gomap"
  rd_dataErrors :: errmap
  rd_extractErrors :: errmap
  rd_dataSucceeded :: strset
  rd_extractSucceeded :: strset

text \<open>A system-level failure: recorded on the status, then returned.\<close>

definition failWith :: "env \<Rightarrow> ExternalSecret \<Rightarrow> string \<Rightarrow> goerror \<Rightarrow> 'a res io" where
  "failWith E es key err = do { _ \<leftarrow> updateResourceManagementStatus E es key err; ret (Inl err) }"

definition fetchSources :: "env \<Rightarrow> ExternalSecretReconciler \<Rightarrow> provider \<Rightarrow> ExternalSecret \<Rightarrow> round io" where
  "fetchSources E r pv es = do {
     (out1, errs1, succ1) \<leftarrow>
       (if length (sp_Data (es_Spec es)) \<noteq> 0
        then getExternalSecret E r pv (sp_Data (es_Spec es)) (es_Namespace es) else ret (gm_empty, gm_empty, []));
     (out2, errs2, succ2) \<leftarrow>
       (if length (sp_DataProcess (es_Spec es)) \<noteq> 0
        then getExternalSecretWithExtract E r pv (sp_DataProcess (es_Spec es)) (es_Namespace es)
        else ret (gm_empty, gm_empty, []));
     ret \<lparr>rd_secretMap = gm_overlay (gm_overlay gm_empty out1) out2,
       rd_dataErrors = gm_overlay gm_empty errs1, rd_extractErrors = gm_overlay gm_empty errs2,
       rd_dataSucceeded = succ1, rd_extractSucceeded = succ2\<rparr>
   }"

fun firstStale :: "errmap \<Rightarrow> goerror option" where
  "firstStale [] = None"
| "firstStale ((_, v) # rest) = (case v of
      Some e \<Rightarrow> if errors_Is e StoreClientStale then Some e else firstStale rest
    | None \<Rightarrow> firstStale rest)"

definition staleOf :: "round \<Rightarrow> goerror option" where
  "staleOf rd = (case firstStale (rd_dataErrors rd) of Some e \<Rightarrow> Some e | None \<Rightarrow> firstStale (rd_extractErrors rd))"

definition failedUncoveredOf :: "ExternalSecret \<Rightarrow> round \<Rightarrow> bool list" where
  "failedUncoveredOf es rd = failedUncoveredEntries es (rd_dataErrors rd) (rd_secretMap rd) (rd_dataSucceeded rd)"

text \<open>Total, failed and distinct failed keys.\<close>

definition countsOf :: "ExternalSecret \<Rightarrow> round \<Rightarrow> nat \<times> nat \<times> nat" where
  "countsOf es rd = countFailedSources es (failedUncoveredOf es rd) (rd_dataErrors rd) (rd_extractErrors rd)
     (rd_extractSucceeded rd)"

definition totalOf :: "ExternalSecret \<Rightarrow> round \<Rightarrow> nat" where "totalOf es rd = fst (countsOf es rd)"
definition failedKeysOf :: "ExternalSecret \<Rightarrow> round \<Rightarrow> nat" where "failedKeysOf es rd = snd (snd (countsOf es rd))"
definition allFailed :: "ExternalSecret \<Rightarrow> round \<Rightarrow> bool" where
  "allFailed es rd \<longleftrightarrow> fst (countsOf es rd) > 0 \<and> fst (snd (countsOf es rd)) = fst (countsOf es rd)"

text \<open>The pre-template guard: the message it records, when it triggers.\<close>

definition zeroOutputGuard :: "ExternalSecret \<Rightarrow> round \<Rightarrow> bytes gomap \<Rightarrow> goerror option" where
  "zeroOutputGuard es rd currentData =
     (let tot = totalOf es rd; failedKeyCount = failedKeysOf es rd; templateConfigured = es_template es \<noteq> None
      in if hasDeclaredSourcesButZeroOutput tot failedKeyCount (gm_len (rd_secretMap rd)) \<or>
            hasNoDeclaredSourcesButExistingData tot templateConfigured (gm_len currentData)
         then if hasDeclaredSourcesButZeroOutput tot failedKeyCount (gm_len (rd_secretMap rd))
              then Some (errorf (''declared '' @ string_of_nat tot @
                     '' data source(s) produced 0 keys with 0 errors; secret write skipped and deletion withheld''))
              else Some (errorf (''no data source declared but existing Secret holds '' @ string_of_nat (gm_len currentData) @
                     '' key(s); secret write skipped and deletion withheld''))
         else None)"

section \<open>Rendering\<close>

text \<open>The variables the template stage sets; a result of \<open>None\<close> is the nil pointer.\<close>

record tstate =
  ts_es :: ExternalSecret
  ts_secretMap :: "bytes gomap"
  ts_result :: "UnifiedTemplateResult option"
  ts_processed :: bool
  ts_targets :: metadata_targets
  ts_placeholder :: bool

definition cssNotice :: "env \<Rightarrow> ExternalSecretReconciler \<Rightarrow> ExternalSecret \<Rightarrow> (bool \<times> ExternalSecret) io" where
  "cssNotice E r es =
     (if \<not> rc_ProcessClusterSecretStore r \<and> length (disabledCSSReferences es) > 0
      then recordCSSControllerDisabledStatus E es (disabledCSSReferences es) else ret (False, es))"

definition hasMetadata :: "UnifiedTemplateResult \<Rightarrow> bool" where
  "hasMetadata u \<longleftrightarrow> gm_len (u_Annotations u) > 0 \<or> gm_len (u_Labels u) > 0"

definition metadataTargetsOf :: "UnifiedTemplateResult \<Rightarrow> metadata_targets" where
  "metadataTargetsOf u =
     (if hasMetadata u
      then Some ((if gm_len (u_Annotations u) > 0 then [(''annotations'', u_Annotations u)] else []) @
                 (if gm_len (u_Labels u) > 0 then [(''labels'', u_Labels u)] else []))
      else None)"

definition renderWarnings ::
    "env \<Rightarrow> ExternalSecret \<Rightarrow> UnifiedTemplateResult \<Rightarrow> bool \<Rightarrow> (bool \<times> ExternalSecret) io" where
  "renderWarnings E es u placeholder =
     (if length (u_Errors u) > 0 then do {
        es' \<leftarrow> updateResourceManagementStatus E es ''template_processing_warnings''
                 (errorf (''template processing completed with warnings: '' @ Join (u_Errors u) ''; ''));
        ret (True, es')
      } else ret (placeholder, es))"

definition zeroRenderError :: "nat \<Rightarrow> nat \<Rightarrow> goerror" where
  "zeroRenderError preTemplateKeys existingKeys =
     (if preTemplateKeys > 0
      then errorf ''template rendering produced 0 data keys while source data was non-empty; secret write skipped and deletion withheld''
      else errorf (''no data source declared but existing Secret holds '' @ string_of_nat existingKeys @
             '' key(s) and template rendering produced 0 data keys; secret write skipped and deletion withheld''))"

text \<open>\<open>Inl\<close> is the early return of the round; the failure counts are those of \<open>es0\<close>.\<close>

definition templateStage ::
    "env \<Rightarrow> ExternalSecret \<Rightarrow> round \<Rightarrow> bytes gomap \<Rightarrow> bool \<Rightarrow> ExternalSecret \<Rightarrow> (bool res + tstate) io" where
  "templateStage E es0 rd currentData placeholder es =
     (if es_template es = None
      then ret (Inr \<lparr>ts_es = es, ts_secretMap = rd_secretMap rd, ts_result = None, ts_processed = False,
                  ts_targets = None, ts_placeholder = placeholder\<rparr>)
      else do {
        (u, err) \<leftarrow> ProcessAllTemplates E es (rd_secretMap rd);
        case err of
          Some e \<Rightarrow>
            if failedKeysOf es0 rd > 0 \<or> allFailed es0 rd then do {
              es' \<leftarrow> updateResourceManagementStatus E es ''template_processing_errors'' e;
              ret (Inr \<lparr>ts_es = es', ts_secretMap = rd_secretMap rd, ts_result = None, ts_processed = True,
                     ts_targets = None, ts_placeholder = True\<rparr>)
            }
            else do { res \<leftarrow> failWith E es ''template_processing_fatal'' e; ret (Inl res) }
        | None \<Rightarrow> do {
            (placeholder', es') \<leftarrow> renderWarnings E es u placeholder;
            if templateRenderedZeroOutput (failedKeysOf es0 rd) (gm_len (u_Data u)) (gm_len (rd_secretMap rd)) (gm_len currentData)
            then do {
              _ \<leftarrow> updateResourceManagementStatus E es' ''template_zero_output_guard''
                     (zeroRenderError (gm_len (rd_secretMap rd)) (gm_len currentData));
              ret (Inl (Inr False))
            }
            else ret (Inr \<lparr>ts_es = es', ts_secretMap = u_Data u, ts_result = Some u, ts_processed = True,
                        ts_targets = metadataTargetsOf u, ts_placeholder = placeholder'\<rparr>)
          }
      })"

section \<open>Writing\<close>

fun applied :: "string gomap \<Rightarrow> string gomap \<Rightarrow> bool" where
  "applied [] current = True"
| "applied ((k, v) # rest) current = (if gm_str current k \<noteq> v then False else applied rest current)"

definition templateMetadataTargetsApplied :: "metadata_targets \<Rightarrow> string gomap \<Rightarrow> string gomap \<Rightarrow> bool" where
  "templateMetadataTargetsApplied metadataTargets currentLabels currentAnnotations =
     (if (case metadataTargets of None \<Rightarrow> True | Some m \<Rightarrow> gm_len m = 0) then False
      else applied (targetsOf metadataTargets ''labels'') currentLabels \<and>
           applied (targetsOf metadataTargets ''annotations'') currentAnnotations)"

text \<open>\<open>reflect.DeepEqual\<close> of the dataset with the current data, which is never nil.\<close>

definition sameData :: "bytes gomap option \<Rightarrow> bytes gomap \<Rightarrow> bool" where
  "sameData writeData currentData = (case writeData of None \<Rightarrow> False | Some w \<Rightarrow> gm_eq w currentData)"

definition metadataNeedsUpdate :: "tstate \<Rightarrow> string gomap \<Rightarrow> string gomap \<Rightarrow> bool" where
  "metadataNeedsUpdate ts currentLabels currentAnnotations \<longleftrightarrow>
     (case (ts_processed ts, ts_result ts) of (True, Some u) \<Rightarrow> hasMetadata u | _ \<Rightarrow> False) \<and>
     \<not> templateMetadataTargetsApplied (ts_targets ts) currentLabels currentAnnotations"

text \<open>The counts are those computed before rendering, on the object \<open>es\<close> of the fetch; the merge and
  the write use the object the last status update left.\<close>

definition writeStage ::
    "env \<Rightarrow> ExternalSecretReconciler \<Rightarrow> ExternalSecret \<Rightarrow> round \<Rightarrow> bytes gomap \<times> string gomap \<times> string gomap \<Rightarrow> tstate
       \<Rightarrow> bool res io" where
  "writeStage E r es rd cur ts = (case cur of (currentData, currentLabels, currentAnnotations) \<Rightarrow> do {
     es2 \<leftarrow> updateExternalSecretStatus E r (ts_es ts) (rd_dataErrors rd) (rd_extractErrors rd) (rd_secretMap rd)
              (rd_dataSucceeded rd) (rd_extractSucceeded rd) (\<not> ts_placeholder ts) False;
     if shouldSkipSecretWrite (gm_len (ts_secretMap ts)) (failedKeysOf es rd) (allFailed es rd)
          (rc_CleanUpSecretOnFailure r) (ts_processed ts)
     then ret (Inr False)
     else do {
       let writeData = resolveWriteData (rc_CleanUpSecretOnFailure r) es2 (rd_dataErrors rd) (rd_extractErrors rd)
             (ts_secretMap ts) currentData (allFailed es rd) (failedKeysOf es rd) (ts_processed ts);
       if \<not> (sameData writeData currentData \<and> \<not> metadataNeedsUpdate ts currentLabels currentAnnotations)
       then do {
         w \<leftarrow> updateSecret E r es2 writeData (ts_targets ts);
         case w of
           Inl err \<Rightarrow> failWith E es2 ''update_operation'' err
         | Inr _ \<Rightarrow> do {
             _ \<leftarrow> updateExternalSecretStatus E r es2 (rd_dataErrors rd) (rd_extractErrors rd) (rd_secretMap rd)
                    (rd_dataSucceeded rd) (rd_extractSucceeded rd) (\<not> ts_placeholder ts) True;
             ret (Inr True)
           }
       }
       else ret (Inr False)
     }
   })"

text \<open>After the fetch: read the current Secret, judge, render, write.\<close>

definition judgeAndWrite ::
    "env \<Rightarrow> ExternalSecretReconciler \<Rightarrow> ExternalSecret \<Rightarrow> round \<Rightarrow> bool res io" where
  "judgeAndWrite E r es rd = do {
     (currentData, currentLabels, currentAnnotations, err) \<leftarrow> getCurrentData E (es_Namespace es) (target_secret_name es);
     case (case err of Some e \<Rightarrow> if errors_Is e NotFound then None else Some e | None \<Rightarrow> None) of
       Some e \<Rightarrow> do {
         c \<leftarrow> ctxErr E;
         case c of Some ce \<Rightarrow> ret (Inl ce) | None \<Rightarrow> failWith E es ''state_retrieval'' e
       }
     | None \<Rightarrow>
         (case zeroOutputGuard es rd currentData of
            Some guardErr \<Rightarrow> do {
              _ \<leftarrow> updateResourceManagementStatus E es ''zero_output_guard'' guardErr;
              ret (Inr False)
            }
          | None \<Rightarrow> do {
              (placeholder, es1) \<leftarrow> cssNotice E r es;
              t \<leftarrow> templateStage E es rd currentData placeholder es1;
              case t of
                Inl early \<Rightarrow> ret early
              | Inr ts \<Rightarrow> writeStage E r es rd (currentData, currentLabels, currentAnnotations) ts
            })
   }"

definition syncWith :: "env \<Rightarrow> ExternalSecretReconciler \<Rightarrow> provider \<Rightarrow> ExternalSecret \<Rightarrow> bool res io" where
  "syncWith E r pv es = do {
     rd \<leftarrow> fetchSources E r pv es;
     case staleOf rd of
       Some e \<Rightarrow> ret (Inl e)
     | None \<Rightarrow> do {
         c \<leftarrow> ctxErr E;
         case c of Some ce \<Rightarrow> ret (Inl ce) | None \<Rightarrow> judgeAndWrite E r es rd
       }
   }"

definition syncIfNeedUpdate :: "env \<Rightarrow> ExternalSecretReconciler \<Rightarrow> ExternalSecret \<Rightarrow> bool res io" where
  "syncIfNeedUpdate E r es = do {
     c \<leftarrow> ctxErr E;
     case c of
       Some ce \<Rightarrow> ret (Inl ce)
     | None \<Rightarrow>
         (let providerName = providerNameOf es
          in if providerName = ProviderKMSName \<or> providerName = ProviderOOSName
             then do {
               err \<leftarrow> limiterWait E (if providerName = ProviderKMSName then rc_KmsLimiter r else rc_OosLimiter r) providerName;
               case err of
                 Some e \<Rightarrow> do {
                   c2 \<leftarrow> ctxErr E;
                   case c2 of Some ce \<Rightarrow> ret (Inl ce) | None \<Rightarrow> failWith E es ''rate_limit'' e
                 }
               | None \<Rightarrow> do {
                   pv \<leftarrow> GetProviderByName providerName;
                   case pv of
                     None \<Rightarrow> failWith E es ''provider_lookup'' (errorf (''provider '' @ providerName @ '' not found''))
                   | Some provider \<Rightarrow> syncWith E r provider es
                 }
             }
             else failWith E es ''provider_configuration''
                    (errorf (''unsupported provider: '' @ providerName @ '', only support kms or oos'')))
   }"

section \<open>Reconcile\<close>

definition isCancellation :: "goerror \<Rightarrow> bool" where
  "isCancellation e \<longleftrightarrow> errors_Is e Canceled \<or> errors_Is e DeadlineExceeded"

definition rotationIntervalOf :: "ExternalSecretReconciler \<Rightarrow> ExternalSecret \<Rightarrow> int" where
  "rotationIntervalOf r es = (case sp_RotationInterval (es_Spec es) of Some d \<Rightarrow> d | None \<Rightarrow> rc_RotationInterval r)"

definition afterSync :: "ExternalSecretReconciler \<Rightarrow> int \<Rightarrow> bool res \<Rightarrow> reconcile_result" where
  "afterSync r rotationInterval synced = (case synced of
      Inl e \<Rightarrow> if isCancellation e then (0, None)
               else if errors_Is e StoreClientStale then (storeClientStaleRetryInterval, None)
               else (0, Some e)
    | Inr _ \<Rightarrow> (RequeueAfter r rotationInterval, None))"

definition reconcileLive ::
    "env \<Rightarrow> ExternalSecretReconciler \<Rightarrow> int \<Rightarrow> string \<Rightarrow> ExternalSecret \<Rightarrow> reconcile_result io" where
  "reconcileLive E r rotationInterval secretNamespace es = do {
     term \<leftarrow> isNamespaceTerminating E secretNamespace;
     case term of
       Inl err \<Rightarrow> do { _ \<leftarrow> updateResourceManagementStatus E es ''namespace_check'' err; ret (0, Some err) }
     | Inr isTerminating \<Rightarrow>
         if isTerminating then do {
           _ \<leftarrow> updateResourceManagementStatus E es ''namespace_terminating''
                  (errorf (''namespace '' @ secretNamespace @ '' is terminating''));
           ret (0, None)
         }
         else do {
           stale \<leftarrow> reconcileStaleCompositeClients E es;
           case stale of
             Inl err \<Rightarrow> if isCancellation err then ret (0, None)
               else do { _ \<leftarrow> updateResourceManagementStatus E es ''endpoint_client_cleanup'' err; ret (0, Some err) }
           | Inr _ \<Rightarrow> do {
               synced \<leftarrow> syncIfNeedUpdate E r es;
               ret (afterSync r rotationInterval synced)
             }
         }
   }"

definition Reconcile :: "env \<Rightarrow> ExternalSecretReconciler \<Rightarrow> string \<Rightarrow> string \<Rightarrow> reconcile_result io" where
  "Reconcile E r namespace name = do {
     got \<leftarrow> getES E namespace name;
     case got of
       Inl err \<Rightarrow> ret (0, IgnoreNotFoundError err)
     | Inr es \<Rightarrow>
         if m_DeletionTimestamp (es_meta es) \<noteq> None then do {
           es' \<leftarrow> updateResourceManagementStatus E es ''operation'' (errorf ''external secret is being deleted'');
           handleDeletion E r es' (rotationIntervalOf r es) (target_secret_name es)
         }
         else if \<not> shouldWatch r (es_Namespace es) then do {
           _ \<leftarrow> updateResourceManagementStatus E es ''namespace_access''
                  (errorf (''namespace '' @ es_Namespace es @ '' is not in watched namespaces''));
           ret (0, None)
         }
         else if \<not> Contains (es_Finalizers es) secretFinalizer then do {
           (es', err) \<leftarrow> addFinalizer E es;
           case err of
             Some e \<Rightarrow> do {
               _ \<leftarrow> updateResourceManagementStatus E es' ''finalizer'' e;
               ret (RequeueAfter r (rc_ReconciliationPeriod r), Some e)
             }
           | None \<Rightarrow> reconcileLive E r (rotationIntervalOf r es) (es_Namespace es) es'
         }
         else reconcileLive E r (rotationIntervalOf r es) (es_Namespace es) es
   }"

section \<open>Facts: events\<close>

lemma emits_getCurrentData [emits_intros]:
  "(\<And>ns n. P (ReadSecret ns n)) \<Longrightarrow> emits P (getCurrentData E ns n)"
  unfolding getCurrentData_def api_defs by (intro emits_intros; simp)

lemma emits_failWith [emits_intros]:
  "(\<And>e b. P (UpdateESStatus e b)) \<Longrightarrow> (\<And>t. P (Clock t)) \<Longrightarrow> emits P (failWith E es k err)"
  unfolding failWith_def by (intro emits_intros; simp)

lemma emits_limiterWait [emits_intros]: "(\<And>n. P (LimiterWait n)) \<Longrightarrow> emits P (limiterWait E l n)"
  unfolding limiterWait_def by (intro emits_intros; simp)

lemma emits_fetchSources [emits_intros]:
  "(\<And>e. fetch_event e \<Longrightarrow> P e) \<Longrightarrow> emits P (fetchSources E r pv es)"
  unfolding fetchSources_def by (intro emits_intros; simp)

lemma emits_cssNotice [emits_intros]:
  "(\<And>e b. P (UpdateESStatus e b)) \<Longrightarrow> (\<And>t. P (Clock t)) \<Longrightarrow> emits P (cssNotice E r es)"
  unfolding cssNotice_def by (intro emits_intros; simp)

lemma emits_templateStage [emits_intros]:
  assumes "\<And>e b. P (UpdateESStatus e b)" "\<And>t. P (Clock t)" "\<And>ns n. P (GetConfigMap ns n)" "\<And>ns n. P (GetSecret ns n)"
  shows "emits P (templateStage E es0 rd cur ph es)"
  unfolding templateStage_def renderWarnings_def by (intro emits_intros; simp add: assms)

text \<open>The events of a round beside those of fetching, and those of a whole reconcile.\<close>

fun round_event :: "event \<Rightarrow> bool" where
  "round_event (ReadSecret _ _) = True"
| "round_event (GetConfigMap _ _) = True"
| "round_event (UpdateESStatus _ _) = True"
| "round_event CtxErr = True"
| "round_event (LimiterWait _) = True"
| "round_event (CreateSecret _ _) = True"
| "round_event (UpdateSecret _ _) = True"
| "round_event (DeleteSecret _ _ _) = True"
| "round_event e = fetch_event e"

lemma fetch_round_event: "fetch_event e \<Longrightarrow> round_event e"
  by (cases e) simp_all

fun reconcile_event :: "event \<Rightarrow> bool" where
  "reconcile_event (GetES _ _) = True"
| "reconcile_event ListES = True"
| "reconcile_event (UpdateES _ _) = True"
| "reconcile_event e = round_event e"

lemma round_reconcile_event: "round_event e \<Longrightarrow> reconcile_event e"
  by (cases e) simp_all

lemma emits_writeStage [emits_intros]:
  assumes "\<And>e. round_event e \<Longrightarrow> P e"
  shows "emits P (writeStage E r es rd cur ts)"
  unfolding writeStage_def updateSecret_def Let_def by (intro emits_intros; simp add: assms)

lemma emits_judgeAndWrite [emits_intros]:
  assumes "\<And>e. round_event e \<Longrightarrow> P e"
  shows "emits P (judgeAndWrite E r es rd)"
  unfolding judgeAndWrite_def api_defs by (intro emits_intros; simp add: assms)

lemma emits_syncIfNeedUpdate [emits_intros]:
  assumes "\<And>e. round_event e \<Longrightarrow> P e"
  shows "emits P (syncIfNeedUpdate E r es)"
  unfolding syncIfNeedUpdate_def syncWith_def Let_def api_defs
  by (intro emits_intros; simp add: assms fetch_round_event)

lemma emits_handleDeletion [emits_intros]:
  assumes "\<And>e. reconcile_event e \<Longrightarrow> P e"
  shows "emits P (handleDeletion E r es d n)"
  unfolding handleDeletion_def finalizeExternalSecret_def api_defs by (intro emits_intros; simp add: assms)

lemma emits_Reconcile [emits_intros]:
  assumes "\<And>e. reconcile_event e \<Longrightarrow> P e"
  shows "emits P (Reconcile E r ns n)"
proof -
  have "\<And>e. round_event e \<Longrightarrow> P e" using assms round_reconcile_event by blast
  then show ?thesis
    unfolding Reconcile_def reconcileLive_def isNamespaceTerminating_def addFinalizer_def Let_def api_defs
    by (intro emits_intros; simp add: assms)
qed

section \<open>Facts: what a round writes\<close>

text \<open>Documented behaviour of the status subresource: a status update leaves the spec alone.\<close>

definition status_keeps_spec :: "env \<Rightarrow> bool" where
  "status_keeps_spec E \<longleftrightarrow> (\<forall>t x y. e_UpdateESStatus E t x = Inr y \<longrightarrow> es_Spec y = es_Spec x)"

definition quiet :: "event \<Rightarrow> bool" where
  "quiet e \<longleftrightarrow> \<not> secret_write e \<and> \<not> secret_delete e"

lemma quiet_simps [simp]:
  "quiet (UpdateESStatus x b)" "quiet (Clock t)" "quiet (GetConfigMap a c)" "quiet (GetSecret a c)"
  "quiet (ReadSecret a c)" "quiet CtxErr"
  by (simp_all add: quiet_def)

lemma post_writeResults:
  "status_keeps_spec E \<Longrightarrow> post (writeResults E es rs) (\<lambda>es' n. es_Spec es' = es_Spec es \<and> list_all quiet n)"
  unfolding writeResults_def api_defs Let_def
  by (intro post_intros) (auto simp: status_keeps_spec_def split: sum.splits)

lemma post_status:
  assumes "status_keeps_spec E"
  shows "post (updateResourceManagementStatus E es k err) (\<lambda>es' n. es_Spec es' = es_Spec es \<and> list_all quiet n)"
    and "post (recordCSSControllerDisabledStatus E es ns) (\<lambda>v n. es_Spec (snd v) = es_Spec es \<and> list_all quiet n)"
    and "post (updateExternalSecretStatus E r es de ee sm ds xs dp f) (\<lambda>es' n. es_Spec es' = es_Spec es \<and> list_all quiet n)"
  unfolding updateResourceManagementStatus_def recordCSSControllerDisabledStatus_def updateExternalSecretStatus_def
    api_defs Let_def
  by (intro post_intros post_bind [OF post_writeResults [OF assms]] post_conseq [OF post_writeResults [OF assms]]; simp)+

lemma post_cssNotice:
  assumes "status_keeps_spec E"
  shows "post (cssNotice E r es) (\<lambda>v n. es_Spec (snd v) = es_Spec es \<and> list_all quiet n)"
  unfolding cssNotice_def by (intro post_intros post_status(2) [OF assms]) simp

text \<open>What the template stage passes on.\<close>

definition stage_ok :: "ExternalSecret \<Rightarrow> round \<Rightarrow> bytes gomap \<Rightarrow> tstate \<Rightarrow> bool" where
  "stage_ok es rd cur ts \<longleftrightarrow> es_Spec (ts_es ts) = es_Spec es \<and>
     (if es_template es = None
      then ts_secretMap ts = rd_secretMap rd \<and> \<not> ts_processed ts \<and> ts_result ts = None
      else ts_processed ts \<and>
        (case ts_result ts of
           None \<Rightarrow> failedKeysOf es rd > 0 \<or> allFailed es rd
         | Some u \<Rightarrow> ts_secretMap ts = u_Data u \<and> \<not> templateRenderedZeroOutput (failedKeysOf es rd) (gm_len (u_Data u))
                         (gm_len (rd_secretMap rd)) (gm_len cur)))"

lemma es_template_spec: "es_Spec a = es_Spec b \<Longrightarrow> es_template a = es_template b"
  by (simp add: es_template_def)

lemma post_renderWarnings:
  assumes "status_keeps_spec E"
  shows "post (renderWarnings E es u ph) (\<lambda>v n. es_Spec (snd v) = es_Spec es \<and> list_all quiet n)"
  unfolding renderWarnings_def by (intro post_intros post_bind [OF post_status(1) [OF assms]]) auto

lemma post_failWith:
  assumes "status_keeps_spec E"
  shows "post (failWith E es k err) (\<lambda>v n. v = Inl err \<and> list_all quiet n)"
  unfolding failWith_def by (intro post_bind [OF post_status(1) [OF assms]] post_intros) auto

lemma post_templateStage:
  assumes "status_keeps_spec E" "es_Spec es = es_Spec es0"
  shows "post (templateStage E es0 rd cur ph es) (\<lambda>v n. list_all quiet n \<and>
     (case v of Inl _ \<Rightarrow> True | Inr ts \<Rightarrow> stage_ok es0 rd cur ts))"
proof -
  have t: "es_template es = es_template es0" using assms(2) by (rule es_template_spec)
  have tmpl: "emits quiet (ProcessAllTemplates E es (rd_secretMap rd))"
    by (intro emits_intros; simp)
  show ?thesis
    unfolding templateStage_def
    by (intro post_intros post_bind_emits [OF tmpl] post_bind [OF post_status(1) [OF assms(1)]]
          post_bind [OF post_failWith [OF assms(1)]] post_bind [OF post_renderWarnings [OF assms(1)]])
      (use t assms(2) in \<open>auto simp: stage_ok_def\<close>)
qed

text \<open>The dataset of a round and whether it is written.\<close>

definition datasetOf :: "ExternalSecretReconciler \<Rightarrow> ExternalSecret \<Rightarrow> round \<Rightarrow> bytes gomap \<Rightarrow> tstate \<Rightarrow> bytes gomap option" where
  "datasetOf r es rd cur ts =
     resolveWriteData (rc_CleanUpSecretOnFailure r) es (rd_dataErrors rd) (rd_extractErrors rd)
       (ts_secretMap ts) cur (allFailed es rd) (failedKeysOf es rd) (ts_processed ts)"

definition writeDecided :: "ExternalSecretReconciler \<Rightarrow> ExternalSecret \<Rightarrow> round \<Rightarrow> bytes gomap \<Rightarrow> tstate \<Rightarrow> bool" where
  "writeDecided r es rd cur ts \<longleftrightarrow>
     \<not> shouldSkipSecretWrite (gm_len (ts_secretMap ts)) (failedKeysOf es rd) (allFailed es rd)
          (rc_CleanUpSecretOnFailure r) (ts_processed ts) \<and>
     (\<not> sameData (datasetOf r es rd cur ts) cur \<or> (case ts_result ts of Some u \<Rightarrow> hasMetadata u | None \<Rightarrow> False))"

definition emptyIfNone :: "bytes gomap option \<Rightarrow> bytes gomap" where
  "emptyIfNone w = (case w of None \<Rightarrow> gm_empty | Some m \<Rightarrow> m)"

definition fitsData :: "bool \<Rightarrow> bytes gomap \<Rightarrow> event \<Rightarrow> bool" where
  "fitsData cleanUp d e = (case e of
      DeleteSecret _ _ _ \<Rightarrow> cleanUp \<and> gm_len d = 0
    | CreateSecret s _ \<Rightarrow> \<not> (cleanUp \<and> gm_len d = 0) \<and> sec_Data s = d
    | UpdateSecret s _ \<Rightarrow> \<not> (cleanUp \<and> gm_len d = 0) \<and> sec_Data s = d
    | _ \<Rightarrow> True)"

lemma emits_Handle_fits: "emits (fitsData c d) (HandleSecretOperation E c es d mt)"
proof (cases "c \<and> gm_len d = 0")
  case True
  then show ?thesis by (intro emits_Handle_delete) (auto simp: fitsData_def)
next
  case False
  then show ?thesis by (intro emits_Handle_write) (auto simp: fitsData_def newSecret_def)
qed

lemma quiet_fits: "quiet e \<Longrightarrow> fitsData c d e"
  by (cases e) (auto simp: quiet_def fitsData_def)

lemma resolveWriteData_spec:
  "es_Spec a = es_Spec b \<Longrightarrow> resolveWriteData c a = resolveWriteData c b"
  by (intro ext) (simp add: resolveWriteData_def collectFailedEntryTargetKeys_def)

lemma post_writeStage:
  assumes "status_keeps_spec E" "es_Spec (ts_es ts) = es_Spec es"
  shows "post (writeStage E r es rd (cur, l, a) ts) (\<lambda>v n.
     if writeDecided r es rd cur ts
     then list_all (fitsData (rc_CleanUpSecretOnFailure r) (emptyIfNone (datasetOf r es rd cur ts))) n
     else list_all quiet n)"
  unfolding writeStage_def prod.case
proof (rule post_bind [OF post_status(3) [OF assms(1)]], goal_cases)
  case (1 es2 n)
  then have spec: "es_Spec es2 = es_Spec es" and qn: "list_all quiet n" using assms(2) by simp_all
  let ?w = "resolveWriteData (rc_CleanUpSecretOnFailure r) es2 (rd_dataErrors rd) (rd_extractErrors rd)
       (ts_secretMap ts) cur (allFailed es rd) (failedKeysOf es rd) (ts_processed ts)"
  let ?fit = "fitsData (rc_CleanUpSecretOnFailure r) (emptyIfNone (datasetOf r es rd cur ts))"
  have w: "?w = datasetOf r es rd cur ts"
    unfolding datasetOf_def resolveWriteData_spec [OF spec] ..
  have upd: "emits ?fit (updateSecret E r es2 ?w mt)" for mt
    unfolding updateSecret_def w emptyIfNone_def by (rule emits_Handle_fits)
  have tail: "emits ?fit (failWith E es2 k e)" "emits ?fit (updateExternalSecretStatus E r es2 de ee sm ds xs dp f)"
    for k e de ee sm ds xs dp f
    by (intro emits_intros; simp add: quiet_fits)+
  have fn: "list_all ?fit n" using qn quiet_fits by (auto simp: list_all_iff)
  let ?R = "\<lambda>v n. if writeDecided r es rd cur ts then list_all ?fit n else list_all quiet n"
  have same: "sameData ?w cur \<Longrightarrow> \<not> metadataNeedsUpdate ts l a \<Longrightarrow> post (ret (Inr False)) (\<lambda>b n'. ?R b (n' @ n))"
    using qn fn by (intro post_intros) (simp add: Let_def)
  show ?case
    unfolding Let_def
  proof (intro post_if, goal_cases)
    case 1
    then show ?case using qn by (intro post_intros) (simp add: writeDecided_def)
  next
    case 2
    then have "writeDecided r es rd cur ts"
      unfolding w by (auto simp: writeDecided_def metadataNeedsUpdate_def split: bool.splits option.splits)
    then show ?case
      using fn by (intro post_bind_emits [OF upd] post_sum post_emits_only [OF tail(1)] post_bind_emits [OF tail(2)] post_intros)
        auto
  next
    case 3
    then show ?case using same by simp
  qed
qed

text \<open>The data of the Secret the round compares with: the answer of one read.\<close>

definition dataRead :: "Secret res \<Rightarrow> bytes gomap" where
  "dataRead got = (case got of Inl _ \<Rightarrow> gm_empty | Inr s \<Rightarrow> gm_overlay gm_empty (sec_Data s))"

definition guardPassed :: "ExternalSecret \<Rightarrow> round \<Rightarrow> bytes gomap \<Rightarrow> bool" where
  "guardPassed es rd cur \<longleftrightarrow> zeroOutputGuard es rd cur = None"

text \<open>A round writes nothing, or passed the guard and decided to write the dataset that follows from
  some read and some template state.\<close>

lemma post_judgeAndWrite:
  assumes "status_keeps_spec E"
  shows "post (judgeAndWrite E r es rd) (\<lambda>v n. list_all quiet n \<or>
     (\<exists>t ts. let cur = dataRead (e_ReadSecret E t (es_Namespace es) (target_secret_name es)) in
        guardPassed es rd cur \<and> stage_ok es rd cur ts \<and> writeDecided r es rd cur ts \<and>
        list_all (fitsData (rc_CleanUpSecretOnFailure r) (emptyIfNone (datasetOf r es rd cur ts))) n))"
  (is "post _ ?R")
proof -
  have cur: "post (getCurrentData E ns n) (\<lambda>v ev. (\<exists>t. fst v = dataRead (e_ReadSecret E t ns n)) \<and> list_all quiet ev)" for ns n
  proof -
    have f: "fst (case got of
         Inl err \<Rightarrow> (gm_empty, gm_empty, gm_empty, Some err)
       | Inr s \<Rightarrow> (gm_overlay gm_empty (sec_Data s), gm_overlay gm_empty (m_Labels (sec_meta s)),
                   gm_overlay gm_empty (m_Annotations (sec_meta s)), None)) = dataRead got" for got
      by (cases got) (simp_all add: dataRead_def)
    show ?thesis unfolding getCurrentData_def api_defs by (intro post_intros) (auto simp: f)
  qed
  have still: "post m (\<lambda>v n'. ?R v (n' @ n))" if "emits quiet m" "list_all quiet n" for m n
    using that by (intro post_emits_only [OF that(1)]) simp
  show ?thesis
    unfolding judgeAndWrite_def
  proof (rule post_bind [OF cur], goal_cases)
    case (1 v n)
    then obtain l a err t where v: "v = (dataRead (e_ReadSecret E t (es_Namespace es) (target_secret_name es)), l, a, err)"
      and n: "list_all quiet n" by (cases v) auto
    let ?cur = "dataRead (e_ReadSecret E t (es_Namespace es) (target_secret_name es))"
    show ?case
      unfolding v prod.case
    proof (intro post_option, goal_cases)
      case 1
      then have gp: "guardPassed es rd ?cur" by (simp add: guardPassed_def)
      show ?case
      proof (rule post_bind [OF post_cssNotice [OF assms]], goal_cases)
        case (1 w n1)
        then obtain ph es1 where w: "w = (ph, es1)" and es1: "es_Spec es1 = es_Spec es" and n1: "list_all quiet n1"
          by (cases w) auto
        show ?case
          unfolding w prod.case
        proof (rule post_bind [OF post_templateStage [OF assms es1]], rule post_sum, goal_cases)
          case (1 v n2 early)
          then show ?case using n n1 by (intro post_intros) simp
        next
          case (2 v n2 ts)
          then have ok: "stage_ok es rd ?cur ts" "list_all quiet n2" by simp_all
          have q: "list_all quiet (n2 @ n1 @ n)" using ok n n1 by simp
          have "es_Spec (ts_es ts) = es_Spec es" using ok(1) by (simp add: stage_ok_def)
          from post_writeStage [OF assms this] show ?case
          proof (rule post_conseq, goal_cases)
            case (1 w n3)
            show ?case
            proof (cases "writeDecided r es rd ?cur ts")
              case True
              have "list_all (fitsData c d) (n2 @ n1 @ n)" for c d using q quiet_fits by (auto simp: list_all_iff)
              with 1 True gp ok(1) show ?thesis by (auto simp: Let_def)
            next
              case False
              with 1 q show ?thesis by simp
            qed
          qed
        qed
      qed
    next
      case (2 e)
      then show ?case using n by (intro still emits_intros) simp_all
    next
      case (3 e)
      then show ?case using n unfolding ctxErr_def by (intro still emits_intros) simp_all
    qed
  qed
qed

lemma gm_has_overlay_dst: "gm_has m k \<Longrightarrow> gm_has (gm_overlay m xs) k"
  by (induction m xs rule: gm_overlay.induct) auto

lemma merge_nonempty:
  assumes "gm_len s > 0"
  shows "gm_len (mergeWithFailedKeys s c ks r) > 0"
proof -
  obtain k v rest where "s = (k, v) # rest" using assms by (cases s) (auto simp: gm_len_def)
  then have "gm_has (gm_overlay gm_empty s) k" by (simp add: gm_has_overlay_dst)
  moreover have "gm_has m k \<Longrightarrow> gm_has (retainAll m c) k" for m
    by (induction m c rule: retainAll.induct) auto
  moreover have "gm_has m k \<Longrightarrow> gm_has (retainKeys m c ks) k" for m
    by (induction m c ks rule: retainKeys.induct) (auto split: option.splits)
  ultimately have "gm_has (mergeWithFailedKeys s c ks r) k"
    by (simp add: mergeWithFailedKeys_def Let_def)
  then show ?thesis by (auto simp: gm_len_pos)
qed

text \<open>When a decided write carries no data although not every source failed, there is a template,
  no source, and nothing in the current Secret.\<close>

lemma empty_write_cases:
  assumes "guardPassed es rd cur" "stage_ok es rd cur ts" "writeDecided r es rd cur ts"
    and "gm_len (emptyIfNone (datasetOf r es rd cur ts)) = 0"
    and "\<not> allFailed es rd"
  shows "totalOf es rd = 0 \<and> es_template es \<noteq> None \<and> cur = gm_empty"
proof -
  have noskip: "\<not> shouldSkipSecretWrite (gm_len (ts_secretMap ts)) (failedKeysOf es rd) (allFailed es rd)
          (rc_CleanUpSecretOnFailure r) (ts_processed ts)" using assms(3) by (simp add: writeDecided_def)
  have ts0: "ts_secretMap ts = gm_empty"
  proof (rule ccontr)
    assume "ts_secretMap ts \<noteq> gm_empty"
    then have len: "gm_len (ts_secretMap ts) > 0" using gm_len_0 neq0_conv by blast
    then have "gm_len (emptyIfNone (datasetOf r es rd cur ts)) > 0"
      using assms(5) merge_nonempty [OF len]
      by (auto simp: datasetOf_def resolveWriteData_def emptyIfNone_def split: prod.splits)
    then show False using assms(4) by simp
  qed
  have f0: "failedKeysOf es rd = 0"
    using noskip assms(5) ts0 by (auto simp: shouldSkipSecretWrite_def split: if_splits)
  have ds: "datasetOf r es rd cur ts = Some gm_empty"
    using assms(5) f0 ts0 by (auto simp: datasetOf_def resolveWriteData_def)
  have guard: "\<not> (totalOf es rd > 0 \<and> gm_len (rd_secretMap rd) = 0)"
      "\<not> (totalOf es rd = 0 \<and> es_template es = None \<and> gm_len cur > 0)"
    using assms(1) f0
    by (auto simp: guardPassed_def zeroOutputGuard_def Let_def hasDeclaredSourcesButZeroOutput_def
        hasNoDeclaredSourcesButExistingData_def split: if_splits)
  show ?thesis
  proof (cases "es_template es")
    case None
    then have "rd_secretMap rd = gm_empty" "ts_result ts = None" using assms(2) ts0 by (simp_all add: stage_ok_def)
    then have "cur = gm_empty" using guard None by auto
    moreover from this have "sameData (datasetOf r es rd cur ts) cur"
      unfolding ds sameData_def by (simp add: gm_eq_def gm_empty_def)
    ultimately show ?thesis using assms(3) \<open>ts_result ts = None\<close> by (simp add: writeDecided_def)
  next
    case (Some t)
    show ?thesis using assms(2,5) Some ts0 f0 guard(1)
      by (auto simp: stage_ok_def templateRenderedZeroOutput_def split: option.splits)
  qed
qed

section \<open>Properties\<close>

text \<open>C1. Deletion safety: a round deletes the target Secret only with cleanup on failure switched
  on, and then only when every declared source failed, or when no source is declared at all, a
  template is configured, and the Secret read in this round holds no data.\<close>

theorem deletion_only_on_total_failure:
  assumes "status_keeps_spec E"
  shows "post (judgeAndWrite E r es rd) (\<lambda>v n. list_all (\<lambda>e. \<not> secret_delete e) n \<or>
     (rc_CleanUpSecretOnFailure r \<and>
       (allFailed es rd \<or>
        (totalOf es rd = 0 \<and> es_template es \<noteq> None \<and>
         (\<exists>t. dataRead (e_ReadSecret E t (es_Namespace es) (target_secret_name es)) = gm_empty)))))"
proof (rule post_conseq [OF post_judgeAndWrite [OF assms]], goal_cases)
  case (1 v n)
  show ?case
  proof (cases "list_all quiet n")
    case True
    then show ?thesis by (auto simp: quiet_def list_all_iff)
  next
    case False
    then obtain t ts cur where c: "cur = dataRead (e_ReadSecret E t (es_Namespace es) (target_secret_name es))"
      "guardPassed es rd cur" "stage_ok es rd cur ts" "writeDecided r es rd cur ts"
      "list_all (fitsData (rc_CleanUpSecretOnFailure r) (emptyIfNone (datasetOf r es rd cur ts))) n"
      using 1 by (auto simp: Let_def)
    show ?thesis
    proof (cases "rc_CleanUpSecretOnFailure r \<and> gm_len (emptyIfNone (datasetOf r es rd cur ts)) = 0")
      case True
      then show ?thesis using empty_write_cases [OF c(2,3,4)] c(1) by auto
    next
      case False
      then have "\<not> secret_delete e" if "fitsData (rc_CleanUpSecretOnFailure r) (emptyIfNone (datasetOf r es rd cur ts)) e" for e
        using that by (cases e) (auto simp: fitsData_def)
      then show ?thesis using c(5) by (auto simp: list_all_iff)
    qed
  qed
qed

text \<open>What a key of the written Secret holds: its fetched value, or else its current value when some
  failed source could own it.\<close>

definition retainedKey :: "ExternalSecret \<Rightarrow> round \<Rightarrow> string \<Rightarrow> bool" where
  "retainedKey es rd k \<longleftrightarrow>
     (\<exists>d \<in> set (sp_Data (es_Spec es)). gm_has (rd_dataErrors rd) (ds_Key d) \<and> k \<in> entryTargetKeys d) \<or>
     (\<exists>x \<in> set (extracts es). gm_has (rd_extractErrors rd) (ds_Key x))"

definition expectedValue :: "ExternalSecret \<Rightarrow> round \<Rightarrow> bytes gomap \<Rightarrow> string \<Rightarrow> bytes option" where
  "expectedValue es rd cur k = (case gm_get (rd_secretMap rd) k of
      Some v \<Rightarrow> Some v
    | None \<Rightarrow> if failedKeysOf es rd > 0 \<and> retainedKey es rd k then gm_get cur k else None)"

lemma retainedKey_collect:
  "retainedKey es rd k \<longleftrightarrow> (case collectFailedEntryTargetKeys es (rd_dataErrors rd) (rd_extractErrors rd) of
      (ks, r) \<Rightarrow> r \<or> k \<in> set ks)"
proof -
  have "(\<exists>dp \<in> set dps. \<exists>x. dp_Extract dp = Some x \<and> P x) \<longleftrightarrow> (\<exists>x \<in> set (List.map_filter dp_Extract dps). P x)" for dps P
    by (auto simp: List.map_filter_def) (metis option.sel option.simps(3))+
  from this [of "sp_DataProcess (es_Spec es)" "\<lambda>x. gm_has (rd_extractErrors rd) (ds_Key x)"] show ?thesis
    by (auto simp: retainedKey_def collectFailedEntryTargetKeys_def set_failedDataKeys anyExtractFailed_iff extracts_def)
qed

lemma dataset_no_template:
  assumes "es_template es = None" "gm_ok (rd_secretMap rd)" "gm_ok cur"
    and "stage_ok es rd cur ts" "writeDecided r es rd cur ts" "\<not> (allFailed es rd \<and> rc_CleanUpSecretOnFailure r)"
  obtains d where "datasetOf r es rd cur ts = Some d" "gm_ok d" "\<And>k. gm_get d k = expectedValue es rd cur k" "ts_result ts = None"
proof -
  have ts: "ts_secretMap ts = rd_secretMap rd" "\<not> ts_processed ts" "ts_result ts = None"
    using assms(1,4) by (simp_all add: stage_ok_def)
  have len: "gm_len (rd_secretMap rd) > 0" if "failedKeysOf es rd > 0"
    using assms(5,6) ts that by (auto simp: writeDecided_def shouldSkipSecretWrite_def split: if_splits)
  obtain ks ret where c: "collectFailedEntryTargetKeys es (rd_dataErrors rd) (rd_extractErrors rd) = (ks, ret)" by fastforce
  show thesis
  proof (cases "failedKeysOf es rd > 0")
    case True
    show thesis
    proof (rule that)
      show "datasetOf r es rd cur ts = Some (mergeWithFailedKeys (rd_secretMap rd) cur ks ret)"
        using assms(6) ts True len c by (auto simp: datasetOf_def resolveWriteData_def)
      show "gm_ok (mergeWithFailedKeys (rd_secretMap rd) cur ks ret)" by (rule gm_ok_merge)
      show "gm_get (mergeWithFailedKeys (rd_secretMap rd) cur ks ret) k = expectedValue es rd cur k" for k
        using True by (simp add: gm_get_merge assms(2,3) expectedValue_def retainedKey_collect c split: option.splits)
    qed (rule ts(3))
  next
    case False
    show thesis
    proof (rule that)
      show "datasetOf r es rd cur ts = Some (rd_secretMap rd)"
        using assms(6) ts False by (auto simp: datasetOf_def resolveWriteData_def)
      show "gm_get (rd_secretMap rd) k = expectedValue es rd cur k" for k
        using False by (simp add: expectedValue_def split: option.splits)
    qed (use assms(2) ts(3) in simp_all)
  qed
qed

lemma gm_ok_dataRead [simp]: "gm_ok (dataRead got)"
  by (cases got) (simp_all add: dataRead_def)

text \<open>A sample round of two sources, of which the second failed; the current Secret holds an old value
  of the second, and a key of neither.\<close>

definition demoSource :: ExternalSecret where
  "demoSource = emptyExternalSecret\<lparr>es_Spec := (es_Spec emptyExternalSecret)\<lparr>sp_Data :=
     [emptyDataSource\<lparr>ds_Key := ''a'', ds_Name := ''a''\<rparr>, emptyDataSource\<lparr>ds_Key := ''b'', ds_Name := ''b''\<rparr>]\<rparr>\<rparr>"

definition demoRound :: round where
  "demoRound = \<lparr>rd_secretMap = [(''a'', ''new'')], rd_dataErrors = [(''b'', Some notFound)], rd_extractErrors = gm_empty,
     rd_dataSucceeded = [''a''], rd_extractSucceeded = []\<rparr>"

definition demoReconciler :: ExternalSecretReconciler where
  "demoReconciler = \<lparr>rc_WatchNamespaces = gm_empty, rc_ReconciliationPeriod = 5, rc_CleanUpSecretOnFailure = True,
     rc_DisablePolling = False, rc_RotationInterval = 7, rc_KmsLimiter = True, rc_OosLimiter = True,
     rc_EnableCrossNamespace = False, rc_RestConfig = True, rc_ProcessClusterSecretStore = True\<rparr>"

definition demoEnv :: env where
  "demoEnv = sampleEnv\<lparr>e_ReadSecret := \<lambda>_ _ _. Inr \<lparr>sec_meta = noMeta,
     sec_Data = [(''a'', ''old''), (''b'', ''kept''), (''c'', ''gone'')], sec_Type = []\<rparr>\<rparr>"

lemma demo_keeps_spec: "status_keeps_spec demoEnv"
  by (simp add: status_keeps_spec_def demoEnv_def sampleEnv_def)

lemma demo_facts:
  "es_template demoSource = None" "gm_ok (rd_secretMap demoRound)"
  "\<not> allFailed demoSource demoRound" "totalOf demoSource demoRound = 2" "failedKeysOf demoSource demoRound = 1"
  "retainedKey demoSource demoRound ''b''" "\<not> retainedKey demoSource demoRound ''c''"
  "dataRead (e_ReadSecret demoEnv t ns n) = [(''a'', ''old''), (''b'', ''kept''), (''c'', ''gone'')]"
  by (simp_all add: demoSource_def demoRound_def demoEnv_def sampleEnv_def es_template_def emptyExternalSecret_def gm_ok_def
      allFailed_def totalOf_def failedKeysOf_def countsOf_def countFailedSources_def failedUncoveredOf_def
      failedUncoveredEntries_def gm_has_def gm_get_def gm_empty_def emptyDataSource_def retainedKey_def
      entryTargetKeys_def jmesPathTargetKeys_def ResolveTargetKey_def extracts_def List.map_filter_def dataRead_def gm_put_def
      dataEntryTargetCovered_def ss_add_def)

text \<open>C2. Partial failure: without a template, the dataset of every Secret write holds each fetched
  key with its fetched value, and of the current Secret exactly the keys that some failed source
  could own (all of them when an extract failed); nothing else is kept and nothing is invented.\<close>

theorem partial_failure_write_content:
  assumes "status_keeps_spec E" "es_template es = None" "gm_ok (rd_secretMap rd)"
  shows "post (judgeAndWrite E r es rd) (\<lambda>v n. \<exists>t. list_all (\<lambda>e. case e of
       CreateSecret s _ \<Rightarrow> gm_get (sec_Data s) = expectedValue es rd (dataRead (e_ReadSecret E t (es_Namespace es) (target_secret_name es)))
     | UpdateSecret s _ \<Rightarrow> gm_get (sec_Data s) = expectedValue es rd (dataRead (e_ReadSecret E t (es_Namespace es) (target_secret_name es)))
     | _ \<Rightarrow> True) n)"
proof (rule post_conseq [OF post_judgeAndWrite [OF assms(1)]], goal_cases)
  case (1 v n)
  show ?case
  proof (cases "list_all quiet n")
    case True
    then have "list_all (\<lambda>e. case e of CreateSecret s b \<Rightarrow> P s | UpdateSecret s b \<Rightarrow> P s | _ \<Rightarrow> True) n" for P
      unfolding list_all_iff by (intro ballI) (auto simp: quiet_def dest!: bspec split: event.split)
    then show ?thesis by (intro exI)
  next
    case False
    then obtain t ts cur where c: "cur = dataRead (e_ReadSecret E t (es_Namespace es) (target_secret_name es))"
      "guardPassed es rd cur" "stage_ok es rd cur ts" "writeDecided r es rd cur ts"
      "list_all (fitsData (rc_CleanUpSecretOnFailure r) (emptyIfNone (datasetOf r es rd cur ts))) n"
      using 1 by (auto simp: Let_def)
    have "gm_get (sec_Data s) = expectedValue es rd cur"
      if f: "fitsData (rc_CleanUpSecretOnFailure r) (emptyIfNone (datasetOf r es rd cur ts)) e" and e: "e = CreateSecret s b \<or> e = UpdateSecret s b" for e s b
    proof (cases "allFailed es rd \<and> rc_CleanUpSecretOnFailure r")
      case True
      then have "datasetOf r es rd cur ts = None" by (simp add: datasetOf_def resolveWriteData_def)
      with f e True show ?thesis by (auto simp: fitsData_def emptyIfNone_def)
    next
      case False
      have "gm_ok cur" using c(1) by simp
      from dataset_no_template [OF assms(2,3) this c(3,4) False] obtain d
        where "datasetOf r es rd cur ts = Some d" "\<And>k. gm_get d k = expectedValue es rd cur k" by metis
      with f e show ?thesis by (auto simp: fitsData_def emptyIfNone_def fun_eq_iff)
    qed
    then show ?thesis using c(1,5) by (intro exI [of _ t]) (auto simp: list_all_iff split: event.splits)
  qed
qed

theorem partial_failure_write_content_witness:
  "list_all (\<lambda>e. case e of UpdateSecret s b \<Rightarrow>
       gm_get (sec_Data s) ''a'' = Some ''new'' \<and> gm_get (sec_Data s) ''b'' = Some ''kept'' \<and> gm_get (sec_Data s) ''c'' = None
     | _ \<Rightarrow> True) (new_events (judgeAndWrite demoEnv demoReconciler demoSource demoRound) sampleProc)"
proof -
  have m: "rd_secretMap demoRound = [(''a'', ''new'')]" by (simp add: demoRound_def)
  have "expectedValue demoSource demoRound (dataRead (e_ReadSecret demoEnv t (es_Namespace demoSource) n)) ''a'' = Some ''new''"
    "expectedValue demoSource demoRound (dataRead (e_ReadSecret demoEnv t (es_Namespace demoSource) n)) ''b'' = Some ''kept''"
    "expectedValue demoSource demoRound (dataRead (e_ReadSecret demoEnv t (es_Namespace demoSource) n)) ''c'' = None" for t n
    by (simp_all add: demo_facts expectedValue_def m gm_get_def)
  then show ?thesis
    using post_new_events [OF partial_failure_write_content [OF demo_keeps_spec demo_facts(1,2)], of demoReconciler sampleProc]
    by (auto simp: list_all_iff split: event.splits dest!: bspec)
qed

theorem deletion_only_on_total_failure_witness:
  "list_all (\<lambda>e. \<not> secret_delete e) (new_events (judgeAndWrite demoEnv demoReconciler demoSource demoRound) sampleProc)"
  using post_new_events [OF deletion_only_on_total_failure [OF demo_keeps_spec], of demoReconciler demoSource demoRound sampleProc]
  by (simp add: demo_facts)

text \<open>C30. Steady state: without a template, a round whose dataset equals the data it read writes and
  deletes nothing (total failure with cleanup apart).\<close>

theorem unchanged_data_writes_nothing:
  assumes "status_keeps_spec E" "es_template es = None" "gm_ok (rd_secretMap rd)"
  shows "post (judgeAndWrite E r es rd) (\<lambda>v n. list_all (\<lambda>e. \<not> secret_write e \<and> \<not> secret_delete e) n \<or>
     (rc_CleanUpSecretOnFailure r \<and> allFailed es rd) \<or>
     (\<exists>t k. expectedValue es rd (dataRead (e_ReadSecret E t (es_Namespace es) (target_secret_name es))) k \<noteq>
            gm_get (dataRead (e_ReadSecret E t (es_Namespace es) (target_secret_name es))) k))"
proof (rule post_conseq [OF post_judgeAndWrite [OF assms(1)]], goal_cases)
  case (1 v n)
  show ?case
  proof (cases "list_all quiet n \<or> (allFailed es rd \<and> rc_CleanUpSecretOnFailure r)")
    case True
    then show ?thesis by (auto simp: quiet_def list_all_iff)
  next
    case False
    then obtain t ts cur where c: "cur = dataRead (e_ReadSecret E t (es_Namespace es) (target_secret_name es))"
      "stage_ok es rd cur ts" "writeDecided r es rd cur ts"
      using 1 by (auto simp: Let_def)
    have ok: "gm_ok cur" using c(1) by simp
    have nf: "\<not> (allFailed es rd \<and> rc_CleanUpSecretOnFailure r)" using False by blast
    from dataset_no_template [OF assms(2,3) ok c(2,3) nf] obtain d
      where d: "datasetOf r es rd cur ts = Some d" "gm_ok d" "\<And>k. gm_get d k = expectedValue es rd cur k" "ts_result ts = None"
      by metis
    then have "\<not> gm_eq d cur" using c(3) by (simp add: writeDecided_def sameData_def)
    then have "\<exists>k. expectedValue es rd cur k \<noteq> gm_get cur k" using gm_eq_iff [OF d(2) ok] d(3) by auto
    then show ?thesis using c(1) by blast
  qed
qed

theorem unchanged_data_writes_nothing_witness:
  "list_all (\<lambda>e. \<not> secret_write e \<and> \<not> secret_delete e)
     (new_events (judgeAndWrite demoEnv demoReconciler demoSource (demoRound\<lparr>rd_secretMap := [(''a'', ''old''), (''c'', ''gone'')]\<rparr>)) sampleProc)"
proof -
  let ?rd = "demoRound\<lparr>rd_secretMap := [(''a'', ''old''), (''c'', ''gone'')]\<rparr>"
  have n: "\<not> allFailed demoSource ?rd" "gm_ok (rd_secretMap ?rd)" "failedKeysOf demoSource ?rd = 1" "retainedKey demoSource ?rd k \<longleftrightarrow> k = ''b''" for k
    by (auto simp add: demoSource_def demoRound_def emptyExternalSecret_def gm_ok_def failedKeysOf_def
      allFailed_def countsOf_def countFailedSources_def failedUncoveredOf_def failedUncoveredEntries_def gm_has_def gm_get_def
      gm_empty_def emptyDataSource_def dataEntryTargetCovered_def ResolveTargetKey_def retainedKey_def extracts_def
      List.map_filter_def entryTargetKeys_def jmesPathTargetKeys_def ss_add_def)
  have "expectedValue demoSource ?rd [(''a'', ''old''), (''b'', ''kept''), (''c'', ''gone'')] k =
      gm_get [(''a'', ''old''), (''b'', ''kept''), (''c'', ''gone'')] k" for k
    by (auto simp: expectedValue_def n(3,4) gm_get_def split: option.splits)
  with post_new_events [OF unchanged_data_writes_nothing [OF demo_keeps_spec demo_facts(1) n(2)], of demoReconciler sampleProc]
  show ?thesis using n(1) by (simp add: demo_facts(8))
qed

text \<open>Whether the target Secret is gone when the deletion path, entered in state \<open>p\<close>, has made its
  two calls: it was not there, or its deletion succeeded or found it missing.\<close>

definition secretGone :: "env \<Rightarrow> event list \<Rightarrow> string \<Rightarrow> string \<Rightarrow> bool" where
  "secretGone E t ns n = (case e_GetSecret E t ns n of
      Inl e \<Rightarrow> errors_Is e NotFound
    | Inr s \<Rightarrow> (case e_DeleteSecret E (GetSecret ns n # t) (m_Namespace (sec_meta s)) (m_Name (sec_meta s)) of
        Inl e \<Rightarrow> errors_Is e NotFound
      | Inr _ \<Rightarrow> True))"

fun es_update :: "event \<Rightarrow> bool" where
  "es_update (UpdateES _ _) = True"
| "es_update _ = False"

lemma emits_cleanup_keeps: "emits (\<lambda>e. \<not> es_update e) (cleanupEndpointClients E es)"
  by (intro emits_intros) simp_all

lemma finalize_not_gone:
  assumes "\<not> secretGone E (tr p) (es_Namespace es) n"
  shows "(\<exists>e. result (finalizeExternalSecret E es n) p = Inl e) \<and>
     (\<exists>new. tr (final (finalizeExternalSecret E es n) p) = new @ tr p \<and> list_all (\<lambda>e. \<not> es_update e) new)"
proof (cases "e_GetSecret E (tr p) (es_Namespace es) n")
  case (Inl e)
  then show ?thesis using assms by (auto simp: finalizeExternalSecret_def secretGone_def api_defs run_simps)
next
  case (Inr s)
  with assms obtain e where
    "e_DeleteSecret E (GetSecret (es_Namespace es) n # tr p) (m_Namespace (sec_meta s)) (m_Name (sec_meta s)) = Inl e"
    "\<not> errors_Is e NotFound" by (auto simp: secretGone_def split: sum.splits)
  with Inr show ?thesis by (auto simp: finalizeExternalSecret_def api_defs run_simps)
qed

lemma finalize_keeps: "emits (\<lambda>e. \<not> es_update e) (finalizeExternalSecret E es n)"
  unfolding finalizeExternalSecret_def api_defs by (intro emits_intros) simp_all

text \<open>C29. Deletion order: the deletion path removes the finalizer (the only update of the object it
  makes) only when the target Secret is gone; otherwise it returns an error, so the object stays
  until a later round. Without the finalizer nothing is called at all.\<close>

theorem finalizer_removed_after_secret:
  "(\<not> Contains (es_Finalizers es) secretFinalizer \<longrightarrow> tr (final (handleDeletion E r es d n) p) = tr p) \<and>
   (\<exists>new. tr (final (handleDeletion E r es d n) p) = new @ tr p \<and>
     ((\<exists>e \<in> set new. es_update e) \<longrightarrow> secretGone E (tr p) (es_Namespace es) n)) \<and>
   (Contains (es_Finalizers es) secretFinalizer \<and> \<not> secretGone E (tr p) (es_Namespace es) n \<longrightarrow>
     (\<exists>e. result (handleDeletion E r es d n) p = (rc_ReconciliationPeriod r, Some e)))"
proof (cases "Contains (es_Finalizers es) secretFinalizer")
  case False
  then show ?thesis by (simp add: handleDeletion_def run_simps)
next
  case True
  have "\<exists>new. tr (final (handleDeletion E r es d n) p) = new @ tr p"
    using emits_handleDeletion [of "\<lambda>_. True" E r es d n] by (auto simp: emits_def post_def)
  moreover have ?thesis if "\<not> secretGone E (tr p) (es_Namespace es) n"
  proof -
    from finalize_not_gone [OF that] obtain e new where
      "result (finalizeExternalSecret E es n) p = Inl e" "list_all (\<lambda>e. \<not> es_update e) new"
      "tr (final (finalizeExternalSecret E es n) p) = new @ tr p" by blast
    then have "\<exists>new. tr (final (handleDeletion E r es d n) p) = new @ tr p \<and> list_all (\<lambda>e. \<not> es_update e) new"
      "result (handleDeletion E r es d n) p = (rc_ReconciliationPeriod r, Some e)"
      using True by (auto simp: handleDeletion_def run_simps)
    then show ?thesis using True by (auto simp: list_all_iff)
  qed
  ultimately show ?thesis using True by blast
qed

theorem finalizer_removed_after_secret_witness:
  "(\<exists>e. result (handleDeletion (sampleEnv\<lparr>e_GetSecret := \<lambda>_ _ _. Inl (errorf ''timeout'')\<rparr>) demoReconciler
        (demoSource\<lparr>es_meta := noMeta\<lparr>m_Finalizers := [secretFinalizer]\<rparr>\<rparr>) 7 ''app'') sampleProc = (5, Some e)) \<and>
   \<not> secretGone (sampleEnv\<lparr>e_GetSecret := \<lambda>_ _ _. Inl (errorf ''timeout'')\<rparr>) [] [] ''app''"
proof -
  let ?E = "sampleEnv\<lparr>e_GetSecret := \<lambda>_ _ _. Inl (errorf ''timeout'')\<rparr>"
  let ?es = "demoSource\<lparr>es_meta := noMeta\<lparr>m_Finalizers := [secretFinalizer]\<rparr>\<rparr>"
  have "Contains (es_Finalizers ?es) secretFinalizer" "\<not> secretGone ?E (tr sampleProc) (es_Namespace ?es) ''app''"
    by (simp_all add: secretGone_def errors_Is_def errorf_def)
  then show ?thesis
    using finalizer_removed_after_secret [of ?es ?E demoReconciler 7 "''app''" sampleProc]
    by (simp add: demoReconciler_def secretGone_def errors_Is_def errorf_def)
qed

text \<open>An object of a namespace the process does not watch is left alone: no finalizer, no Secret,
  no client, only its status is written, and the round is not repeated.\<close>

theorem unwatched_namespace_untouched:
  assumes "\<And>t es. e_GetES E t ns n = Inr es \<Longrightarrow> m_DeletionTimestamp (es_meta es) = None \<and> \<not> shouldWatch r (es_Namespace es)"
  shows "post (Reconcile E r ns n) (\<lambda>(d, _) new. d = 0 \<and>
     list_all (\<lambda>e. case e of GetES _ _ \<Rightarrow> True | UpdateESStatus _ _ \<Rightarrow> True | Clock _ \<Rightarrow> True | _ \<Rightarrow> False) new)"
proof -
  let ?P = "\<lambda>e. case e of GetES _ _ \<Rightarrow> True | UpdateESStatus _ _ \<Rightarrow> True | Clock _ \<Rightarrow> True | _ \<Rightarrow> False"
  have st: "emits ?P (updateResourceManagementStatus E es k err)" for es k err
    by (intro emits_intros) simp_all
  show ?thesis
    unfolding Reconcile_def api_defs
  proof (intro post_bind_call post_sum, goal_cases)
    case (1 t e)
    then show ?case by (intro post_intros) simp
  next
    case (2 t es)
    have h: "m_DeletionTimestamp (es_meta es) = None" "\<not> shouldWatch r (es_Namespace es)" using assms [OF 2] by simp_all
    then show ?case by (simp, intro post_bind_emits [OF st] post_intros) simp
  qed
qed

theorem unwatched_namespace_untouched_witness:
  "list_all (\<lambda>e. \<not> es_update e) (new_events (Reconcile (sampleEnv\<lparr>e_GetES := \<lambda>_ _ _. Inr demoSource\<rparr>)
     (demoReconciler\<lparr>rc_WatchNamespaces := [(''prod'', True)]\<rparr>) ''dev'' ''x'') sampleProc)"
proof -
  have "post (Reconcile (sampleEnv\<lparr>e_GetES := \<lambda>_ _ _. Inr demoSource\<rparr>)
     (demoReconciler\<lparr>rc_WatchNamespaces := [(''prod'', True)]\<rparr>) ''dev'' ''x'') (\<lambda>(d, _) new. d = 0 \<and>
     list_all (\<lambda>e. case e of GetES _ _ \<Rightarrow> True | UpdateESStatus _ _ \<Rightarrow> True | Clock _ \<Rightarrow> True | _ \<Rightarrow> False) new)"
    by (rule unwatched_namespace_untouched)
      (simp add: sampleEnv_def demoSource_def emptyExternalSecret_def noMeta_def shouldWatch_def demoReconciler_def
        IsNamespaceWatched_def gm_len_def gm_get_def)
  from post_new_events [OF this, of sampleProc] show ?thesis
    by (auto simp: list_all_iff split: event.splits dest!: bspec elim!: es_update.elims)
qed

text \<open>Requeueing: a reconcile that reports no error comes back not at all, after the two-second
  stale-client interval, or after the rotation interval of the object read; with polling disabled
  the rotation interval is out. A cancelled sync is never an error.\<close>

theorem requeue_rules:
  "post (Reconcile E r ns n) (\<lambda>(d, err) _. err = None \<longrightarrow>
     d = 0 \<or> d = storeClientStaleRetryInterval \<or>
     (\<not> rc_DisablePolling r \<and> (\<exists>t es. e_GetES E t ns n = Inr es \<and> d = rotationIntervalOf r es)))"
  (is "post _ ?Q")
proof -
  have any: "post m (\<lambda>_ _. True)" if "emits (\<lambda>_. True) m" for m :: "'a io"
    using that by (rule post_emits_only) simp
  have st: "post (updateResourceManagementStatus E es k err) (\<lambda>_ _. True)"
    and stale: "post (reconcileStaleCompositeClients E es) (\<lambda>_ _. True)"
    and sync: "post (syncIfNeedUpdate E r es) (\<lambda>_ _. True)"
    and fin: "post (finalizeExternalSecret E es k) (\<lambda>_ _. True)" for es k err
    unfolding finalizeExternalSecret_def api_defs by (intro any emits_intros; simp)+
  have sync_done: "afterSync r d v = (d', None) \<Longrightarrow> d' = 0 \<or> d' = storeClientStaleRetryInterval \<or> (\<not> rc_DisablePolling r \<and> d' = d)" for d d' v
    by (auto simp: afterSync_def RequeueAfter_def split: sum.splits if_splits)
  have live: "post (reconcileLive E r d k es) (\<lambda>(d', err) _. err = None \<longrightarrow>
      d' = 0 \<or> d' = storeClientStaleRetryInterval \<or> (\<not> rc_DisablePolling r \<and> d' = d))" for d k es
    unfolding reconcileLive_def isNamespaceTerminating_def api_defs
    by (intro post_intros post_bind [OF st] post_bind [OF stale] post_bind [OF sync])
      (auto dest: sync_done [OF sym])
  have del: "post (handleDeletion E r es d k) (\<lambda>(d', err) _. err = None \<longrightarrow> d' = 0 \<or> (\<not> rc_DisablePolling r \<and> d' = d))" for es d k
    unfolding handleDeletion_def api_defs
    by (intro post_intros post_bind [OF fin]) (auto simp: RequeueAfter_def split: sum.splits)
  show ?thesis
    unfolding Reconcile_def addFinalizer_def Let_def api_defs
    by (intro post_intros post_bind [OF st] post_conseq [OF live] post_conseq [OF del])
      (auto simp: RequeueAfter_def)
qed

theorem requeue_rules_witness:
  "fst (result (Reconcile sampleEnv demoReconciler ''ns'' ''x'') sampleProc) = 0"
proof -
  have none: "snd (result (Reconcile sampleEnv demoReconciler ''ns'' ''x'') sampleProc) = None"
    by (simp add: Reconcile_def api_defs run_simps sampleEnv_def notFound_def errors_Is_def IgnoreNotFoundError_def)
  have "fst (result (Reconcile sampleEnv demoReconciler ''ns'' ''x'') sampleProc) \<noteq> storeClientStaleRetryInterval"
    by (simp add: Reconcile_def api_defs run_simps sampleEnv_def notFound_def errors_Is_def IgnoreNotFoundError_def storeClientStaleRetryInterval_def)
  then show ?thesis
    using post_new_events [OF requeue_rules [of sampleEnv demoReconciler "''ns''" "''x''"], of sampleProc] none
    by (auto simp: sampleEnv_def notFound_def split: prod.splits)
qed

lemma firstStale_is: "firstStale m = Some e \<Longrightarrow> errors_Is e StoreClientStale"
  by (induction m rule: firstStale.induct) (auto split: option.splits if_splits)

text \<open>C21. A round that met a stale store client stops there: it returns that error, having called
  nothing but the fetch (no status, no Secret), and the object comes back after two seconds, or not
  at all if the process is stopping.\<close>

theorem stale_round_stops:
  assumes "staleOf (result (fetchSources E r pv es) p) = Some e"
  shows "result (syncWith E r pv es) p = Inl e \<and>
    tr (final (syncWith E r pv es) p) = tr (final (fetchSources E r pv es) p) \<and>
    list_all fetch_event (new_events (syncWith E r pv es) p) \<and>
    afterSync r d (result (syncWith E r pv es) p) = (if isCancellation e then 0 else 2000000000, None)"
proof -
  have run: "result (syncWith E r pv es) p = Inl e" "final (syncWith E r pv es) p = final (fetchSources E r pv es) p"
    using assms by (simp_all add: syncWith_def run_simps)
  have "errors_Is e StoreClientStale"
    using assms firstStale_is by (auto simp: staleOf_def split: option.splits)
  moreover have "list_all fetch_event (new_events (fetchSources E r pv es) p)"
    by (rule post_new_events [where Q = "\<lambda>_ n. list_all fetch_event n"], rule post_of_emits) (intro emits_intros)
  ultimately show ?thesis using run by (auto simp: new_events_def afterSync_def storeClientStaleRetryInterval_def)
qed

text \<open>A sample store whose Ready condition observed generation 1 while the spec is at generation 2,
  and a process that still holds the client built for it.\<close>

definition staleStore :: SecretStore where
  "staleStore = \<lparr>ss_meta = noMeta\<lparr>m_Generation := 2\<rparr>, ss_Spec = \<lparr>ss_KMS = None, ss_OOS = None\<rparr>,
     ss_Status = \<lparr>st_Conditions = [\<lparr>c_Type = SecretStoreReady, c_Status = ConditionTrue, c_Reason = [], c_Message = [],
       c_LastTransitionTime = 0, c_ObservedGeneration = 1\<rparr>], st_Capabilities = [], st_ClientGeneration = 0\<rparr>\<rparr>"

definition staleRef :: SecretStoreRef where
  "staleRef = \<lparr>ssr_Name = ''s'', ssr_Kind = [], ssr_Namespace = []\<rparr>"

definition staleSource :: ExternalSecret where
  "staleSource = emptyExternalSecret\<lparr>es_Spec := (es_Spec emptyExternalSecret)\<lparr>sp_Data :=
     [emptyDataSource\<lparr>ds_SecretStoreRef := Some staleRef, ds_Key := ''a'', ds_Name := ''a''\<rparr>]\<rparr>\<rparr>"

definition staleClients :: provider where
  "staleClients = (let pv = kms_NewProvider demoOptions in
     pv\<lparr>pv_Manager := kms_Register (pv_Manager pv) (SecretStoreKey [] ''s'') (KMSClient (Some \<lparr>cl_clientName = [], cl_sdk = Some 1\<rparr>))\<rparr>)"

definition staleProc :: proc where
  "staleProc = sampleProc\<lparr>providerMap := [(ProviderKMSName, staleClients)]\<rparr>"

theorem stale_round_stops_witness:
  "\<exists>e. result (syncWith (sampleEnv\<lparr>e_GetSecretStore := \<lambda>_ _ _. Inr staleStore\<rparr>) demoReconciler staleClients staleSource) staleProc = Inl e \<and>
     afterSync demoReconciler 7 (Inl e) = (2000000000, None)"
proof -
  let ?E = "sampleEnv\<lparr>e_GetSecretStore := \<lambda>_ _ _. Inr staleStore\<rparr>"
  have trim: "TrimSpace [] = []" by (simp add: TrimSpace_def)
  have "clientAt staleClients staleProc (SecretStoreKey [] ''s'') = Inr (KMSClient (Some \<lparr>cl_clientName = SecretStoreKey [] ''s'', cl_sdk = Some 1\<rparr>))"
    by (simp add: clientAt_def poolOf_def staleProc_def staleClients_def kms_NewProvider_def Let_def kms_GetClient_def kms_Register_def
       NewManager_def gm_get_def gm_put_def gm_empty_def)
  then have "\<exists>m. staleOf (result (fetchSources ?E demoReconciler staleClients staleSource) staleProc) = Some (staleError m)"
    by (simp add: fetchSources_def staleSource_def getExternalSecret_def fetchData_def getOrCreateClient_def GetClient_run
       resolveClientName_def staleRef_def refKind_def refNamespace_def CompositeClientKey_def normalizeEndpoint_def emptyDataSource_def
       run_simps Let_def cachedClient_def validateSecretStoreAccess_def ensureStoreClientFresh_def api_defs emptyExternalSecret_def noMeta_def
       sampleEnv_def freshness_def staleStore_def crossNamespaceDenied_def trim staleOf_def gm_empty_def gm_put_def)
      (simp add: staleError_def errors_Is_def)
  then obtain m where m: "staleOf (result (fetchSources ?E demoReconciler staleClients staleSource) staleProc) = Some (staleError m)" ..
  show ?thesis
    using stale_round_stops [of ?E demoReconciler staleClients staleSource staleProc, OF m, of 7] by (auto simp: isCancellation_def staleError_def errors_Is_def)
qed

end
