(* ===== verification/Pools.thy ===== *)
theory Pools
  imports Es_Reconcile
begin

text \<open>
  What the steps of the process do to its in-memory tables. A relation between the process state
  before and after a step that is reflexive, transitive and blind to the events is respected by
  every composition of respecting steps; the locale \<open>step_relation\<close> proves this once, and its two
  instances are the invariant of the client pools, and "no client was added or removed" with it.
\<close>

definition keeps :: "(proc \<Rightarrow> proc \<Rightarrow> bool) \<Rightarrow> 'a io \<Rightarrow> bool" where
  "keeps R m \<longleftrightarrow> (\<forall>p. R p (final m p))"

lemma keepsD: "keeps R m \<Longrightarrow> R p (final m p)"
  by (simp add: keeps_def)

locale step_relation =
  fixes R :: "proc \<Rightarrow> proc \<Rightarrow> bool"
  assumes refl: "R p p"
    and trans: "R p q \<Longrightarrow> R q s \<Longrightarrow> R p s"
    and silent: "R p (p\<lparr>tr := t\<rparr>)"
begin

lemma ret: "keeps R (ret a)"
  by (simp add: keeps_def run_simps refl)

lemma bind:
  fixes m :: "'a io"
  shows "keeps R m \<Longrightarrow> (\<And>a. keeps R (f a)) \<Longrightarrow> keeps R (State_Monad.bind m f)"
  by (auto simp: keeps_def run_simps intro: trans)

lemma call: "keeps R (call ev f)"
  by (simp add: keeps_def run_simps silent)

lemma read: "keeps R (read f)"
  by (simp add: keeps_def run_simps refl)

lemma modify: "(\<And>p. R p (f p)) \<Longrightarrow> keeps R (modify f)"
  by (simp add: keeps_def run_simps)

lemma cond: "keeps R m \<Longrightarrow> keeps R n \<Longrightarrow> keeps R (if b then m else n)"
  by simp

lemma sum: "(\<And>e. keeps R (f e)) \<Longrightarrow> (\<And>a. keeps R (g a)) \<Longrightarrow> keeps R (case x of Inl e \<Rightarrow> f e | Inr a \<Rightarrow> g a)"
  by (cases x) simp_all

lemma option: "keeps R f \<Longrightarrow> (\<And>a. keeps R (g a)) \<Longrightarrow> keeps R (case x of None \<Rightarrow> f | Some a \<Rightarrow> g a)"
  by (cases x) simp_all

lemma prod: "(\<And>a b. keeps R (f a b)) \<Longrightarrow> keeps R (case x of (a, b) \<Rightarrow> f a b)"
  by (cases x) simp

lemma letb: "keeps R (f x) \<Longrightarrow> keeps R (let a = x in f a)"
  by simp

lemma loop: "(\<And>b x. keeps R (f b x)) \<Longrightarrow> keeps R (forM xs b f)"
proof (induction xs arbitrary: b)
  case (Cons x xs)
  show ?case unfolding forM.simps by (rule bind [OF Cons.prems Cons.IH [OF Cons.prems]])
qed (simp add: ret)

lemma loopE: "(\<And>b x. keeps R (f b x)) \<Longrightarrow> keeps R (forE xs b f)"
proof (induction xs arbitrary: b)
  case (Cons x xs)
  show ?case
    unfolding forE.simps
  proof (rule bind)
    show "keeps R (f b x)" by (rule Cons.prems)
  next
    fix r
    show "keeps R (case r of Inl e \<Rightarrow> ret (Inl e) | Inr b' \<Rightarrow> forE xs b' f)"
      using Cons.IH [OF Cons.prems] by (cases r) (simp_all add: ret)
  qed
qed (simp add: ret)

lemmas rules = ret bind call read cond sum option prod letb loop loopE

end

section \<open>The pools stay well-formed\<close>

text \<open>A provider without its pool: what no step of a running process changes.\<close>

definition identityOf :: "provider \<Rightarrow> provider" where
  "identityOf q = q\<lparr>pv_Manager := NewManager []\<rparr>"

definition tableKept :: "proc \<Rightarrow> proc \<Rightarrow> bool" where
  "tableKept p q \<longleftrightarrow> (table_ok p \<longrightarrow> table_ok q) \<and>
     (\<forall>n. map_option identityOf (gm_get (providerMap q) n) = map_option identityOf (gm_get (providerMap p) n))"

lemma tableKept_has: "tableKept p q \<Longrightarrow> gm_has (providerMap q) n = gm_has (providerMap p) n"
  unfolding tableKept_def gm_has_def by (metis option.map_disc_iff)

lemma table_ok_tr [simp]: "table_ok (p\<lparr>tr := t\<rparr>) = table_ok p"
  by (simp add: table_ok_def)

interpretation table: step_relation tableKept
  by unfold_locales (simp_all add: tableKept_def)

lemma providerMap_onManager:
  "providerMap (final (onManager n f) p) = (case gm_get (providerMap p) n of
      None \<Rightarrow> providerMap p | Some q \<Rightarrow> gm_put (providerMap p) n (q\<lparr>pv_Manager := fst (f (pv_Manager q))\<rparr>))"
  by (cases "gm_get (providerMap p) n")
    (simp_all add: onManager_def getManager_def putManager_def run_simps stopAll_final)

lemma has_onManager: "gm_has (providerMap (final (onManager n f) p)) k = gm_has (providerMap p) k"
  unfolding providerMap_onManager gm_has_def by (simp split: option.split)

lemma identity_onManager:
  "map_option identityOf (gm_get (providerMap (final (onManager n f) p)) k) = map_option identityOf (gm_get (providerMap p) k)"
  unfolding providerMap_onManager by (auto simp: identityOf_def split: option.split)

lemma keeps_onManager: "(\<And>m. pool_ok m \<Longrightarrow> pool_ok (fst (f m))) \<Longrightarrow> keeps tableKept (onManager n f)"
  unfolding keeps_def tableKept_def by (auto intro: onManager_table simp: identity_onManager)

lemma pool_ok_Ram: "pool_ok m \<Longrightarrow> pool_ok (fst (RegisterRamProvider k (Some s) m))"
  by (auto simp: RegisterRamProvider_def pool_ok_def)

lemma keeps_pool_ops:
  "keeps tableKept (Register pv k c)" "keeps tableKept (DeleteClient pv k)" "keeps tableKept (DeletePrefixed pv k)"
  unfolding Register_def DeleteClient_def DeletePrefixed_def
  by (rule keeps_onManager, cases "pv_kind pv"; simp add: kms.ok_register oos.ok_register kms.ok_delete oos.ok_delete
      kms.ok_delete_prefixed oos.ok_delete_prefixed)+

section \<open>No client is added or removed\<close>

definition clientMaps :: "proc \<Rightarrow> string \<Rightarrow> (SecretClient gomap \<times> SecretClient gomap) option" where
  "clientMaps p n = map_option (\<lambda>q. (mg_KmsClientMap (pv_Manager q), mg_OosClientMap (pv_Manager q))) (gm_get (providerMap p) n)"

definition clientsKept :: "proc \<Rightarrow> proc \<Rightarrow> bool" where
  "clientsKept p q \<longleftrightarrow> tableKept p q \<and> (\<forall>n. clientMaps q n = clientMaps p n)"

lemma clientMaps_tr [simp]: "clientMaps (p\<lparr>tr := t\<rparr>) n = clientMaps p n"
  by (simp add: clientMaps_def)

interpretation clients: step_relation clientsKept
  by unfold_locales (auto simp: clientsKept_def intro: table.refl table.trans table.silent)

lemma clientsKept_clientAt:
  assumes "clientsKept p q"
  shows "clientAt pv q k = clientAt pv p k"
proof -
  have "clientMaps q (pv_name pv) = clientMaps p (pv_name pv)" using assms by (simp add: clientsKept_def)
  then have "mg_KmsClientMap (poolOf pv q) = mg_KmsClientMap (poolOf pv p)"
    "mg_OosClientMap (poolOf pv q) = mg_OosClientMap (poolOf pv p)"
    by (auto simp: clientMaps_def poolOf_def map_option_case split: option.splits)
  then show ?thesis by (simp add: clientAt_def kms_GetClient_def oos_GetClient_def split: pkind.split)
qed

lemma clientAt_tr [simp]: "clientAt pv (p\<lparr>tr := t\<rparr>) k = clientAt pv p k"
  by (simp add: clientAt_def split: pkind.split)

lemma clientsKept_facts:
  assumes "clientsKept p q"
  shows "table_ok p \<Longrightarrow> table_ok q" and "inTable pv q = inTable pv p"
  using assms by (auto simp: clientsKept_def inTable_def tableKept_has) (simp add: tableKept_def)

lemma clients_bind_result:
  "keeps clientsKept m \<Longrightarrow> (\<And>p. keeps clientsKept (f (result m p))) \<Longrightarrow> keeps clientsKept (State_Monad.bind m f)"
  by (auto simp: keeps_def run_simps intro: clients.trans)

lemma clients_onManager:
  assumes "\<And>m. pool_ok m \<Longrightarrow> pool_ok (fst (f m))"
    and "\<And>m. mg_KmsClientMap (fst (f m)) = mg_KmsClientMap m \<and> mg_OosClientMap (fst (f m)) = mg_OosClientMap m"
  shows "keeps clientsKept (onManager n f)"
  using keeps_onManager [of f n] assms
  by (auto simp: keeps_def clientsKept_def clientMaps_def providerMap_onManager split: option.split)

lemma clients_GetAuthCred [intro]: "keeps clientsKept (GetAuthCred E a region w pname)"
proof -
  have ram: "keeps clientsKept (onManager n (RegisterRamProvider k (Some s)))" for n k s
    by (rule clients_onManager) (auto simp: pool_ok_Ram, simp_all add: RegisterRamProvider_def)
  have chain: "keeps clientsKept (authChain E b region)" for b
    unfolding authChain_def createOIDCProvider_def getIdentityToken_def NewTokenOIDCProvider_def api_defs Let_def
    by (intro clients.rules)
  show ?thesis unfolding GetAuthCred_def Let_def by (intro clients.rules ram chain)
qed

lemma clients_BuildAuthConfig [intro]: "keeps clientsKept (BuildAuthConfig E st kc ap cid uid)"
  unfolding BuildAuthConfig_def buildServiceAccountRefAuthConfig_def buildAuthConfigWithCrossNamespace_def
    readAuthSecret_def configFromSecret_def api_defs Let_def
  by (intro clients.rules)

text \<open>Building a client registers a refresher and nothing else.\<close>

lemma clients_NewClient: "keeps clientsKept (NewClient E pv st kc endpoint)"
    and clients_NewClientByENV: "keeps clientsKept (NewClientByENV E pv endpoint)"
  unfolding NewClient_def NewClientByENV_def kms_NewClient_def oos_NewClient_def kms_NewClientByENV_def
    oos_NewClientByENV_def kms_newClientWithAuth_def oos_newClientWithAuth_def sdkNew_def Let_def
  by (cases "pv_kind pv"; simp only: pkind.case; intro clients.rules clients_GetAuthCred clients_BuildAuthConfig)+

section \<open>What the pool operations do\<close>

lemma inTable_onManager [simp]: "inTable q (final (onManager n f) p) = inTable q p"
  by (simp add: inTable_def has_onManager)

lemma poolOf_onManager:
  "poolOf q (final (onManager n f) p) = (if pv_name q = n \<and> inTable q p then fst (f (poolOf q p)) else poolOf q p)"
  by (auto simp: poolOf_def providerMap_onManager inTable_def gm_has_def split: option.splits)

lemma DeletePrefixed_at:
  assumes "table_ok p" "inTable pv p" "pv_name q = pv_name pv \<longrightarrow> pv_kind q = pv_kind pv"
  shows "clientAt q (final (DeletePrefixed pv n) p) k =
    (if pv_name q = pv_name pv \<and> key_family n k then Inl (not_registered k) else clientAt q p k)"
proof (cases "pv_name q = pv_name pv")
  case True
  note pool = pool_ok_poolOf [OF assms(1), of q]
  have "inTable q p" using True assms(2) by (simp add: inTable_def)
  then show ?thesis using True assms(3) kms.get_delete_prefixed [OF pool] oos.get_delete_prefixed [OF pool]
    by (cases "pv_kind pv") (simp_all add: clientAt_def DeletePrefixed_def poolOf_onManager)
next
  case False
  then show ?thesis by (simp add: clientAt_def DeletePrefixed_def poolOf_onManager split: pkind.split)
qed

definition registrable :: "provider \<Rightarrow> SecretClient \<Rightarrow> bool" where
  "registrable pv c = (case pv_kind pv of KMS \<Rightarrow> kms_client c | OOS \<Rightarrow> oos_client c)"

lemma Register_at:
  assumes "table_ok p" "inTable pv p" "pv_name q = pv_name pv \<longrightarrow> pv_kind q = pv_kind pv" "registrable pv c"
  shows "clientAt q (final (Register pv n c) p) k =
    (if pv_name q = pv_name pv \<and> k = n then Inr (rename_client n c) else clientAt q p k)"
proof (cases "pv_name q = pv_name pv")
  case True
  note pool = pool_ok_poolOf [OF assms(1), of q]
  have "inTable q p" using True assms(2) by (simp add: inTable_def)
  then show ?thesis using True assms(3,4) kms.get_register [OF pool, of c] oos.get_register [OF pool, of c]
    by (cases "pv_kind pv") (simp_all add: clientAt_def Register_def poolOf_onManager registrable_def)
next
  case False
  then show ?thesis by (simp add: clientAt_def Register_def poolOf_onManager split: pkind.split)
qed

lemma pool_ops_keep:
  assumes "table_ok p"
  shows "table_ok (final (Register pv n c) p)" "table_ok (final (DeleteClient pv n) p)" "table_ok (final (DeletePrefixed pv n) p)"
    "inTable q (final (Register pv n c) p) = inTable q p" "inTable q (final (DeletePrefixed pv n) p) = inTable q p"
  using assms keepsD [OF keeps_pool_ops(1), of p pv n c] keepsD [OF keeps_pool_ops(2), of p pv n]
    keepsD [OF keeps_pool_ops(3), of p pv n]
  by (auto simp: inTable_def tableKept_has) (simp_all add: tableKept_def)

end
