(* ===== verification/Stores.thy ===== *)
theory Stores
  imports Pools
begin

text \<open>
  The store controllers: \<open>controller/secretstore/common.go\<close> (the wrappers, validation, client
  recreation and the status protocol), \<open>secretstore_controller.go\<close>,
  \<open>clustersecretstore_controller.go\<close> and \<open>predicates.go\<close>. The two wrapper types are the
  constructors of \<open>store\<close>. \<open>GetProviderByName\<close> may return nil; a method called on it panics,
  which is the result \<open>None\<close> of the operations below.
\<close>

section \<open>The store interface\<close>

definition st_meta :: "store \<Rightarrow> ObjectMeta" where
  "st_meta s = (case s of SS x \<Rightarrow> ss_meta x | CSS x \<Rightarrow> css_meta x)"

definition st_Status :: "store \<Rightarrow> SecretStoreStatus" where
  "st_Status s = (case s of SS x \<Rightarrow> ss_Status x | CSS x \<Rightarrow> css_Status x)"

definition setMeta :: "(ObjectMeta \<Rightarrow> ObjectMeta) \<Rightarrow> store \<Rightarrow> store" where
  "setMeta f s = (case s of SS x \<Rightarrow> SS (x\<lparr>ss_meta := f (ss_meta x)\<rparr>) | CSS x \<Rightarrow> CSS (x\<lparr>css_meta := f (css_meta x)\<rparr>))"

definition setStatus :: "SecretStoreStatus \<Rightarrow> store \<Rightarrow> store" where
  "setStatus st s = (case s of SS x \<Rightarrow> SS (x\<lparr>ss_Status := st\<rparr>) | CSS x \<Rightarrow> CSS (x\<lparr>css_Status := st\<rparr>))"

definition GetKMS :: "store \<Rightarrow> StoreProvider option" where
  "GetKMS s = (case s of SS x \<Rightarrow> ss_KMS (ss_Spec x) | CSS x \<Rightarrow> css_KMS (css_Spec x))"

definition GetOOS :: "store \<Rightarrow> StoreProvider option" where
  "GetOOS s = (case s of SS x \<Rightarrow> ss_OOS (ss_Spec x) | CSS x \<Rightarrow> css_OOS (css_Spec x))"

definition GetConditions :: "store \<Rightarrow> NamespaceCondition list" where
  "GetConditions s = (case s of SS x \<Rightarrow> [] | CSS x \<Rightarrow> css_Conditions (css_Spec x))"

definition innerAuth :: "StoreProvider option \<Rightarrow> StoreAuth option" where
  "innerAuth pv = (case pv of Some k \<Rightarrow> pr_Auth k | None \<Rightarrow> None)"

text \<open>The branch shared by \<open>GetServiceAccountRef\<close>, \<open>GetAccessKey\<close> and \<open>GetAccessKeySecret\<close>.\<close>

definition activeAuth :: "store \<Rightarrow> StoreAuth option" where
  "activeAuth s = (case innerAuth (GetKMS s) of Some a \<Rightarrow> Some a | None \<Rightarrow> innerAuth (GetOOS s))"

definition GetServiceAccountRef_spec :: "store \<Rightarrow> ServiceAccountRef option" where
  "GetServiceAccountRef_spec s = (case activeAuth s of Some a \<Rightarrow> au_ServiceAccountRef a | None \<Rightarrow> None)"

definition GetAccessKey_spec :: "store \<Rightarrow> SecretRef option" where
  "GetAccessKey_spec s = (case activeAuth s of Some a \<Rightarrow> au_AccessKey a | None \<Rightarrow> None)"

definition GetAccessKeySecret_spec :: "store \<Rightarrow> SecretRef option" where
  "GetAccessKeySecret_spec s = (case activeAuth s of Some a \<Rightarrow> au_AccessKeySecret a | None \<Rightarrow> None)"

section \<open>Validation\<close>

definition validateStoreSpec :: "store \<Rightarrow> string \<Rightarrow> goerror option" where
  "validateStoreSpec s storeType =
     (let providerCount = (if innerAuth (GetKMS s) \<noteq> None then 1 else 0) + (if innerAuth (GetOOS s) \<noteq> None then 1 else (0::nat))
      in if providerCount = 0 then Some (errorf (''no provider specified in '' @ storeType @ '' spec''))
         else if providerCount > 1 then Some (errorf (''multiple providers specified in '' @ storeType @ '' spec''))
         else None)"

text \<open>A reference leaves the store's namespace.\<close>

definition leaves :: "string \<Rightarrow> string \<Rightarrow> bool" where
  "leaves refNs ns \<longleftrightarrow> refNs \<noteq> [] \<and> refNs \<noteq> ns"

definition crossNamespaceRef :: "string \<Rightarrow> string \<Rightarrow> string \<Rightarrow> string \<Rightarrow> goerror" where
  "crossNamespaceRef field kind refNs ns =
     errorf (''cross namespace '' @ field @ '' is disabled, cannot reference '' @ kind @ '' in namespace '' @ refNs @
       '' from SecretStore in namespace '' @ ns)"

text \<open>\<open>CommonReconciler\<close> with the period of the two reconcilers; the rest.Config is its presence.\<close>

record StoreReconciler =
  sc_RestConfig :: bool
  sc_EnableCrossNamespaceAuthRef :: bool
  sc_ReconciliationPeriod :: int

definition validateKeyRef :: "string \<Rightarrow> string \<Rightarrow> SecretRef option \<Rightarrow> goerror option" where
  "validateKeyRef field ns ref = (case ref of
      Some k \<Rightarrow> if leaves (sr_Namespace k) ns then Some (crossNamespaceRef field ''Secret'' (sr_Namespace k) ns) else None
    | None \<Rightarrow> None)"

definition firstError :: "goerror option \<Rightarrow> goerror option \<Rightarrow> goerror option" where
  "firstError a b = (case a of Some e \<Rightarrow> Some e | None \<Rightarrow> b)"

definition validateSecretStoreSpec :: "StoreReconciler \<Rightarrow> store \<Rightarrow> goerror option" where
  "validateSecretStoreSpec r s = (case validateStoreSpec s ''SecretStore'' of
      Some e \<Rightarrow> Some e
    | None \<Rightarrow>
        if sc_EnableCrossNamespaceAuthRef r then None
        else (let ns = m_Namespace (st_meta s);
                  saError = (case GetServiceAccountRef_spec s of
                     Some sa \<Rightarrow> if leaves (sa_Namespace sa) ns
                       then Some (crossNamespaceRef ''ServiceAccountRef'' ''ServiceAccount'' (sa_Namespace sa) ns) else None
                   | None \<Rightarrow> None)
              in firstError saError (firstError (validateKeyRef ''AccessKey'' ns (GetAccessKey_spec s))
                   (validateKeyRef ''AccessKeySecret'' ns (GetAccessKeySecret_spec s)))))"

definition namespaceRequired :: "string \<Rightarrow> string option \<Rightarrow> goerror option" where
  "namespaceRequired field ns =
     (if ns = Some [] then Some (errorf (field @ ''.Namespace is required for ClusterSecretStore'')) else None)"

fun validateRegexes :: "env \<Rightarrow> nat \<Rightarrow> nat \<Rightarrow> string list \<Rightarrow> goerror option" where
  "validateRegexes E i j [] = None"
| "validateRegexes E i j (regex # rest) = (case e_regex E regex of
      Inl err \<Rightarrow> Some (wrap_w (''invalid regex '' @ regex @ '' in condition '' @ string_of_nat i @ '' regex '' @
                   string_of_nat j @ '': '') err)
    | Inr _ \<Rightarrow> validateRegexes E i (j + 1) rest)"

fun validateConditions :: "env \<Rightarrow> nat \<Rightarrow> NamespaceCondition list \<Rightarrow> goerror option" where
  "validateConditions E i [] = None"
| "validateConditions E i (c # rest) =
     firstError
       (case nc_NamespaceSelector c of
          None \<Rightarrow> None
        | Some sel \<Rightarrow> (case e_selector E sel of
             Inl err \<Rightarrow> Some (wrap_w (''invalid label selector in condition '' @ string_of_nat i @ '': '') err)
           | Inr _ \<Rightarrow> None))
       (firstError (validateRegexes E i 0 (nc_NamespaceRegexes c)) (validateConditions E (i + 1) rest))"

definition validateClusterSecretStoreSpec :: "env \<Rightarrow> store \<Rightarrow> goerror option" where
  "validateClusterSecretStoreSpec E s = (case validateStoreSpec s ''ClusterSecretStore'' of
      Some e \<Rightarrow> Some e
    | None \<Rightarrow>
        firstError (namespaceRequired ''ServiceAccountRef'' (map_option sa_Namespace (GetServiceAccountRef_spec s)))
          (firstError (namespaceRequired ''AccessKey'' (map_option sr_Namespace (GetAccessKey_spec s)))
            (firstError (namespaceRequired ''AccessKeySecret'' (map_option sr_Namespace (GetAccessKeySecret_spec s)))
              (validateConditions E 0 (GetConditions s)))))"

section \<open>Recreating the client\<close>

definition storeConfiguresKMS :: "store \<Rightarrow> bool" where
  "storeConfiguresKMS s = (innerAuth (GetKMS s) \<noteq> None)"

definition storeConfiguresOOS :: "store \<Rightarrow> bool" where
  "storeConfiguresOOS s = (innerAuth (GetOOS s) \<noteq> None)"

definition hasClient :: "provider option \<Rightarrow> string \<Rightarrow> bool io" where
  "hasClient pv clientName = (case pv of
      None \<Rightarrow> ret False
    | Some q \<Rightarrow> do { got \<leftarrow> GetClient q clientName; ret (ok got) })"

definition needRecreateClient ::
    "store \<Rightarrow> string \<Rightarrow> provider option \<Rightarrow> provider option \<Rightarrow> bool io" where
  "needRecreateClient s clientName kmsProvider oosProvider = do {
     clientExists \<leftarrow> (if storeConfiguresKMS s then hasClient kmsProvider clientName
                      else if storeConfiguresOOS s then hasClient oosProvider clientName
                      else ret False);
     ret (if \<not> clientExists then True
          else (case ReadyConditionObservedGeneration (st_Conditions (st_Status s)) of (observed, found) \<Rightarrow>
            if \<not> found then True
            else if m_Generation (st_meta s) \<noteq> observed then True
            else False))
   }"

text \<open>\<open>DeletePrefixed\<close> on both providers; false is the panic on a nil provider.\<close>

definition deleteBoth :: "provider option \<Rightarrow> provider option \<Rightarrow> string \<Rightarrow> bool io" where
  "deleteBoth kmsProvider oosProvider clientName = (case kmsProvider of
      None \<Rightarrow> ret False
    | Some k \<Rightarrow> do {
        _ \<leftarrow> DeletePrefixed k clientName;
        case oosProvider of
          None \<Rightarrow> ret False
        | Some q \<Rightarrow> do { _ \<leftarrow> DeletePrefixed q clientName; ret True }
      })"

text \<open>The SecretStore handed to \<open>NewClient\<close>: the store itself, or one made of the metadata and the
  provider blocks of a ClusterSecretStore.\<close>

definition asSecretStore :: "store \<Rightarrow> SecretStore" where
  "asSecretStore s = (case s of
      SS x \<Rightarrow> x
    | CSS x \<Rightarrow> \<lparr>ss_meta = css_meta x, ss_Spec = \<lparr>ss_KMS = css_KMS (css_Spec x), ss_OOS = css_OOS (css_Spec x)\<rparr>,
        ss_Status = \<lparr>st_Conditions = [], st_Capabilities = [], st_ClientGeneration = 0\<rparr>\<rparr>)"

definition GetName :: "ClientObj option \<Rightarrow> string" where
  "GetName c = (case c of Some x \<Rightarrow> cl_clientName x | None \<Rightarrow> [])"

definition createKMSClient :: "env \<Rightarrow> store \<Rightarrow> bool \<Rightarrow> provider \<Rightarrow> unit res io" where
  "createKMSClient E s kubeClient kmsProvider = do {
     made \<leftarrow> NewClient E kmsProvider (asSecretStore s) kubeClient [];
     case made of
       Inl err \<Rightarrow> ret (Inl err)
     | Inr secretClient \<Rightarrow> (case secretClient of
          KMSClient c \<Rightarrow> do { _ \<leftarrow> Register kmsProvider (GetName c) secretClient; ret (Inr ()) }
        | _ \<Rightarrow> ret (Inl (errorf ''unexpected client type for KMS provider'')))
   }"

definition createOOSClient :: "env \<Rightarrow> store \<Rightarrow> bool \<Rightarrow> provider \<Rightarrow> unit res io" where
  "createOOSClient E s kubeClient oosProvider = do {
     made \<leftarrow> NewClient E oosProvider (asSecretStore s) kubeClient [];
     case made of
       Inl err \<Rightarrow> ret (Inl err)
     | Inr secretClient \<Rightarrow> (case secretClient of
          OOSClient c \<Rightarrow> do { _ \<leftarrow> Register oosProvider (GetName c) secretClient; ret (Inr ()) }
        | _ \<Rightarrow> ret (Inl (errorf ''unexpected client type for OOS provider'')))
   }"

text \<open>The clientset: absent without a rest.Config, an error when it cannot be built.\<close>

definition newClientset :: "env \<Rightarrow> StoreReconciler \<Rightarrow> bool res io" where
  "newClientset E r =
     (if sc_RestConfig r then do {
        got \<leftarrow> call (\<lambda>_. NewKubeClient) (\<lambda>t. e_NewKubeClient E t);
        ret (case got of Inl e \<Rightarrow> Inl e | Inr _ \<Rightarrow> Inr True)
      }
      else ret (Inr False))"

definition recreateClient ::
    "env \<Rightarrow> StoreReconciler \<Rightarrow> string \<Rightarrow> provider option \<Rightarrow> provider option \<Rightarrow> store \<Rightarrow> (unit res) option io" where
  "recreateClient E r clientName kmsProvider oosProvider s = do {
     deleted \<leftarrow> deleteBoth kmsProvider oosProvider clientName;
     case (deleted, kmsProvider, oosProvider) of
       (True, Some k, Some q) \<Rightarrow> do {
         kube \<leftarrow> newClientset E r;
         case kube of
           Inl err \<Rightarrow> ret (Some (Inl err))
         | Inr kubeClient \<Rightarrow> do {
             made \<leftarrow> (if storeConfiguresKMS s then createKMSClient E s kubeClient k
                      else if storeConfiguresOOS s then createOOSClient E s kubeClient q
                      else ret (Inl (errorf (''no valid provider found for store '' @ m_Namespace (st_meta s) @ ''/'' @
                             m_Name (st_meta s)))));
             ret (Some made)
           }
       }
     | _ \<Rightarrow> ret None
   }"

section \<open>Status\<close>

definition newCondition :: "string \<Rightarrow> string \<Rightarrow> string \<Rightarrow> int \<Rightarrow> SecretStoreStatusCondition" where
  "newCondition status reason message generation =
     \<lparr>c_Type = SecretStoreReady, c_Status = status, c_Reason = reason, c_Message = message,
      c_LastTransitionTime = 0, c_ObservedGeneration = generation\<rparr>"

definition sameState :: "SecretStoreStatusCondition \<Rightarrow> SecretStoreStatusCondition \<Rightarrow> bool" where
  "sameState c d \<longleftrightarrow> c_Status c = c_Status d \<and> c_Reason c = c_Reason d \<and> c_Message c = c_Message d"

fun putCondition :: "int \<Rightarrow> SecretStoreStatusCondition \<Rightarrow> SecretStoreStatusCondition list \<Rightarrow> SecretStoreStatusCondition list" where
  "putCondition now condition [] = [condition\<lparr>c_LastTransitionTime := now\<rparr>]"
| "putCondition now condition (c # cs) =
     (if c_Type c = c_Type condition
      then condition\<lparr>c_LastTransitionTime := if sameState c condition then c_LastTransitionTime c else now\<rparr> # cs
      else c # putCondition now condition cs)"

definition setCondition :: "int \<Rightarrow> int \<Rightarrow> SecretStoreStatusCondition \<Rightarrow> SecretStoreStatus \<Rightarrow> SecretStoreStatus" where
  "setCondition now generation condition st =
     st\<lparr>st_Conditions := putCondition now (condition\<lparr>c_ObservedGeneration := generation\<rparr>) (st_Conditions st)\<rparr>"

fun conditionsEqual :: "SecretStoreStatusCondition list \<Rightarrow> SecretStoreStatusCondition list \<Rightarrow> bool" where
  "conditionsEqual (o1 # os) (d # ds) =
     (if o1\<lparr>c_LastTransitionTime := 0\<rparr> \<noteq> d\<lparr>c_LastTransitionTime := 0\<rparr> then False else conditionsEqual os ds)"
| "conditionsEqual _ _ = True"

definition statusEqual :: "SecretStoreStatus \<Rightarrow> SecretStoreStatus \<Rightarrow> bool" where
  "statusEqual old new =
     (if st_Capabilities old \<noteq> st_Capabilities new then False
      else if st_ClientGeneration old \<noteq> st_ClientGeneration new then False
      else if length (st_Conditions new) \<noteq> length (st_Conditions old) then False
      else conditionsEqual (st_Conditions new) (st_Conditions old))"

definition getStore :: "env \<Rightarrow> store \<Rightarrow> string \<Rightarrow> string \<Rightarrow> store res io" where
  "getStore E kind namespace name = (case kind of
      SS _ \<Rightarrow> do {
        got \<leftarrow> getSecretStore_api E namespace name;
        ret (case got of Inl e \<Rightarrow> Inl e | Inr x \<Rightarrow> Inr (SS x))
      }
    | CSS _ \<Rightarrow> do {
        got \<leftarrow> getClusterSecretStore_api E name;
        ret (case got of Inl e \<Rightarrow> Inl e | Inr x \<Rightarrow> Inr (CSS x))
      })"

text \<open>\<open>oldStatus\<close> is the status of the store in hand before the callers' changes; the capabilities are
  set by the caller, before the snapshot is taken.\<close>

definition updateStatus ::
    "env \<Rightarrow> store \<Rightarrow> SecretStoreStatusCondition \<Rightarrow> bool \<Rightarrow> bool res io" where
  "updateStatus E s condition bumpClientGeneration = do {
     let oldStatus = st_Status s;
     let bumped = (if bumpClientGeneration then oldStatus\<lparr>st_ClientGeneration := st_ClientGeneration oldStatus + 1\<rparr> else oldStatus);
     now \<leftarrow> timeNow E;
     let newStatus = setCondition now (m_Generation (st_meta s)) condition bumped;
     if \<not> statusEqual oldStatus newStatus \<or> length (st_Conditions oldStatus) = 0
     then do {
       fresh \<leftarrow> getStore E s (m_Namespace (st_meta s)) (m_Name (st_meta s));
       case fresh of
         Inl err \<Rightarrow> ret (Inl err)
       | Inr freshObj \<Rightarrow> do {
           u \<leftarrow> updateStoreStatus_api E (setStatus newStatus freshObj);
           ret (case u of Inl err \<Rightarrow> Inl err | Inr _ \<Rightarrow> Inr True)
         }
     }
     else ret (Inr False)
   }"

definition updateStatusWithReady :: "env \<Rightarrow> store \<Rightarrow> bool res io" where
  "updateStatusWithReady E s = updateStatus E s (newCondition ConditionTrue ReasonStoreValid [] 0) False"

definition updateStatusWithError :: "env \<Rightarrow> store \<Rightarrow> string \<Rightarrow> string \<Rightarrow> goerror option io" where
  "updateStatusWithError E s reason message = do {
     u \<leftarrow> updateStatus E s (newCondition ConditionFalse reason message 0) False;
     ret (case u of Inl e \<Rightarrow> Some e | Inr _ \<Rightarrow> None)
   }"

definition updateStatusWithReadyAndGeneration :: "env \<Rightarrow> store \<Rightarrow> string \<Rightarrow> bool \<Rightarrow> goerror option io" where
  "updateStatusWithReadyAndGeneration E s capabilities clientRecreated = do {
     u \<leftarrow> updateStatus E (setStatus ((st_Status s)\<lparr>st_Capabilities := capabilities\<rparr>) s)
            (newCondition ConditionTrue ReasonStoreValid [] (m_Generation (st_meta s))) clientRecreated;
     ret (case u of Inl e \<Rightarrow> Some e | Inr _ \<Rightarrow> None)
   }"

section \<open>Reconcile\<close>

definition handleStoreDeletion ::
    "env \<Rightarrow> store \<Rightarrow> string \<Rightarrow> provider option \<Rightarrow> provider option \<Rightarrow> (int \<times> goerror option) option io" where
  "handleStoreDeletion E s clientName kmsProvider oosProvider = do {
     deleted \<leftarrow> deleteBoth kmsProvider oosProvider clientName;
     if \<not> deleted then ret None
     else if Contains (m_Finalizers (st_meta s)) secretFinalizer then do {
       u \<leftarrow> updateStore E (setMeta (\<lambda>m. m\<lparr>m_Finalizers := Remove (m_Finalizers m) secretFinalizer\<rparr>) s);
       ret (Some (0, (case u of Inl err \<Rightarrow> Some err | Inr _ \<Rightarrow> None)))
     }
     else ret (Some (0, None))
   }"

definition triggerOf :: "store \<Rightarrow> string" where
  "triggerOf s = gm_str (m_Annotations (st_meta s)) TriggerReconcileAnnotation"

definition withoutTrigger :: "store \<Rightarrow> store" where
  "withoutTrigger = setMeta (\<lambda>m. m\<lparr>m_Annotations := gm_del (m_Annotations m) TriggerReconcileAnnotation\<rparr>)"

text \<open>Clearing the trigger annotation after the status write.\<close>

definition clearTrigger ::
    "env \<Rightarrow> StoreReconciler \<Rightarrow> store \<Rightarrow> string \<Rightarrow> string \<Rightarrow> string \<Rightarrow> (int \<times> goerror option) io" where
  "clearTrigger E r kind namespace name triggerAnnotation = do {
     got \<leftarrow> getStore E kind namespace name;
     case got of
       Inl err \<Rightarrow> ret (sc_ReconciliationPeriod r, if errors_Is err NotFound then None else Some err)
     | Inr latestStore \<Rightarrow>
         if triggerOf latestStore \<noteq> triggerAnnotation then ret (sc_ReconciliationPeriod r, None)
         else do {
           u \<leftarrow> patchStore E latestStore (withoutTrigger latestStore);
           ret (case u of Inl err \<Rightarrow> (sc_ReconciliationPeriod r, Some err) | Inr _ \<Rightarrow> (0, None))
         }
   }"

text \<open>The part after validation.\<close>

definition reconcileValid ::
    "env \<Rightarrow> StoreReconciler \<Rightarrow> store \<Rightarrow> string \<Rightarrow> string \<Rightarrow> string \<Rightarrow> provider option \<Rightarrow> provider option
       \<Rightarrow> (int \<times> goerror option) option io" where
  "reconcileValid E r s namespace name clientName kmsProvider oosProvider = do {
     let triggerAnnotation = triggerOf s;
     need \<leftarrow> (if triggerAnnotation \<noteq> [] then ret True else needRecreateClient s clientName kmsProvider oosProvider);
     if need then do {
       made \<leftarrow> recreateClient E r clientName kmsProvider oosProvider s;
       case made of
         None \<Rightarrow> ret None
       | Some (Inl err) \<Rightarrow> do {
           _ \<leftarrow> updateStatusWithError E s ReasonClientCreationFailed (err_msg err);
           ret (Some (sc_ReconciliationPeriod r, Some err))
         }
       | Some (Inr _) \<Rightarrow> do {
           statusErr \<leftarrow> updateStatusWithReadyAndGeneration E s SecretStoreReadOnly True;
           case statusErr of
             Some e \<Rightarrow> ret (Some (sc_ReconciliationPeriod r, Some e))
           | None \<Rightarrow>
               if triggerAnnotation \<noteq> [] then do {
                 done' \<leftarrow> clearTrigger E r s namespace name triggerAnnotation;
                 ret (Some done')
               }
               else ret (Some (0, None))
         }
     }
     else if length (st_Conditions (st_Status s)) = 0 then do {
       statusErr \<leftarrow> updateStatusWithReadyAndGeneration E s SecretStoreReadOnly False;
       ret (Some (case statusErr of Some e \<Rightarrow> (sc_ReconciliationPeriod r, Some e) | None \<Rightarrow> (0, None)))
     }
     else do {
       u \<leftarrow> updateStatusWithReady E s;
       ret (Some (sc_ReconciliationPeriod r, (case u of Inl e \<Rightarrow> Some e | Inr _ \<Rightarrow> None)))
     }
   }"

definition addStoreFinalizer :: "env \<Rightarrow> store \<Rightarrow> goerror option io" where
  "addStoreFinalizer E s = do {
     u \<leftarrow> updateStore E (setMeta (\<lambda>m. m\<lparr>m_Finalizers := m_Finalizers m @ [secretFinalizer]\<rparr>) s);
     ret (case u of Inl e \<Rightarrow> Some e | Inr _ \<Rightarrow> None)
   }"

text \<open>After the finalizer: validate, then the rest.\<close>

definition reconcileStore ::
    "env \<Rightarrow> StoreReconciler \<Rightarrow> (store \<Rightarrow> goerror option) \<Rightarrow> store \<Rightarrow> string \<Rightarrow> string \<Rightarrow> string
       \<Rightarrow> provider option \<Rightarrow> provider option \<Rightarrow> (int \<times> goerror option) option io" where
  "reconcileStore E r validate s namespace name clientName kmsProvider oosProvider = (case validate s of
      Some validationErr \<Rightarrow> do {
        err \<leftarrow> updateStatusWithError E s ReasonValidationFailed (err_msg validationErr);
        ret (Some (sc_ReconciliationPeriod r, Some (case err of Some e \<Rightarrow> e | None \<Rightarrow> validationErr)))
      }
    | None \<Rightarrow> reconcileValid E r s namespace name clientName kmsProvider oosProvider)"

text \<open>The body common to both controllers: the kind of store read, its validation and its client name
  are the arguments.\<close>

definition reconcileFetched ::
    "env \<Rightarrow> StoreReconciler \<Rightarrow> (store \<Rightarrow> goerror option) \<Rightarrow> (store \<Rightarrow> string) \<Rightarrow> string \<Rightarrow> string \<Rightarrow> store res
       \<Rightarrow> (int \<times> goerror option) option io" where
  "reconcileFetched E r validate nameOf namespace name got = (case got of
      Inl err \<Rightarrow> ret (Some (0, IgnoreNotFoundError err))
    | Inr s \<Rightarrow> do {
        let clientName = nameOf s;
        kmsProvider \<leftarrow> GetProviderByName ProviderKMSName;
        oosProvider \<leftarrow> GetProviderByName ProviderOOSName;
        if m_DeletionTimestamp (st_meta s) \<noteq> None
        then handleStoreDeletion E s clientName kmsProvider oosProvider
        else if \<not> Contains (m_Finalizers (st_meta s)) secretFinalizer then do {
          err \<leftarrow> addStoreFinalizer E s;
          case err of
            Some e \<Rightarrow> ret (Some (sc_ReconciliationPeriod r, Some e))
          | None \<Rightarrow> do {
              again \<leftarrow> getStore E s namespace name;
              case again of
                Inl e \<Rightarrow> ret (Some (sc_ReconciliationPeriod r, Some e))
              | Inr s' \<Rightarrow> reconcileStore E r validate s' namespace name clientName kmsProvider oosProvider
            }
        }
        else reconcileStore E r validate s namespace name clientName kmsProvider oosProvider
      })"

definition SecretStore_Reconcile :: "env \<Rightarrow> StoreReconciler \<Rightarrow> string \<Rightarrow> string \<Rightarrow> (int \<times> goerror option) option io" where
  "SecretStore_Reconcile E r namespace name = do {
     got \<leftarrow> getSecretStore_api E namespace name;
     reconcileFetched E r (validateSecretStoreSpec r)
       (\<lambda>s. SecretStoreKey (m_Namespace (st_meta s)) (m_Name (st_meta s))) namespace name
       (case got of Inl e \<Rightarrow> Inl e | Inr x \<Rightarrow> Inr (SS x))
   }"

definition ClusterSecretStore_Reconcile :: "env \<Rightarrow> StoreReconciler \<Rightarrow> string \<Rightarrow> string \<Rightarrow> (int \<times> goerror option) option io" where
  "ClusterSecretStore_Reconcile E r namespace name = do {
     got \<leftarrow> getClusterSecretStore_api E name;
     reconcileFetched E r (validateClusterSecretStoreSpec E)
       (\<lambda>s. ClusterStoreKey (m_Name (st_meta s))) namespace name
       (case got of Inl e \<Rightarrow> Inl e | Inr x \<Rightarrow> Inr (CSS x))
   }"

section \<open>Event filters\<close>

definition storeUpdateAdmitted :: "bool \<Rightarrow> bool \<Rightarrow> store \<Rightarrow> store \<Rightarrow> bool" where
  "storeUpdateAdmitted sameObject specEqual oldObj newObj =
     (if \<not> specEqual \<or>
         pointersDiffer sameObject (m_DeletionTimestamp (st_meta oldObj)) (m_DeletionTimestamp (st_meta newObj)) \<or>
         m_Generation (st_meta oldObj) \<noteq> m_Generation (st_meta newObj)
      then True
      else triggerOf oldObj \<noteq> triggerOf newObj \<and> triggerOf newObj \<noteq> [])"

definition SecretStorePredicate :: "SecretStore watch_event \<Rightarrow> bool" where
  "SecretStorePredicate ev = (case ev of
      Updated s oldObj newObj \<Rightarrow> storeUpdateAdmitted s (ss_Spec oldObj = ss_Spec newObj) (SS oldObj) (SS newObj)
    | _ \<Rightarrow> True)"

definition ClusterSecretStorePredicate :: "ClusterSecretStore watch_event \<Rightarrow> bool" where
  "ClusterSecretStorePredicate ev = (case ev of
      Updated s oldObj newObj \<Rightarrow> storeUpdateAdmitted s (css_Spec oldObj = css_Spec newObj) (CSS oldObj) (CSS newObj)
    | _ \<Rightarrow> True)"

end
