(* ===== verification/Store_Protocol.thy ===== *)
theory Store_Protocol
  imports Stores
begin

text \<open>
  What the store controllers guarantee: validation accepts exactly the well-formed specs, a status is
  written only when it says something new, the clients of a store are retired before they are rebuilt,
  and the trigger annotation is cleared only after the rebuild is recorded in the status.
\<close>

section \<open>Validation\<close>

lemma firstError_None [simp]: "firstError a b = None \<longleftrightarrow> a = None \<and> b = None"
  by (cases a) (simp_all add: firstError_def)

lemma validateStoreSpec_None:
  "validateStoreSpec s kind = None \<longleftrightarrow> (storeConfiguresKMS s \<noteq> storeConfiguresOOS s)"
  by (auto simp: validateStoreSpec_def storeConfiguresKMS_def storeConfiguresOOS_def Let_def)

text \<open>The auth block of a validated store: that of its one provider.\<close>

lemma activeAuth_unique:
  "storeConfiguresKMS s \<noteq> storeConfiguresOOS s \<Longrightarrow> activeAuth s = Some a \<longleftrightarrow>
     innerAuth (GetKMS s) = Some a \<or> innerAuth (GetOOS s) = Some a"
  by (auto simp: activeAuth_def storeConfiguresKMS_def storeConfiguresOOS_def split: option.splits)

text \<open>The namespaces an auth block refers to.\<close>

definition refNamespaces :: "StoreAuth \<Rightarrow> strset" where
  "refNamespaces a = (case au_ServiceAccountRef a of Some r \<Rightarrow> [sa_Namespace r] | None \<Rightarrow> []) @
     (case au_AccessKey a of Some r \<Rightarrow> [sr_Namespace r] | None \<Rightarrow> []) @
     (case au_AccessKeySecret a of Some r \<Rightarrow> [sr_Namespace r] | None \<Rightarrow> [])"

lemma validateRegexes_None:
  "validateRegexes E i j rs = None \<longleftrightarrow> list_all (\<lambda>r. ok (e_regex E r)) rs"
  by (induction rs arbitrary: j) (auto simp: ok_def split: sum.splits)

lemma validateConditions_None:
  "validateConditions E i cs = None \<longleftrightarrow> list_all (\<lambda>c. (case nc_NamespaceSelector c of None \<Rightarrow> True
       | Some sel \<Rightarrow> ok (e_selector E sel)) \<and> list_all (\<lambda>r. ok (e_regex E r)) (nc_NamespaceRegexes c)) cs"
  by (induction cs arbitrary: i) (auto simp: validateRegexes_None ok_def split: option.splits sum.splits)

lemma secretStore_valid:
  assumes "activeAuth s = Some a"
  shows "validateSecretStoreSpec r s = None \<longleftrightarrow> storeConfiguresKMS s \<noteq> storeConfiguresOOS s \<and>
    (sc_EnableCrossNamespaceAuthRef r \<or> list_all (\<lambda>n. n = [] \<or> n = m_Namespace (st_meta s)) (refNamespaces a))"
  using assms validateStoreSpec_None [of s "''SecretStore''"]
  by (auto simp: validateSecretStoreSpec_def Let_def GetServiceAccountRef_spec_def GetAccessKey_spec_def
      GetAccessKeySecret_spec_def validateKeyRef_def leaves_def refNamespaces_def split: option.splits)

lemma clusterStore_valid:
  assumes "activeAuth s = Some a"
  shows "validateClusterSecretStoreSpec E s = None \<longleftrightarrow> storeConfiguresKMS s \<noteq> storeConfiguresOOS s \<and>
    list_all (\<lambda>n. n \<noteq> []) (refNamespaces a) \<and>
    list_all (\<lambda>c. (case nc_NamespaceSelector c of None \<Rightarrow> True | Some sel \<Rightarrow> ok (e_selector E sel)) \<and>
       list_all (\<lambda>x. ok (e_regex E x)) (nc_NamespaceRegexes c)) (GetConditions s)"
  using assms validateStoreSpec_None [of s "''ClusterSecretStore''"]
  by (auto simp: validateClusterSecretStoreSpec_def validateConditions_None GetServiceAccountRef_spec_def GetAccessKey_spec_def
      GetAccessKeySecret_spec_def namespaceRequired_def refNamespaces_def split: option.splits)

lemma no_auth_invalid:
  assumes "activeAuth s = None"
  shows "validateSecretStoreSpec r s \<noteq> None" "validateClusterSecretStoreSpec E s \<noteq> None"
  using assms validateStoreSpec_None [of s]
  by (auto simp: validateSecretStoreSpec_def validateClusterSecretStoreSpec_def activeAuth_def storeConfiguresKMS_def
      storeConfiguresOOS_def split: option.splits)

section \<open>Conditions\<close>

text \<open>The condition of a type: the first one.\<close>

definition conditionOf :: "string \<Rightarrow> SecretStoreStatusCondition list \<Rightarrow> SecretStoreStatusCondition option" where
  "conditionOf t cs = List.find (\<lambda>c. c_Type c = t) cs"

lemma conditionOf_simps [simp]:
  "conditionOf t [] = None"
  "conditionOf t (c # cs) = (if c_Type c = t then Some c else conditionOf t cs)"
  by (simp_all add: conditionOf_def)

lemma conditionOf_put:
  "conditionOf t (putCondition now c cs) =
    (if t = c_Type c
     then Some (c\<lparr>c_LastTransitionTime := (case conditionOf t cs of
            Some old \<Rightarrow> if sameState old c then c_LastTransitionTime old else now | None \<Rightarrow> now)\<rparr>)
     else conditionOf t cs)"
  by (induction cs) auto

lemma length_putCondition:
  "length (putCondition now c cs) = (if conditionOf (c_Type c) cs = None then length cs + 1 else length cs)"
  by (induction cs) auto

lemma ready_conditionOf:
  "ReadyConditionObservedGeneration cs = (case conditionOf SecretStoreReady cs of
     Some c \<Rightarrow> (c_ObservedGeneration c, True) | None \<Rightarrow> (0, False))"
  by (induction cs) auto

section \<open>The status debounce\<close>

definition clearTime :: "SecretStoreStatusCondition \<Rightarrow> SecretStoreStatusCondition" where
  "clearTime c = c\<lparr>c_LastTransitionTime := 0\<rparr>"

lemma clearTime_simps [simp]:
  "c_Type (clearTime c) = c_Type c" "c_ObservedGeneration (clearTime c) = c_ObservedGeneration c"
  "clearTime (c\<lparr>c_LastTransitionTime := t\<rparr>) = clearTime c"
  by (simp_all add: clearTime_def)

text \<open>What a status says, transition times apart.\<close>

definition statusView :: "SecretStoreStatus \<Rightarrow> string \<times> int \<times> SecretStoreStatusCondition list" where
  "statusView st = (st_Capabilities st, st_ClientGeneration st, map clearTime (st_Conditions st))"

lemma conditionsEqual_iff:
  "length os = length ds \<Longrightarrow> conditionsEqual os ds \<longleftrightarrow> map clearTime os = map clearTime ds"
  by (induction os ds rule: list_induct2) (simp_all add: clearTime_def)

interpretation store_debounce: status_debounce "\<lambda>old new. \<not> statusEqual old new" statusView
proof (unfold_locales, goal_cases)
  case (1 a b)
  show ?case
  proof (cases "length (st_Conditions b) = length (st_Conditions a)")
    case True
    then show ?thesis using conditionsEqual_iff [OF True] by (auto simp: statusEqual_def statusView_def)
  next
    case False
    then have "map clearTime (st_Conditions a) \<noteq> map clearTime (st_Conditions b)" by (metis length_map)
    then show ?thesis using False by (simp add: statusEqual_def statusView_def)
  qed
qed

lemma put_unchanged:
  "map clearTime (putCondition t c cs) = map clearTime cs \<longleftrightarrow> map_option clearTime (conditionOf (c_Type c) cs) = Some (clearTime c)"
  by (induction cs) auto

text \<open>The status a handler would store.\<close>

definition proposedStatus :: "int \<Rightarrow> store \<Rightarrow> SecretStoreStatusCondition \<Rightarrow> bool \<Rightarrow> SecretStoreStatus" where
  "proposedStatus now s condition bump = setCondition now (m_Generation (st_meta s)) condition
     (let st = st_Status s in if bump then st\<lparr>st_ClientGeneration := st_ClientGeneration st + 1\<rparr> else st)"

definition alreadySaid :: "store \<Rightarrow> SecretStoreStatusCondition \<Rightarrow> bool" where
  "alreadySaid s condition \<longleftrightarrow> map_option clearTime (conditionOf (c_Type condition) (st_Conditions (st_Status s))) =
     Some (clearTime (condition\<lparr>c_ObservedGeneration := m_Generation (st_meta s)\<rparr>))"

lemma debounce_iff:
  "statusEqual (st_Status s) (proposedStatus now s condition bump) \<longleftrightarrow> \<not> bump \<and> alreadySaid s condition"
proof -
  have "statusEqual (st_Status s) (proposedStatus now s condition bump) \<longleftrightarrow>
      statusView (st_Status s) = statusView (proposedStatus now s condition bump)"
    using store_debounce.changed_iff by blast
  also have "\<dots> \<longleftrightarrow> \<not> bump \<and> alreadySaid s condition"
    using put_unchanged [of now "condition\<lparr>c_ObservedGeneration := m_Generation (st_meta s)\<rparr>"]
    by (auto simp: statusView_def proposedStatus_def setCondition_def Let_def alreadySaid_def dest: sym)
  finally show ?thesis .
qed

lemma alreadySaid_nonempty: "alreadySaid s c \<Longrightarrow> st_Conditions (st_Status s) \<noteq> []"
  by (auto simp: alreadySaid_def)

fun storeRead :: "event \<Rightarrow> bool" where
  "storeRead (GetSecretStore _ _) = True"
| "storeRead (GetClusterSecretStore _) = True"
| "storeRead _ = False"

fun storeWrite :: "event \<Rightarrow> bool" where
  "storeWrite (UpdateStore _ _) = True"
| "storeWrite (UpdateStoreStatus _ _) = True"
| "storeWrite (PatchStore _ _ _) = True"
| "storeWrite _ = False"

fun statusWrite :: "event \<Rightarrow> bool" where
  "statusWrite (UpdateStoreStatus _ _) = True"
| "statusWrite _ = False"

lemma read_not_write: "storeRead e \<Longrightarrow> \<not> storeWrite e"
  by (cases e) simp_all

text \<open>A status update either finds its condition already recorded and only reads the clock, or stores the
  proposed status on a fresh copy of the store.\<close>

lemma post_updateStatus:
  "post (updateStatus E s condition bump) (\<lambda>res new. \<exists>t.
     if \<not> bump \<and> alreadySaid s condition then res = Inr False \<and> new = [Clock t]
     else (case res of
         Inr b \<Rightarrow> \<exists>fresh rd. b \<and> storeRead rd \<and> new = [UpdateStoreStatus (setStatus (proposedStatus t s condition bump) fresh) True, rd, Clock t]
       | Inl e \<Rightarrow> list_all (\<lambda>ev. storeRead ev \<or> ev = Clock t \<or>
           (\<exists>fresh. ev = UpdateStoreStatus (setStatus (proposedStatus t s condition bump) fresh) False)) new))"
proof -
  have eq: "setCondition t (m_Generation (st_meta s)) condition
      (if bump then (st_Status s)\<lparr>st_ClientGeneration := st_ClientGeneration (st_Status s) + 1\<rparr> else st_Status s) =
      proposedStatus t s condition bump" for t
    by (simp add: proposedStatus_def Let_def)
  have get: "post (getStore E s ns n) (\<lambda>_ new. \<exists>rd. storeRead rd \<and> new = [rd])" for ns n
    unfolding getStore_def api_defs by (cases s; simp; intro post_intros) auto
  show ?thesis
    unfolding updateStatus_def Let_def timeNow_def eq debounce_iff
  proof (intro post_bind_call post_if, goal_cases)
    case (1 t)
    then have a: "\<not> (\<not> bump \<and> alreadySaid s condition)" using alreadySaid_nonempty by auto
    show ?case
      unfolding updateStoreStatus_api_def
      by (intro post_bind [OF get] post_intros)
        (use a in \<open>auto simp: ok_def split: sum.splits intro!: exI [of _ "e_now E t"]\<close>)
  next
    case (2 t)
    then show ?case using alreadySaid_nonempty by (intro post_intros) auto
  qed
qed

section \<open>Events of the handlers\<close>

fun build_event :: "event \<Rightarrow> bool" where
  "build_event NewKubeClient = True"
| "build_event e = client_event e"

lemma build_not_write: "build_event e \<Longrightarrow> \<not> storeWrite e"
  by (cases e) simp_all

lemma client_is_build: "client_event e \<Longrightarrow> build_event e"
  by (cases e) simp_all

lemma emits_deleteBoth [emits_intros]: "(\<And>s. P (StopRefresher s)) \<Longrightarrow> emits P (deleteBoth k q n)"
  unfolding deleteBoth_def by (intro emits_intros) simp_all

lemma emits_needRecreateClient [emits_intros]: "emits P (needRecreateClient s n k q)"
  unfolding needRecreateClient_def hasClient_def by (intro emits_intros)

lemma emits_createClient [emits_intros]:
  assumes "\<And>e. build_event e \<Longrightarrow> P e"
  shows "emits P (createKMSClient E s kc k)" "emits P (createOOSClient E s kc q)"
proof -
  have reg: "emits P (Register pv n c)" for pv n c by (intro emits_intros) (simp add: assms)
  have new: "emits P (NewClient E pv (asSecretStore s) kc [])" for pv
    by (intro emits_intros) (simp add: assms client_is_build)
  show "emits P (createKMSClient E s kc k)" "emits P (createOOSClient E s kc q)"
    unfolding createKMSClient_def createOOSClient_def
    by (intro emits_bind [OF new] emits_sum emits_ret; simp split: SecretClient.split; intro allI impI conjI emits_bind [OF reg] emits_ret)+
qed

lemma recreateClient_cases:
  "recreateClient E r n k q s = (case (k, q) of
     (Some k, Some q) \<Rightarrow> do {
       _ \<leftarrow> DeletePrefixed k n; _ \<leftarrow> DeletePrefixed q n;
       kube \<leftarrow> newClientset E r;
       case kube of
         Inl err \<Rightarrow> ret (Some (Inl err))
       | Inr kubeClient \<Rightarrow> do {
           made \<leftarrow> (if storeConfiguresKMS s then createKMSClient E s kubeClient k
                    else if storeConfiguresOOS s then createOOSClient E s kubeClient q
                    else ret (Inl (errorf (''no valid provider found for store '' @ m_Namespace (st_meta s) @ ''/'' @
                           m_Name (st_meta s)))));
           ret (Some made)
         }
     }
   | (Some k, None) \<Rightarrow> do { _ \<leftarrow> DeletePrefixed k n; ret None }
   | (None, _) \<Rightarrow> ret None)"
  by (cases k; cases q) (simp_all add: recreateClient_def deleteBoth_def bind_bind)

lemma emits_recreateClient [emits_intros]:
  assumes "\<And>e. build_event e \<Longrightarrow> P e"
  shows "emits P (recreateClient E r n k q s)"
proof -
  have del: "emits P (DeletePrefixed pv n)" for pv by (intro emits_intros) (simp add: assms)
  have kube: "emits P (newClientset E r)"
    unfolding newClientset_def by (intro emits_intros) (simp add: assms)
  show ?thesis
    unfolding recreateClient_cases
    by (cases k; cases q; simp; intro emits_intros del kube assms)
qed

lemma emits_recreate: "emits (\<lambda>e. \<not> storeWrite e) (recreateClient E r n k q s)"
  by (intro emits_intros) (simp add: build_not_write)

section \<open>The trigger protocol\<close>

lemma triggerOf_withoutTrigger:
  "gm_ok (m_Annotations (st_meta s)) \<Longrightarrow> triggerOf (withoutTrigger s) = []"
  by (cases s) (simp_all add: triggerOf_def withoutTrigger_def setMeta_def st_meta_def gm_str_def)

text \<open>The status of a rebuild: the next client generation, and Ready at the generation of the store read.\<close>

definition recordsRebuild :: "store \<Rightarrow> SecretStoreStatus \<Rightarrow> bool" where
  "recordsRebuild s st \<longleftrightarrow> st_ClientGeneration st = st_ClientGeneration (st_Status s) + 1 \<and>
     ReadyConditionObservedGeneration (st_Conditions st) = (m_Generation (st_meta s), True)"

lemma setStatus_simps [simp]:
  "st_Status (setStatus st s) = st" "st_meta (setStatus st s) = st_meta s" "triggerOf (setStatus st s) = triggerOf s"
  by (cases s; simp add: setStatus_def st_Status_def st_meta_def triggerOf_def)+

lemma proposed_records:
  "recordsRebuild s (proposedStatus t (setStatus ((st_Status s)\<lparr>st_Capabilities := c\<rparr>) s)
     (newCondition ConditionTrue ReasonStoreValid [] g) True)"
  by (simp add: recordsRebuild_def proposedStatus_def setCondition_def Let_def ready_conditionOf conditionOf_put newCondition_def)

lemma post_readyAndGeneration:
  "post (updateStatusWithReadyAndGeneration E s caps True) (\<lambda>res new. list_all (\<lambda>e. \<not> storeWrite e \<or> statusWrite e) new \<and>
     (case res of Some _ \<Rightarrow> True
        | None \<Rightarrow> \<exists>f rd t. new = [UpdateStoreStatus f True, rd, Clock t] \<and> recordsRebuild s (st_Status f)))"
  unfolding updateStatusWithReadyAndGeneration_def
proof (intro post_bind [OF post_updateStatus] post_ret, goal_cases)
  case (1 res new)
  show ?case
  proof (cases res)
    case (Inl e)
    then show ?thesis using 1 read_not_write by (fastforce simp: list_all_iff)
  next
    case (Inr b)
    then show ?thesis using 1 proposed_records read_not_write by (auto simp: list_all_iff)
  qed
qed

lemma post_getStore:
  "post (getStore E s ns n) (\<lambda>_ new. \<exists>rd. storeRead rd \<and> new = [rd])"
  unfolding getStore_def api_defs by (cases s; simp; intro post_intros) auto

definition isPatch :: "event \<Rightarrow> bool" where
  "isPatch e \<longleftrightarrow> (case e of PatchStore _ _ _ \<Rightarrow> True | _ \<Rightarrow> False)"

lemma read_not_patch [simp]: "storeRead e \<Longrightarrow> \<not> isPatch e"
  by (cases e) (simp_all add: isPatch_def)

lemma post_clearTrigger:
  "post (clearTrigger E r s ns n trigger) (\<lambda>res new. list_all (\<lambda>e. \<not> isPatch e) new \<or>
     (\<exists>old b rd. new = [PatchStore old (withoutTrigger old) b, rd] \<and> storeRead rd \<and> triggerOf old = trigger))"
  unfolding clearTrigger_def patchStore_def
  by (intro post_bind [OF post_getStore] post_intros) auto

text \<open>A rebuild that succeeds made an SDK client.\<close>

definition sdkMade :: "event \<Rightarrow> bool" where
  "sdkMade e \<longleftrightarrow> (case e of SdkNew _ _ _ _ \<Rightarrow> True | _ \<Rightarrow> False)"

lemma post_NewClient_sdk: "post (NewClient E pv st kc ep) (\<lambda>res new. isl res \<or> list_ex sdkMade new)"
proof -
  have kms: "post (kms_newClientWithAuth E pv n a e) (\<lambda>res new. isl res \<or> list_ex sdkMade (new @ m))"
    and oos: "post (oos_newClientWithAuth E pv n a) (\<lambda>res new. isl res \<or> list_ex sdkMade (new @ m))" for n a e m
    unfolding kms_newClientWithAuth_def oos_newClientWithAuth_def sdkNew_def Let_def
    by (intro post_bind_emits [where P = "\<lambda>_. True"] emits_GetAuthCred post_intros; auto simp: sdkMade_def split: sum.splits)+
  have b: "emits (\<lambda>_. True) (BuildAuthConfig E st kc ap cid uid)" for ap cid uid by (intro emits_intros) simp_all
  show ?thesis
    unfolding NewClient_def kms_NewClient_def oos_NewClient_def Let_def
    by (cases "pv_kind pv"; simp; intro post_bind_emits [OF b] post_sum post_ret kms oos; simp)
qed

lemma post_recreateClient:
  "post (recreateClient E r n k q s) (\<lambda>res new. list_all (\<lambda>e. \<not> storeWrite e) new \<and>
     (case res of Some (Inr _) \<Rightarrow> list_ex sdkMade new | _ \<Rightarrow> True))"
proof -
  have reg: "emits (\<lambda>_. True) (Register pv c x)" for pv c x by (intro emits_intros) simp
  have create: "post (createKMSClient E s kc pv) (\<lambda>res new. isl res \<or> list_ex sdkMade new)"
    "post (createOOSClient E s kc pv) (\<lambda>res new. isl res \<or> list_ex sdkMade new)" for kc pv
    unfolding createKMSClient_def createOOSClient_def
    by (intro post_bind [OF post_NewClient_sdk] post_sum post_ret; simp split: SecretClient.split;
        intro allI impI conjI post_ret post_bind_emits [OF reg]; simp)+
  let ?Q = "\<lambda>res new. case res of Some (Inr _) \<Rightarrow> list_ex sdkMade new | _ \<Rightarrow> True"
  have made: "post (do { made \<leftarrow> (if b then createKMSClient E s kc k' else if c then createOOSClient E s kc q' else ret (Inl e)); ret (Some made) }) ?Q"
    for b c kc k' q' e
    by (intro post_bind_if post_bind [OF create(1)] post_bind [OF create(2)] post_intros) (auto split: sum.splits)
  have del: "emits (\<lambda>_. True) (DeletePrefixed pv n)" and kube: "emits (\<lambda>_. True) (newClientset E r)" for pv
    unfolding newClientset_def by (intro emits_intros; simp)+
  have "post (recreateClient E r n k q s) ?Q"
    unfolding recreateClient_cases
  proof ((cases k; cases q; simp only: option.case prod.case), goal_cases)
    case (4 a b)
    show ?case
      by (intro post_bind_emits [OF del] post_bind_emits [OF kube] post_sum post_ret post_conseq [OF made])
        (auto split: option.splits sum.splits)
  qed (intro post_bind_emits [OF del] post_ret; simp)+
  from post_emits [OF this emits_recreate] show ?thesis by (rule post_conseq) blast
qed

text \<open>The events, newest first, of a run that clears the trigger of the store \<open>s\<close>.\<close>

definition clearedAfterRebuild :: "store \<Rightarrow> event list \<Rightarrow> bool" where
  "clearedAfterRebuild s new \<longleftrightarrow> (\<exists>old b rd f rd' t built.
     new = [PatchStore old (withoutTrigger old) b, rd, UpdateStoreStatus f True, rd', Clock t] @ built \<and>
     storeRead rd \<and> triggerOf old = triggerOf s \<and> triggerOf s \<noteq> [] \<and> recordsRebuild s (st_Status f) \<and>
     list_ex sdkMade built \<and> list_all (\<lambda>e. \<not> isPatch e) built)"

lemma clearedAfterRebuild_status:
  assumes "clearedAfterRebuild s new"
  shows "\<exists>f. UpdateStoreStatus f True \<in> set new \<and> recordsRebuild s (st_Status f)"
proof -
  obtain old b rd f rd' t built where
    "new = [PatchStore old (withoutTrigger old) b, rd, UpdateStoreStatus f True, rd', Clock t] @ built" "recordsRebuild s (st_Status f)"
    using assms unfolding clearedAfterRebuild_def by blast
  then show ?thesis by (intro exI [of _ f]) simp
qed

lemma noPatch_of_noWrite: "list_all (\<lambda>e. \<not> storeWrite e) n \<Longrightarrow> list_all (\<lambda>e. \<not> isPatch e) n"
  by (auto simp: list_all_iff isPatch_def split: event.splits)

lemma noPatch_of_status: "list_all (\<lambda>e. \<not> storeWrite e \<or> statusWrite e) n \<Longrightarrow> list_all (\<lambda>e. \<not> isPatch e) n"
  unfolding list_all_iff by (intro ballI) (auto simp: isPatch_def dest!: bspec split: event.splits)

lemma emits_getStore [emits_intros]: "(\<And>e. storeRead e \<Longrightarrow> P e) \<Longrightarrow> emits P (getStore E s ns n)"
  unfolding emits_def by (rule post_conseq [OF post_getStore]) (auto simp: list_all_iff)

lemma updateStatus_noPatch: "emits (\<lambda>e. \<not> isPatch e) (updateStatus E s c b)"
  unfolding updateStatus_def updateStoreStatus_api_def timeNow_def Let_def
  by (intro emits_intros) (auto simp: isPatch_def dest: read_not_write split: event.splits)

lemma post_reconcileValid:
  "post (reconcileValid E r s ns n cn k q) (\<lambda>res new. list_all (\<lambda>e. \<not> isPatch e) new \<or> clearedAfterRebuild s new)"
proof -
  let ?N = "\<lambda>new. list_all (\<lambda>e. \<not> isPatch e) new"
  have status: "emits (\<lambda>e. \<not> isPatch e) (updateStatusWithError E s re m)" "emits (\<lambda>e. \<not> isPatch e) (updateStatusWithReady E s)"
    "emits (\<lambda>e. \<not> isPatch e) (updateStatusWithReadyAndGeneration E s c b)" for re m c b
    unfolding updateStatusWithError_def updateStatusWithReady_def updateStatusWithReadyAndGeneration_def
    by (intro emits_intros updateStatus_noPatch)+
  have need: "emits (\<lambda>e. \<not> isPatch e) (if b then ret True else needRecreateClient s cn k q)" for b
    by (intro emits_intros)
  show ?thesis
    unfolding reconcileValid_def Let_def
  proof (intro post_bind_emits [OF need] post_if, goal_cases)
    case (1 need n0)
    show ?case
    proof (rule post_bind [OF post_recreateClient], intro post_option post_sum, goal_cases)
      case (1 made n1)
      then show ?case using \<open>?N n0\<close> noPatch_of_noWrite by (intro post_ret) auto
    next
      case (2 made n1 x e)
      then show ?case using \<open>?N n0\<close> noPatch_of_noWrite by (intro post_bind_emits [OF status(1)] post_ret) auto
    next
      case (3 made n1 x u)
      then have built: "list_ex sdkMade n1" "?N (n1 @ n0)" using \<open>?N n0\<close> noPatch_of_noWrite by auto
      show ?case
      proof (rule post_bind [OF post_readyAndGeneration], intro post_option post_if, goal_cases)
        case (1 res n2)
        then have "?N n2" by (blast intro: noPatch_of_status)
        moreover obtain f rd t where "n2 = [UpdateStoreStatus f True, rd, Clock t]" "recordsRebuild s (st_Status f)"
          using 1 by auto
        ultimately have n2: "n2 = [UpdateStoreStatus f True, rd, Clock t]" "recordsRebuild s (st_Status f)" "?N n2" by blast+
        show ?case
        proof (intro post_bind [OF post_clearTrigger] post_ret, goal_cases)
          case (1 res' n3)
          then show ?case
          proof
            assume "?N n3" then show ?thesis using n2(3) built by simp
          next
            assume "\<exists>old b rd. n3 = [PatchStore old (withoutTrigger old) b, rd] \<and> storeRead rd \<and> triggerOf old = triggerOf s"
            then have "clearedAfterRebuild s (n3 @ n2 @ n1 @ n0)"
              unfolding clearedAfterRebuild_def n2(1) using n2(2) built \<open>triggerOf s \<noteq> []\<close> by fastforce
            then show ?thesis by simp
          qed
        qed
      next
        case (2 res n2)
        then show ?case using built noPatch_of_status by (intro post_ret) auto
      next
        case (3 res n2 e)
        then show ?case using built noPatch_of_status by (intro post_ret) auto
      qed
    qed
  qed (intro post_bind_emits [OF status(2)] post_bind_emits [OF status(3)] post_ret; simp)+
qed

text \<open>An object the API server answers for the request.\<close>

definition storeAnswer :: "env \<Rightarrow> string \<Rightarrow> string \<Rightarrow> store \<Rightarrow> bool" where
  "storeAnswer E namespace name s \<longleftrightarrow> (case s of
      SS x \<Rightarrow> \<exists>t. e_GetSecretStore E t namespace name = Inr x
    | CSS x \<Rightarrow> \<exists>t. e_GetClusterSecretStore E t name = Inr x)"

lemma post_getStore_answer:
  "post (getStore E s ns n) (\<lambda>res new. \<exists>rd. storeRead rd \<and> new = [rd] \<and> (\<forall>s'. res = Inr s' \<longrightarrow> storeAnswer E ns n s'))"
  unfolding getStore_def api_defs
  by (cases s; simp only: store.case; intro post_intros) (auto simp: storeAnswer_def split: sum.splits)

lemma cleared_append:
  assumes "clearedAfterRebuild s new" "list_all (\<lambda>e. \<not> isPatch e) n0"
  shows "clearedAfterRebuild s (new @ n0)"
proof -
  from assms(1) obtain old b rd f rd' t built where
    "new = [PatchStore old (withoutTrigger old) b, rd, UpdateStoreStatus f True, rd', Clock t] @ built"
    "storeRead rd" "triggerOf old = triggerOf s" "triggerOf s \<noteq> []" "recordsRebuild s (st_Status f)"
    "list_ex sdkMade built" "list_all (\<lambda>e. \<not> isPatch e) built"
    unfolding clearedAfterRebuild_def by blast
  moreover from this have "new @ n0 = [PatchStore old (withoutTrigger old) b, rd, UpdateStoreStatus f True, rd', Clock t] @ (built @ n0)"
    by simp
  ultimately show ?thesis unfolding clearedAfterRebuild_def using assms(2)
    by (metis list_all_append list_ex_append)
qed

lemma post_reconcileStore:
  "post (reconcileStore E r validate s ns n cn k q) (\<lambda>res new. list_all (\<lambda>e. \<not> isPatch e) new \<or> clearedAfterRebuild s new)"
proof -
  have err: "emits (\<lambda>e. \<not> isPatch e) (updateStatusWithError E s re m)" for re m
    unfolding updateStatusWithError_def by (intro emits_intros updateStatus_noPatch)
  show ?thesis
    unfolding reconcileStore_def
    by (intro post_option post_reconcileValid post_bind_emits [OF err] post_ret) simp
qed

lemma post_reconcileFetched:
  assumes "\<And>s. got = Inr s \<Longrightarrow> storeAnswer E ns n s"
  shows "post (reconcileFetched E r validate nameOf ns n got) (\<lambda>_ new. list_all (\<lambda>e. \<not> isPatch e) new \<or>
     (\<exists>s. storeAnswer E ns n s \<and> clearedAfterRebuild s new))"
proof -
  have del: "emits (\<lambda>e. \<not> isPatch e) (handleStoreDeletion E s cn k q)" and add: "emits (\<lambda>e. \<not> isPatch e) (addStoreFinalizer E s)" for s cn k q
    unfolding handleStoreDeletion_def addStoreFinalizer_def updateStore_def
    by (intro emits_intros; simp add: isPatch_def)+
  have prov: "emits (\<lambda>e. \<not> isPatch e) (GetProviderByName x)" for x by (intro emits_intros)
  show ?thesis
    unfolding reconcileFetched_def Let_def
  proof (intro post_sum post_bind_emits [OF prov] post_if, goal_cases)
    case (2 s k n0 q n1)
    then show ?case by (intro post_emits_only [OF del]) simp
  next
    case (3 s k n0 q n1)
    show ?case
    proof (intro post_bind_emits [OF add] post_option post_bind [OF post_getStore_answer] post_sum, goal_cases)
      case (2 err n2 res n3 s')
      then have old: "list_all (\<lambda>e. \<not> isPatch e) (n3 @ n2 @ n1 @ n0)" "storeAnswer E ns n s'" using \<open>list_all _ n0\<close> \<open>list_all _ n1\<close> by auto
      show ?case
        by (rule post_conseq [OF post_reconcileStore]) (use old cleared_append [OF _ old(1)] in auto)
    qed (use 3 in \<open>intro post_ret; auto\<close>)+
  next
    case (4 s k n0 q n1)
    show ?case
      by (rule post_conseq [OF post_reconcileStore]) (use 4 assms in \<open>auto intro!: cleared_append\<close>)
  qed (intro post_ret; simp)+
qed

section \<open>The clients of a store\<close>

text \<open>Both providers are registered under their names and their pools are well-formed.\<close>

definition providersAt :: "proc \<Rightarrow> provider \<Rightarrow> provider \<Rightarrow> bool" where
  "providersAt p k q \<longleftrightarrow> table_ok p \<and> gm_get (providerMap p) ProviderKMSName = Some k \<and>
     gm_get (providerMap p) ProviderOOSName = Some q \<and> pv_kind k = KMS \<and> pv_kind q = OOS"

lemma providersAt_facts:
  assumes "providersAt p k q"
  shows "table_ok p" "inTable k p" "inTable q p" "pv_name k = ProviderKMSName" "pv_name q = ProviderOOSName"
    "pv_name k \<noteq> pv_name q" "pv_kind k = KMS" "pv_kind q = OOS"
  using assms by (auto simp: providersAt_def table_ok_def inTable_def gm_has_def ProviderKMSName_def ProviderOOSName_def)

lemma deleteBoth_at:
  fixes n :: string
  assumes "providersAt p k q" "pv = k \<or> pv = q"
  defines "p2 \<equiv> final (DeletePrefixed q n) (final (DeletePrefixed k n) p)"
  shows "clientAt pv p2 key = (if key_family n key then Inl (not_registered key) else clientAt pv p key)"
    and "table_ok p2" and "inTable k p2" and "inTable q p2"
proof -
  note f = providersAt_facts [OF assms(1)]
  let ?p1 = "final (DeletePrefixed k n) p"
  have p1: "table_ok ?p1" "inTable k ?p1" "inTable q ?p1" using f(1-3) by (simp_all add: pool_ops_keep)
  show "clientAt pv p2 key = (if key_family n key then Inl (not_registered key) else clientAt pv p key)"
    using assms(2) f(4-8) DeletePrefixed_at [OF p1(1,3), of pv n key] DeletePrefixed_at [OF f(1,2), of pv n key]
    by (auto simp: p2_def)
  show "table_ok p2" "inTable k p2" "inTable q p2" using p1 by (simp_all add: p2_def pool_ops_keep)
qed

lemma clients_store_ops:
  "keeps clientsKept (updateStore E s)" "keeps clientsKept (getStore E s ns n)" "keeps clientsKept (newClientset E r)"
  "keeps clientsKept (updateStatus E s c b)"
proof -
  have get: "keeps clientsKept (getStore E s ns n)" for ns n
    unfolding getStore_def api_defs by (cases s; simp only: store.case; intro clients.rules)
  show "keeps clientsKept (updateStore E s)" "keeps clientsKept (getStore E s ns n)" "keeps clientsKept (newClientset E r)"
    "keeps clientsKept (updateStatus E s c b)"
    unfolding updateStore_def newClientset_def updateStatus_def updateStoreStatus_api_def timeNow_def Let_def
    by (intro clients.rules get)+
qed

definition clientFor :: "provider \<Rightarrow> string \<Rightarrow> nat \<Rightarrow> SecretClient" where
  "clientFor pv n sdk = (case pv_kind pv of
      KMS \<Rightarrow> KMSClient (Some \<lparr>cl_clientName = n, cl_sdk = Some sdk\<rparr>)
    | OOS \<Rightarrow> OOSClient (Some \<lparr>cl_clientName = n, cl_sdk = Some sdk\<rparr>))"

definition chosenProvider :: "store \<Rightarrow> provider \<Rightarrow> provider \<Rightarrow> provider" where
  "chosenProvider s k q = (if storeConfiguresKMS s then k else q)"

text \<open>Creating and registering the client of a store, from a state without clients of its family.\<close>

lemma TrimSpace_Nil [simp]: "TrimSpace [] = []"
  by (simp add: TrimSpace_def)

lemma CompositeClientKey_Nil [simp]: "CompositeClientKey n [] = n"
  by (simp add: CompositeClientKey_def)

lemma ClientObj_eqI: "cl_clientName o1 = n \<Longrightarrow> cl_sdk o1 = Some y \<Longrightarrow> o1 = \<lparr>cl_clientName = n, cl_sdk = Some y\<rparr>"
  by (cases o1) simp

lemma createClient_at:
  assumes "table_ok p" "inTable pv p" "pv_name pv' = pv_name pv \<longrightarrow> pv_kind pv' = pv_kind pv"
    and m: "m = (case pv_kind pv of KMS \<Rightarrow> createKMSClient E s kc pv | OOS \<Rightarrow> createOOSClient E s kc pv)"
  shows "\<exists>sdk. \<forall>key. clientAt pv' (final m p) key =
    (if key = storeClientName (asSecretStore s) \<and> \<not> isl (result m p) \<and> pv_name pv' = pv_name pv
     then Inr (clientFor pv key sdk) else clientAt pv' p key)"
proof -
  let ?n = "storeClientName (asSecretStore s)"
  let ?new = "NewClient E pv (asSecretStore s) kc []"
  let ?p = "final ?new p"
  have kept: "clientsKept p ?p" using clients_NewClient by (rule keepsD)
  note at = clientsKept_clientAt [OF kept]
  have q: "table_ok ?p" "inTable pv ?p" using clientsKept_facts [OF kept] assms(1,2) by simp_all
  show ?thesis
  proof (cases "result ?new p")
    case (Inl e)
    then show ?thesis using at
      by (cases "pv_kind pv") (simp_all add: m createKMSClient_def createOOSClient_def run_simps)
  next
    case (Inr c)
    with post_new_events [OF post_NewClient [where E = E and pv = pv and st = "asSecretStore s" and kubeClient = kc and endpoint = "[]"], of p]
    have c: "clientNameOf c = Some ?n" "case pv_kind pv of KMS \<Rightarrow> kms_client c | OOS \<Rightarrow> oos_client c" by simp_all
    then obtain sdk where sdk: "c = clientFor pv ?n sdk"
      by (cases "pv_kind pv") (auto simp: kms_client_def oos_client_def clientNameOf_def clientFor_def dest!: ClientObj_eqI)
    have reg: "registrable pv c" using c(2) by (simp add: registrable_def)
    have run: "final m p = final (Register pv ?n c) ?p" "\<not> isl (result m p)"
      using Inr sdk by (cases "pv_kind pv"; simp add: m createKMSClient_def createOOSClient_def run_simps clientFor_def GetName_def)+
    have "rename_client ?n c = c" using sdk by (simp add: clientFor_def split: pkind.split)
    then have "clientAt pv' (final m p) key = (if key = ?n \<and> pv_name pv' = pv_name pv then Inr (clientFor pv key sdk) else clientAt pv' p key)" for key
      using Register_at [OF q assms(3) reg] sdk at by (simp add: run)
    then show ?thesis using run(2) by (intro exI [of _ sdk]) simp
  qed
qed

lemma recreateClient_run:
  "result (recreateClient E r n (Some k) (Some q) s) p = Some
     (let p2 = final (DeletePrefixed q n) (final (DeletePrefixed k n) p); p3 = final (newClientset E r) p2 in
      case result (newClientset E r) p2 of
        Inl e \<Rightarrow> Inl e
      | Inr kc \<Rightarrow> if storeConfiguresKMS s then result (createKMSClient E s kc k) p3
          else if storeConfiguresOOS s then result (createOOSClient E s kc q) p3
          else Inl (errorf (''no valid provider found for store '' @ m_Namespace (st_meta s) @ ''/'' @ m_Name (st_meta s))))"
  "final (recreateClient E r n (Some k) (Some q) s) p =
     (let p2 = final (DeletePrefixed q n) (final (DeletePrefixed k n) p); p3 = final (newClientset E r) p2 in
      case result (newClientset E r) p2 of
        Inl e \<Rightarrow> p3
      | Inr kc \<Rightarrow> if storeConfiguresKMS s then final (createKMSClient E s kc k) p3
          else if storeConfiguresOOS s then final (createOOSClient E s kc q) p3 else p3)"
  by (simp_all add: recreateClient_cases run_simps Let_def split: sum.split)

lemma recreateClient_at:
  fixes E :: env and r :: StoreReconciler
  assumes "providersAt p k q" "pv = k \<or> pv = q"
    and n: "n = storeClientName (asSecretStore s)" "storeConfiguresKMS s \<or> storeConfiguresOOS s"
  defines "m \<equiv> recreateClient E r n (Some k) (Some q) s"
  shows "\<exists>sdk. \<forall>key. clientAt pv (final m p) key =
    (if key = n \<and> result m p = Some (Inr ()) \<and> pv = chosenProvider s k q then Inr (clientFor pv n sdk)
     else if key_family n key then Inl (not_registered key) else clientAt pv p key)"
proof -
  let ?p2 = "final (DeletePrefixed q n) (final (DeletePrefixed k n) p)"
  let ?p3 = "final (newClientset E r) ?p2"
  note f = providersAt_facts [OF assms(1)]
  have kept: "clientsKept ?p2 ?p3" by (rule keepsD [OF clients_store_ops(3)])
  have p3: "table_ok ?p3" "inTable k ?p3" "inTable q ?p3"
    using deleteBoth_at [OF assms(1,2), of n] clientsKept_facts [OF kept] by simp_all
  have at: "clientAt pv ?p3 key = (if key_family n key then Inl (not_registered key) else clientAt pv p key)" for key
    using deleteBoth_at(1) [OF assms(1,2)] clientsKept_clientAt [OF kept] by simp
  show ?thesis
  proof (cases "result (newClientset E r) ?p2")
    case (Inl e)
    then show ?thesis using at by (simp add: m_def recreateClient_run)
  next
    case (Inr kc)
    let ?c = "chosenProvider s k q"
    let ?m = "case pv_kind ?c of KMS \<Rightarrow> createKMSClient E s kc ?c | OOS \<Rightarrow> createOOSClient E s kc ?c"
    have run: "result m p = Some (result ?m ?p3)" "final m p = final ?m ?p3"
      using Inr n(2) f(7,8) by (auto simp: m_def recreateClient_run chosenProvider_def)
    have c: "inTable ?c ?p3" "pv_name pv = pv_name ?c \<longrightarrow> pv_kind pv = pv_kind ?c" "pv = ?c \<longleftrightarrow> pv_name pv = pv_name ?c"
      using p3 f(4-8) assms(2) by (auto simp: chosenProvider_def)
    from createClient_at [OF p3(1) c(1,2), of ?m E s kc, OF HOL.refl] obtain sdk where sdk:
      "\<And>key. clientAt pv (final m p) key =
         (if key = n \<and> \<not> isl (result ?m ?p3) \<and> pv = ?c then Inr (clientFor ?c key sdk) else clientAt pv ?p3 key)"
      unfolding run n(1) [symmetric] c(3) by blast
    have "\<not> isl (result ?m ?p3) \<longleftrightarrow> result m p = Some (Inr ())"
      unfolding run by (cases "result ?m ?p3") simp_all
    then show ?thesis using sdk at by (intro exI [of _ sdk]) auto
  qed
qed

section \<open>Properties\<close>

lemma store_round_trigger:
  "post (SecretStore_Reconcile E r ns n) (\<lambda>_ new. list_all (\<lambda>e. \<not> isPatch e) new \<or>
     (\<exists>s. storeAnswer E ns n s \<and> clearedAfterRebuild s new)) \<and>
   post (ClusterSecretStore_Reconcile E r ns n) (\<lambda>_ new. list_all (\<lambda>e. \<not> isPatch e) new \<or>
     (\<exists>s. storeAnswer E ns n s \<and> clearedAfterRebuild s new))"
  unfolding SecretStore_Reconcile_def ClusterSecretStore_Reconcile_def api_defs
proof (intro conjI post_bind_call, goal_cases)
  case (1 t)
  show ?case
  proof (rule post_conseq [OF post_reconcileFetched], goal_cases)
    case (1 s)
    then show ?case by (auto simp: storeAnswer_def split: sum.splits)
  next
    case (2 a new)
    then show ?case using cleared_append [of _ new "[GetSecretStore ns n]"] by (auto simp: isPatch_def)
  qed
next
  case (2 t)
  show ?case
  proof (rule post_conseq [OF post_reconcileFetched], goal_cases)
    case (1 s)
    then show ?case by (auto simp: storeAnswer_def split: sum.splits)
  next
    case (2 a new)
    then show ?case using cleared_append [of _ new "[GetClusterSecretStore n]"] by (auto simp: isPatch_def)
  qed
qed


text \<open>C15. Rebuilding a client replaces the whole family of its keys: afterwards the pool of the configured
  provider serves, under the store's key, a new client carrying that key exactly when the rebuild
  succeeded, no other key of the family is served by either pool, and every other key is served as before.\<close>

theorem rebuild_replaces_clients:
  assumes "providersAt p k q" "pv = k \<or> pv = q"
    and "storeConfiguresKMS s \<or> storeConfiguresOOS s"
  shows "\<exists>sdk. \<forall>key. clientAt pv (final (recreateClient E r (storeClientName (asSecretStore s)) (Some k) (Some q) s) p) key =
    (if key = storeClientName (asSecretStore s) \<and> pv = chosenProvider s k q \<and>
        result (recreateClient E r (storeClientName (asSecretStore s)) (Some k) (Some q) s) p = Some (Inr ())
     then Inr (clientFor pv (storeClientName (asSecretStore s)) sdk)
     else if key_family (storeClientName (asSecretStore s)) key then Inl (not_registered key)
     else clientAt pv p key)"
  using recreateClient_at [OF assms(1,2) HOL.refl assms(3), of E r] by (auto simp: conj_commute cong: conj_cong)

text \<open>A process with both providers, a store of the KMS provider and an environment in which the worker
  role is the credential.\<close>

definition bareOptions :: ProviderOptions where
  "bareOptions = demoOptions\<lparr>po_ClusterId := []\<rparr>"

definition demoProviders :: proc where
  "demoProviders = sampleProc\<lparr>providerMap := [(ProviderKMSName, kms_NewProvider bareOptions), (ProviderOOSName, oos_NewProvider bareOptions)]\<rparr>"

definition emptyAuth :: StoreAuth where
  "emptyAuth = \<lparr>au_AccessKey = None, au_AccessKeySecret = None, au_RAMRoleARN = [], au_RAMRoleSessionName = [],
     au_OIDCProviderARN = [], au_OIDCTokenFilePath = [], au_RoleSessionExpiration = [], au_RemoteRAMRoleARN = [],
     au_RemoteRAMRoleSessionName = [], au_ServiceAccountRef = None\<rparr>"

definition kmsStore :: SecretStore where
  "kmsStore = demoStore\<lparr>ss_Spec := \<lparr>ss_KMS = Some \<lparr>pr_Auth = Some emptyAuth\<rparr>, ss_OOS = None\<rparr>\<rparr>"

definition workerEnv :: env where
  "workerEnv = sampleEnv\<lparr>e_EnableWorkerRole := True\<rparr>"

definition demoStores :: StoreReconciler where
  "demoStores = \<lparr>sc_RestConfig = False, sc_EnableCrossNamespaceAuthRef = False, sc_ReconciliationPeriod = 5\<rparr>"

lemma demoProviders_ok: "providersAt demoProviders (kms_NewProvider bareOptions) (oos_NewProvider bareOptions)"
  by (auto simp: providersAt_def table_ok_def demoProviders_def gm_get_def kms_NewProvider_def oos_NewProvider_def
      pool_ok_NewManager ProviderKMSName_def ProviderOOSName_def split: if_splits)

lemma demo_build:
  "\<exists>a. BuildAuthConfig E kmsStore False (kms_authProvider kmsStore) [] u = ret (Inr a) \<and> ac_ServiceAccountName a = [] \<and> ac_RoleArn a = [] \<and> ac_AccessKey a = []"
proof -
  let ?ap = "\<lparr>ad_Auth = Some emptyAuth, ad_StoreName = m_Name (ss_meta kmsStore)\<rparr>"
  have ap: "kms_authProvider kmsStore = Some ?ap" by (simp add: kms_authProvider_def kmsStore_def)
  have f: "GetServiceAccountRef ?ap = None" "GetAccessKey ?ap = None" "GetAccessKeySecret ?ap = None"
    "GetRAMRoleARN ?ap = []" "GetOIDCProviderARN ?ap = []" "GetOIDCTokenFilePath ?ap = []"
    by (simp_all add: GetOIDCTokenFilePath_def GetServiceAccountRef_def GetAccessKey_def GetAccessKeySecret_def GetRAMRoleARN_def GetOIDCProviderARN_def
        adapted_def emptyAuth_def)
  show ?thesis
    unfolding BuildAuthConfig_def ap Let_def option.case f buildAuthConfigWithCrossNamespace_def readAuthSecret_def bind_ret sum.case
      resolveOidcProviderArn_def
    by (simp add: emptyAuthConfig_def f ret_inj)
qed

lemma demo_chain:
  assumes "ac_ServiceAccountName a = []" "ac_RoleArn a = []" "ac_AccessKey a = []"
  shows "\<exists>s. result (GetAuthCred workerEnv a region w n) p = Inr s"
  using assms by (simp add: GetAuthCred_def authChain_def NormalizeSessionNames_def oidcPrerequisitesMissing_def oidcTierAllowed_def akTiers_def
      run_simps Let_def workerEnv_def)

lemma demo_new: "\<exists>c. result (NewClient workerEnv (kms_NewProvider bareOptions) kmsStore False []) p = Inr (KMSClient c)"
proof -
  obtain a where a: "BuildAuthConfig workerEnv kmsStore False (kms_authProvider kmsStore) [] ''1'' = ret (Inr a)"
      "ac_ServiceAccountName a = []" "ac_RoleArn a = []" "ac_AccessKey a = []"
    using demo_build by blast
  have v: "validateKmsEndpoint ''kms-vpc.cn-hangzhou.aliyuncs.com'' = None" by code_simp
  let ?b = "withCompositeName a []"
  obtain s where s: "result (GetAuthCred workerEnv ?b ''cn-hangzhou'' 1 ProviderKMSName) p = Inr s"
    using demo_chain [of ?b "''cn-hangzhou''" 1 ProviderKMSName p] a by (auto simp: withCompositeName_def)
  show ?thesis using a s v
    by (simp add: NewClient_def kms_NewProvider_def kms_NewClient_def bareOptions_def demoOptions_def kms_newClientWithAuth_def run_simps Let_def
      GetEndpoint_def sdkNew_def workerEnv_def sampleEnv_def)
qed

lemma demo_rebuild:
  "result (recreateClient workerEnv demoStores ''namespace/a/s'' (Some (kms_NewProvider bareOptions)) (Some (oos_NewProvider bareOptions)) (SS kmsStore)) p
     = Some (Inr ())"
proof -
  have "result (createKMSClient workerEnv (SS kmsStore) False (kms_NewProvider bareOptions)) p = Inr ()" for p
    using demo_new [of p] by (auto simp: createKMSClient_def asSecretStore_def run_simps)
  moreover have "storeConfiguresKMS (SS kmsStore)" by (simp add: storeConfiguresKMS_def innerAuth_def GetKMS_def kmsStore_def)
  ultimately show ?thesis by (simp add: recreateClient_run newClientset_def demoStores_def run_simps)
qed

theorem rebuild_replaces_clients_witness:
  "\<exists>sdk. clientAt (kms_NewProvider bareOptions) (final (recreateClient workerEnv demoStores ''namespace/a/s''
       (Some (kms_NewProvider bareOptions)) (Some (oos_NewProvider bareOptions)) (SS kmsStore)) demoProviders) ''namespace/a/s'' =
     Inr (KMSClient (Some \<lparr>cl_clientName = ''namespace/a/s'', cl_sdk = Some sdk\<rparr>))"
proof -
  have n: "storeClientName (asSecretStore (SS kmsStore)) = ''namespace/a/s''"
    by (simp add: storeClientName_def asSecretStore_def kmsStore_def demoStore_def noMeta_def SecretStoreKey_def)
  have k: "storeConfiguresKMS (SS kmsStore)" by (simp add: storeConfiguresKMS_def innerAuth_def GetKMS_def kmsStore_def)
  show ?thesis
    using rebuild_replaces_clients [OF demoProviders_ok, of "kms_NewProvider bareOptions" "SS kmsStore" workerEnv demoStores] k
    unfolding n demo_rebuild by (auto simp: chosenProvider_def clientFor_def kms_NewProvider_def)
qed

text \<open>Deleting a store retires its clients first: when the store read is being deleted, afterwards no key
  of its family is served by either pool, every other key is served as before, and the only call
  after the refreshers were stopped is the update that removes the finalizer, if it was there.\<close>

theorem store_deletion_retires_clients:
  assumes "providersAt p k q" "pv = k \<or> pv = q"
    and "e_GetSecretStore E (tr p) ns n = Inr x" "m_DeletionTimestamp (ss_meta x) \<noteq> None"
  shows "clientAt pv (final (SecretStore_Reconcile E r ns n) p) key =
      (if key_family (SecretStoreKey (m_Namespace (ss_meta x)) (m_Name (ss_meta x))) key then Inl (not_registered key)
       else clientAt pv p key) \<and>
    (\<exists>stops b. list_all (\<lambda>e. \<exists>s. e = StopRefresher s) stops \<and>
      new_events (SecretStore_Reconcile E r ns n) p =
        (if Contains (m_Finalizers (ss_meta x)) secretFinalizer
         then [UpdateStore (SS (x\<lparr>ss_meta := (ss_meta x)\<lparr>m_Finalizers := Remove (m_Finalizers (ss_meta x)) secretFinalizer\<rparr>\<rparr>)) b]
         else []) @ stops @ [GetSecretStore ns n])"
proof -
  let ?n = "SecretStoreKey (m_Namespace (ss_meta x)) (m_Name (ss_meta x))"
  let ?p = "p\<lparr>tr := GetSecretStore ns n # tr p\<rparr>"
  have p: "providersAt ?p k q" using assms(1) by (simp add: providersAt_def)
  have reg: "gm_get (providerMap p) ProviderKMSName = Some k" "gm_get (providerMap p) ProviderOOSName = Some q"
    using assms(1) by (simp_all add: providersAt_def)
  let ?q = "final (DeletePrefixed q ?n) (final (DeletePrefixed k ?n) ?p)"
  have stop: "\<exists>stops. tr (final (DeletePrefixed pv ?n) r) = stops @ tr r \<and> list_all (\<lambda>e. \<exists>s. e = StopRefresher s) stops" for pv r
  proof -
    have "emits (\<lambda>e. \<exists>s. e = StopRefresher s) (DeletePrefixed pv ?n)" by (intro emits_intros) simp
    then show ?thesis by (simp add: emits_def post_def)
  qed
  obtain s1 s2 where s: "tr ?q = (s2 @ s1) @ GetSecretStore ns n # tr p" "list_all (\<lambda>e. \<exists>s. e = StopRefresher s) (s2 @ s1)"
    using stop [of k ?p] stop [of q "final (DeletePrefixed k ?n) ?p"] by fastforce
  have run: "final (SecretStore_Reconcile E r ns n) p =
     (if Contains (m_Finalizers (ss_meta x)) secretFinalizer
      then ?q\<lparr>tr := UpdateStore (SS (x\<lparr>ss_meta := (ss_meta x)\<lparr>m_Finalizers := Remove (m_Finalizers (ss_meta x)) secretFinalizer\<rparr>\<rparr>))
          (ok (e_UpdateStore E (tr ?q) (SS (x\<lparr>ss_meta := (ss_meta x)\<lparr>m_Finalizers := Remove (m_Finalizers (ss_meta x)) secretFinalizer\<rparr>\<rparr>)))) # tr ?q\<rparr> else ?q)"
    using assms(3,4) reg by (simp add: SecretStore_Reconcile_def api_defs run_simps reconcileFetched_def GetProviderByName_def Let_def
        st_meta_def setMeta_def handleStoreDeletion_def deleteBoth_def)
  have "clientAt pv ?q key = (if key_family ?n key then Inl (not_registered key) else clientAt pv p key)"
    using deleteBoth_at(1) [OF p assms(2), of ?n key] by simp
  then have "clientAt pv (final (SecretStore_Reconcile E r ns n) p) key =
      (if key_family ?n key then Inl (not_registered key) else clientAt pv p key)" by (simp add: run)
  moreover have "new_events (SecretStore_Reconcile E r ns n) p =
        (if Contains (m_Finalizers (ss_meta x)) secretFinalizer
         then [UpdateStore (SS (x\<lparr>ss_meta := (ss_meta x)\<lparr>m_Finalizers := Remove (m_Finalizers (ss_meta x)) secretFinalizer\<rparr>\<rparr>))
          (ok (e_UpdateStore E (tr ?q) (SS (x\<lparr>ss_meta := (ss_meta x)\<lparr>m_Finalizers := Remove (m_Finalizers (ss_meta x)) secretFinalizer\<rparr>\<rparr>))))]
         else []) @ (s2 @ s1) @ [GetSecretStore ns n]"
    by (simp add: new_events_def run s(1))
  ultimately show ?thesis using s(2) by blast
qed

theorem store_deletion_retires_clients_witness:
  "clientAt (kms_NewProvider bareOptions)
     (final (SecretStore_Reconcile (workerEnv\<lparr>e_GetSecretStore := \<lambda>_ _ _. Inr (kmsStore\<lparr>ss_meta := (ss_meta kmsStore)\<lparr>m_DeletionTimestamp := Some 1\<rparr>\<rparr>)\<rparr>)
        demoStores ''a'' ''s'') demoProviders) ''namespace/a/s#kms.cn.aliyuncs.com'' = Inl (not_registered ''namespace/a/s#kms.cn.aliyuncs.com'')"
proof -
  let ?x = "kmsStore\<lparr>ss_meta := (ss_meta kmsStore)\<lparr>m_DeletionTimestamp := Some 1\<rparr>\<rparr>"
  have "key_family (SecretStoreKey (m_Namespace (ss_meta ?x)) (m_Name (ss_meta ?x))) ''namespace/a/s#kms.cn.aliyuncs.com''"
    by (simp add: key_family_def kmsStore_def demoStore_def SecretStoreKey_def HasPrefix_def)
  then show ?thesis
    using store_deletion_retires_clients [OF demoProviders_ok, of "kms_NewProvider bareOptions"
      "workerEnv\<lparr>e_GetSecretStore := \<lambda>_ _ _. Inr ?x\<rparr>" "''a''" "''s''" ?x demoStores "''namespace/a/s#kms.cn.aliyuncs.com''"]
    by simp
qed

text \<open>C28. Validation accepts exactly the usable specs: one provider with an auth block; for a SecretStore, no
  reference out of its namespace unless cross-namespace references are enabled; for a
  ClusterSecretStore, a namespace on every reference and compilable regexes and selectors.\<close>

theorem store_validation_exact:
  "(validateSecretStoreSpec r s = None \<longleftrightarrow>
      storeConfiguresKMS s \<noteq> storeConfiguresOOS s \<and>
      (\<exists>a. activeAuth s = Some a \<and>
        (sc_EnableCrossNamespaceAuthRef r \<or> list_all (\<lambda>n. n = [] \<or> n = m_Namespace (st_meta s)) (refNamespaces a)))) \<and>
   (validateClusterSecretStoreSpec E s = None \<longleftrightarrow>
      storeConfiguresKMS s \<noteq> storeConfiguresOOS s \<and>
      (\<exists>a. activeAuth s = Some a \<and> list_all (\<lambda>n. n \<noteq> []) (refNamespaces a)) \<and>
      list_all (\<lambda>c. (case nc_NamespaceSelector c of None \<Rightarrow> True | Some sel \<Rightarrow> ok (e_selector E sel)) \<and>
        list_all (\<lambda>x. ok (e_regex E x)) (nc_NamespaceRegexes c)) (GetConditions s))"
  using no_auth_invalid [of s] secretStore_valid [of s _ r] clusterStore_valid [of s _ E]
  by (cases "activeAuth s") auto

definition saysNoMore :: "store \<Rightarrow> SecretStoreStatusCondition \<Rightarrow> bool \<Rightarrow> int \<Rightarrow> event \<Rightarrow> bool" where
  "saysNoMore s condition bump t e \<longleftrightarrow> (case e of
         UpdateStoreStatus f _ \<Rightarrow>
           st_ClientGeneration (st_Status f) = st_ClientGeneration (st_Status s) + (if bump then 1 else 0) \<and>
           st_Capabilities (st_Status f) = st_Capabilities (st_Status s) \<and>
           (\<forall>ty. conditionOf ty (st_Conditions (st_Status f)) =
              (if ty = c_Type condition
               then Some (condition\<lparr>c_ObservedGeneration := m_Generation (st_meta s), c_LastTransitionTime :=
                   (case conditionOf ty (st_Conditions (st_Status s)) of
                      Some old \<Rightarrow> if sameState old condition then c_LastTransitionTime old else t
                    | None \<Rightarrow> t)\<rparr>)
               else conditionOf ty (st_Conditions (st_Status s))))
       | PatchStore _ _ _ \<Rightarrow> False | UpdateStore _ _ \<Rightarrow> False | _ \<Rightarrow> True)"

lemma saysNoMore_reads: "storeRead e \<Longrightarrow> saysNoMore s c b t e" "saysNoMore s c b t (Clock u)"
  by (cases e) (simp_all add: saysNoMore_def)

lemma saysNoMore_write: "saysNoMore s condition bump t (UpdateStoreStatus (setStatus (proposedStatus t s condition bump) fresh) b)"
  by (auto simp: saysNoMore_def proposedStatus_def setCondition_def Let_def conditionOf_put sameState_def split: option.split)

text \<open>A status write of a store controller says what it should and no more: if the condition is already
  recorded for this generation (and no rebuild is to be counted) only the clock is read; otherwise
  the status stored holds the condition at the generation of the spec, keeps the transition time
  when status, reason and message are those of the old condition, keeps every other condition, and
  counts exactly one client generation for a rebuild.\<close>

theorem store_status_write:
  "post (updateStatus E s condition bump) (\<lambda>res new. \<exists>t.
     if \<not> bump \<and> alreadySaid s condition then res = Inr False \<and> new = [Clock t]
     else res \<noteq> Inr False \<and> list_all (saysNoMore s condition bump t) new)"
proof (rule post_conseq [OF post_updateStatus], elim exE, goal_cases)
  case (1 res new t)
  show ?case
  proof (rule exI [of _ t], cases res, goal_cases)
    case (1 e)
    then show ?case using \<open>if _ then _ else _\<close> saysNoMore_reads saysNoMore_write
      by (fastforce simp: list_all_iff split: if_splits)
  next
    case (2 b)
    then show ?case using \<open>if _ then _ else _\<close> saysNoMore_reads saysNoMore_write
      by (auto split: if_splits)
  qed
qed

text \<open>The events of a round that only reports an invalid spec.\<close>

definition reportsInvalid :: "event \<Rightarrow> bool" where
  "reportsInvalid e \<longleftrightarrow> (case e of
      UpdateStoreStatus f _ \<Rightarrow> (case conditionOf SecretStoreReady (st_Conditions (st_Status f)) of
          Some c \<Rightarrow> c_Status c = ConditionFalse \<and> c_Reason c = ReasonValidationFailed | None \<Rightarrow> False)
    | UpdateStore f _ \<Rightarrow> Contains (m_Finalizers (st_meta f)) secretFinalizer
    | GetSecretStore _ _ \<Rightarrow> True | GetClusterSecretStore _ \<Rightarrow> True | Clock _ \<Rightarrow> True | _ \<Rightarrow> False)"

lemma emits_reportsInvalid: "emits reportsInvalid (updateStatusWithError E s ReasonValidationFailed m)"
proof -
  have rd: "storeRead e \<Longrightarrow> reportsInvalid e" for e by (cases e) (simp_all add: reportsInvalid_def)
  have wr: "reportsInvalid (UpdateStoreStatus (setStatus (proposedStatus t s (newCondition ConditionFalse ReasonValidationFailed m 0) False) f) b)" for t f b
    by (simp add: reportsInvalid_def proposedStatus_def setCondition_def conditionOf_put newCondition_def)
  have ck: "reportsInvalid (Clock t)" for t by (simp add: reportsInvalid_def)
  have "emits reportsInvalid (updateStatus E s (newCondition ConditionFalse ReasonValidationFailed m 0) False)"
    unfolding emits_def
  proof (rule post_conseq [OF post_updateStatus], elim exE, goal_cases)
    case (1 res new t)
    then show ?case using rd wr ck by (cases res) (fastforce simp: list_all_iff split: if_splits)+
  qed
  then show ?thesis unfolding updateStatusWithError_def by (intro emits_intros)
qed

lemma Contains_append [simp]: "Contains (xs @ [x]) x"
  by (induction xs) auto

definition onlyReports :: "'a io \<Rightarrow> bool" where
  "onlyReports m \<longleftrightarrow> emits reportsInvalid m \<and> keeps clientsKept m"

lemma onlyReports_bind:
  "onlyReports m \<Longrightarrow> (\<And>p. onlyReports (f (result m p))) \<Longrightarrow> onlyReports (State_Monad.bind m f)"
  by (simp add: onlyReports_def emits_bind_result clients_bind_result)

lemma onlyReports_ret: "onlyReports (ret a)"
  by (simp add: onlyReports_def emits_ret clients.ret)

lemma onlyReports_steps:
  "onlyReports (updateStatusWithError E s ReasonValidationFailed m)" "onlyReports (addStoreFinalizer E s)"
  "onlyReports (getStore E s ns n)" "onlyReports (GetProviderByName x)"
proof -
  have rd: "storeRead e \<Longrightarrow> reportsInvalid e" for e by (cases e) (simp_all add: reportsInvalid_def)
  show "onlyReports (updateStatusWithError E s ReasonValidationFailed m)"
    unfolding onlyReports_def updateStatusWithError_def
    by (intro conjI clients.rules clients_store_ops) (use emits_reportsInvalid in \<open>simp add: updateStatusWithError_def\<close>)
  have "reportsInvalid (UpdateStore (setMeta (\<lambda>m. m\<lparr>m_Finalizers := m_Finalizers m @ [secretFinalizer]\<rparr>) s) b)" for b
    by (cases s) (simp_all add: reportsInvalid_def setMeta_def st_meta_def)
  then show "onlyReports (addStoreFinalizer E s)"
    unfolding onlyReports_def addStoreFinalizer_def updateStore_def by (intro conjI clients.rules emits_intros)
  show "onlyReports (getStore E s ns n)" "onlyReports (GetProviderByName x)"
    unfolding onlyReports_def GetProviderByName_def
    by (intro conjI clients.rules clients_store_ops emits_intros rd; assumption)+
qed

lemma onlyReports_invalid:
  assumes "validate s \<noteq> None"
  shows "onlyReports (reconcileStore E r validate s ns n cn k q)"
proof -
  obtain e where "validate s = Some e" using assms by blast
  then show ?thesis
    unfolding reconcileStore_def by (simp add: onlyReports_bind [OF onlyReports_steps(1)] onlyReports_ret)
qed

text \<open>An invalid SecretStore never reaches a client: while every spec the API server answers fails
  validation, a round reads the store, adds the finalizer and reports the failure in the Ready
  condition; it makes no SDK or credential call, and both pools serve what they served.\<close>

theorem invalid_store_builds_nothing:
  assumes "\<And>t x. e_GetSecretStore E t ns n = Inr x \<Longrightarrow> m_DeletionTimestamp (ss_meta x) = None \<and> validateSecretStoreSpec r (SS x) \<noteq> None"
  shows "emits reportsInvalid (SecretStore_Reconcile E r ns n) \<and>
    clientAt pv (final (SecretStore_Reconcile E r ns n) p) key = clientAt pv p key"
proof -
  have again: "onlyReports (case result (getStore E (SS x) ns n) p of
      Inl e \<Rightarrow> ret (Some (d, Some e)) | Inr s' \<Rightarrow> reconcileStore E r (validateSecretStoreSpec r) s' ns n cn k q)" for x p d cn k q
    using assms [of "tr p"] onlyReports_invalid
    by (auto simp: getStore_def api_defs run_simps onlyReports_ret split: sum.splits)
  have "onlyReports (SecretStore_Reconcile E r ns n)"
    unfolding SecretStore_Reconcile_def
  proof (rule onlyReports_bind, goal_cases)
    case 1
    show ?case using onlyReports_steps(3) [of E "SS undefined" ns n]
      by (simp add: onlyReports_def api_defs clients.call emits_call reportsInvalid_def)
  next
    case (2 p)
    show ?case
    proof (cases "e_GetSecretStore E (tr p) ns n")
      case (Inl e)
      then show ?thesis by (simp add: api_defs run_simps reconcileFetched_def onlyReports_ret)
    next
      case (Inr x)
      have inv: "m_DeletionTimestamp (ss_meta x) = None" "validateSecretStoreSpec r (SS x) \<noteq> None" using assms [OF Inr] by simp_all
      show ?thesis
        using Inr inv onlyReports_invalid [of "validateSecretStoreSpec r", OF inv(2)]
        by (auto simp: api_defs run_simps reconcileFetched_def Let_def st_meta_def onlyReports_ret again
            intro!: onlyReports_bind [OF onlyReports_steps(4)] onlyReports_bind [OF onlyReports_steps(2)] onlyReports_bind [OF onlyReports_steps(3)]
            split: option.split)
    qed
  qed
  then show ?thesis
    unfolding onlyReports_def using clientsKept_clientAt keepsD by blast
qed

theorem invalid_store_builds_nothing_witness:
  "emits reportsInvalid (SecretStore_Reconcile (sampleEnv\<lparr>e_GetSecretStore := \<lambda>_ _ _. Inr demoStore\<rparr>) demoStores ''a'' ''s'') \<and>
   clientAt (kms_NewProvider bareOptions) (final (SecretStore_Reconcile (sampleEnv\<lparr>e_GetSecretStore := \<lambda>_ _ _. Inr demoStore\<rparr>) demoStores ''a'' ''s'') demoProviders) ''namespace/a/s''
    = clientAt (kms_NewProvider bareOptions) demoProviders ''namespace/a/s''"
proof -
  have "m_DeletionTimestamp (ss_meta demoStore) = None" "validateSecretStoreSpec demoStores (SS demoStore) \<noteq> None"
    using no_auth_invalid(1) [of "SS demoStore"] by (simp_all add: demoStore_def noMeta_def activeAuth_def innerAuth_def GetKMS_def GetOOS_def storeConfiguresKMS_def storeConfiguresOOS_def)
  then show ?thesis
    using invalid_store_builds_nothing [of "sampleEnv\<lparr>e_GetSecretStore := \<lambda>_ _ _. Inr demoStore\<rparr>" "''a''" "''s''" demoStores] by auto
qed

text \<open>When a rebuild is due.\<close>

lemma needRecreateClient_iff:
  assumes "storeConfiguresKMS s \<or> storeConfiguresOOS s"
  shows "result (needRecreateClient s n (Some k) (Some q)) p \<longleftrightarrow> isl (clientAt (chosenProvider s k q) p n) \<or>
      ReadyConditionObservedGeneration (st_Conditions (st_Status s)) \<noteq> (m_Generation (st_meta s), True)"
    and "final (needRecreateClient s n (Some k) (Some q)) p = p"
  using assms by (auto simp: needRecreateClient_def hasClient_def run_simps GetClient_run chosenProvider_def ok_def split: sum.splits prod.splits)

text \<open>A settled store is left alone: with a valid spec, no trigger annotation, its client in the pool and
  the Ready condition recorded for this generation, a round only reads the clock; it keeps the
  client, writes nothing and comes back after the reconciliation period.\<close>

theorem settled_store_is_left_alone:
  assumes "validate s = None" "triggerOf s = []" "storeConfiguresKMS s \<or> storeConfiguresOOS s"
    and "clientAt (chosenProvider s k q) p n = Inr c"
    and "alreadySaid s (newCondition ConditionTrue ReasonStoreValid [] 0)"
  shows "result (reconcileStore E r validate s ns name n (Some k) (Some q)) p = Some (sc_ReconciliationPeriod r, None) \<and>
    final (reconcileStore E r validate s ns name n (Some k) (Some q)) p = p\<lparr>tr := Clock (e_now E (tr p)) # tr p\<rparr>"
proof -
  have "ReadyConditionObservedGeneration (st_Conditions (st_Status s)) = (m_Generation (st_meta s), True)"
    using assms(5) by (auto simp: alreadySaid_def ready_conditionOf newCondition_def clearTime_def split: option.splits
        dest!: arg_cong [where f = c_ObservedGeneration])
  then have no: "\<not> result (needRecreateClient s n (Some k) (Some q)) p" using needRecreateClient_iff(1) [OF assms(3)] assms(4) by simp
  have said: "statusEqual (st_Status s) (setCondition t (m_Generation (st_meta s)) (newCondition ConditionTrue ReasonStoreValid [] 0) (st_Status s))" for t
    using debounce_iff [of s t _ False] assms(5) by (simp add: proposedStatus_def)
  have "st_Conditions (st_Status s) \<noteq> []" using alreadySaid_nonempty [OF assms(5)] .
  then show ?thesis
    using assms(1,2) no said needRecreateClient_iff(2) [OF assms(3)]
    by (simp add: reconcileStore_def reconcileValid_def run_simps updateStatusWithReady_def updateStatus_def timeNow_def)
qed

definition settledStore :: SecretStore where
  "settledStore = kmsStore\<lparr>ss_Status := \<lparr>st_Conditions = [\<lparr>c_Type = SecretStoreReady, c_Status = ConditionTrue, c_Reason = ReasonStoreValid,
     c_Message = [], c_LastTransitionTime = 42, c_ObservedGeneration = 0\<rparr>], st_Capabilities = SecretStoreReadOnly, st_ClientGeneration = 1\<rparr>\<rparr>"

theorem settled_store_is_left_alone_witness:
  "result (reconcileStore workerEnv demoStores (validateSecretStoreSpec demoStores) (SS settledStore) ''a'' ''s'' ''namespace/a/s''
      (Some (kms_NewProvider bareOptions)) (Some (oos_NewProvider bareOptions)))
     (final (Register (kms_NewProvider bareOptions) ''namespace/a/s'' (KMSClient (Some \<lparr>cl_clientName = [], cl_sdk = Some 3\<rparr>))) demoProviders)
   = Some (5, None)"
proof -
  let ?k = "kms_NewProvider bareOptions" and ?q = "oos_NewProvider bareOptions" and ?c = "KMSClient (Some \<lparr>cl_clientName = [], cl_sdk = Some 3\<rparr>)"
  let ?p = "final (Register ?k ''namespace/a/s'' ?c) demoProviders"
  have s: "storeConfiguresKMS (SS settledStore)" "\<not> storeConfiguresOOS (SS settledStore)" "activeAuth (SS settledStore) = Some emptyAuth"
    by (simp_all add: storeConfiguresKMS_def storeConfiguresOOS_def activeAuth_def innerAuth_def GetKMS_def GetOOS_def settledStore_def kmsStore_def)
  then have v: "validateSecretStoreSpec demoStores (SS settledStore) = None"
    using secretStore_valid [OF s(3), of demoStores] by (simp add: refNamespaces_def emptyAuth_def)
  have t: "triggerOf (SS settledStore) = []"
    by (simp add: triggerOf_def settledStore_def kmsStore_def demoStore_def noMeta_def st_meta_def gm_str_def gm_empty_def gm_get_def)
  have a: "alreadySaid (SS settledStore) (newCondition ConditionTrue ReasonStoreValid [] 0)"
    by (simp add: alreadySaid_def newCondition_def st_Status_def settledStore_def clearTime_def st_meta_def kmsStore_def demoStore_def noMeta_def)
  have "registrable ?k ?c" by (simp add: registrable_def kms_NewProvider_def kms_client_def)
  then have "clientAt ?k ?p ''namespace/a/s'' = Inr (rename_client ''namespace/a/s'' ?c)"
    using Register_at [OF providersAt_facts(1,2) [OF demoProviders_ok], of ?k ?c "''namespace/a/s''" "''namespace/a/s''"] demoProviders_ok by simp
  then have "clientAt (chosenProvider (SS settledStore) ?k ?q) ?p ''namespace/a/s'' = Inr (rename_client ''namespace/a/s'' ?c)"
    by (simp add: chosenProvider_def s(1))
  from settled_store_is_left_alone [where validate = "validateSecretStoreSpec demoStores", OF v t _ this a, of workerEnv demoStores "''a''" "''s''"] s(1) show ?thesis
    by (simp add: demoStores_def)
qed

end
