(* ===== verification/Ces.thy ===== *)
theory Ces
  imports Es_Watch
begin

text \<open>
  The ClusterExternalSecret controller: \<open>clusterexternalsecret_controller.go\<close> and its
  \<open>predicates.go\<close>. It stamps one ExternalSecret into every selected namespace by server-side apply
  and keeps a ledger of the provisioned namespaces in its status. The handlers mutate the object in
  hand; here they return it updated. \<open>SetControllerReference\<close> is the owner recorded by the apply
  (it fails only for types missing from the scheme, which is fixed at start-up).
\<close>

section \<open>The reconciler\<close>

record ClusterExternalSecretReconciler =
  cr_ReconciliationPeriod :: int
  cr_RotationInterval :: int
  cr_DisablePolling :: bool
  cr_EnableCrossNamespace :: bool

definition clusterExternalSecretFinalizer :: string where
  "clusterExternalSecretFinalizer = ''finalizer.ack.secrets-manager.alibabacloud.com''"

definition ClusterExternalSecretReady :: string where "ClusterExternalSecretReady = ''Ready''"

text \<open>The result of a round: the delay (0 for none) and the error.\<close>

definition Requeue :: "ClusterExternalSecretReconciler \<Rightarrow> int \<Rightarrow> int" where
  "Requeue r requeueAfter = (if cr_DisablePolling r then 0 else requeueAfter)"

definition getExternalSecretName :: "ClusterExternalSecret \<Rightarrow> string" where
  "getExternalSecretName ces = (let externalSecretName = ces_ExternalSecretName (ces_Spec ces)
     in if externalSecretName = [] then m_Name (ces_meta ces) else externalSecretName)"

definition ledger :: "ClusterExternalSecret \<Rightarrow> string list" where
  "ledger ces = (case cst_ProvisionedNamespaces (ces_Status ces) of Some l \<Rightarrow> l | None \<Rightarrow> [])"

definition isNamespaceProvisioned :: "ClusterExternalSecret \<Rightarrow> string \<Rightarrow> bool" where
  "isNamespaceProvisioned ces namespace = list_ex (\<lambda>ns. ns = namespace) (ledger ces)"

definition failure :: "string \<Rightarrow> string \<Rightarrow> NamespaceFailure" where
  "failure namespace reason = \<lparr>nf_Namespace = namespace, nf_Reason = reason\<rparr>"

section \<open>Selection and access\<close>

definition selected :: "env \<Rightarrow> ClusterExternalSecret \<Rightarrow> Namespace \<Rightarrow> bool" where
  "selected E ces namespace = IsNamespaceAllowedForClusterExternalSecret (e_regex E) (e_selector E) ces namespace"

definition getMatchingNamespaces :: "env \<Rightarrow> ClusterExternalSecret \<Rightarrow> (string list) res io" where
  "getMatchingNamespaces E ces = do {
     got \<leftarrow> listNamespaces E;
     ret (case got of
         Inl err \<Rightarrow> Inl (wrap_w ''failed to list namespaces: '' err)
       | Inr items \<Rightarrow> Inr (map (\<lambda>n. m_Name (ns_meta n)) (filter (selected E ces) items)))
   }"

definition validateDataSourceSecretStoreAccess ::
    "env \<Rightarrow> ClusterExternalSecretReconciler \<Rightarrow> string \<Rightarrow> DataSource \<Rightarrow> goerror option io" where
  "validateDataSourceSecretStoreAccess E r namespace dataSource = (case ds_SecretStoreRef dataSource of
      None \<Rightarrow> ret None
    | Some ref \<Rightarrow>
        if ssr_Name ref = [] then ret None
        else if \<not> cr_EnableCrossNamespace r \<and> ssr_Namespace ref \<noteq> [] \<and> ssr_Namespace ref \<noteq> namespace \<and>
            ssr_Kind ref \<noteq> ''ClusterSecretStore''
        then ret (Some (crossNamespaceError ref namespace))
        else if refKind ref = ''SecretStore'' then ret None
        else if refKind ref = ''ClusterSecretStore'' then do {
          got \<leftarrow> getClusterSecretStore_api E (ssr_Name ref);
          case got of
            Inl err \<Rightarrow> ret (Some (wrap_w (''failed to get ClusterSecretStore '' @ ssr_Name ref @ '': '') err))
          | Inr css \<Rightarrow> do {
              allowed \<leftarrow> allowedForCSS E css namespace;
              ret (if allowed then None else Some (notAllowedError namespace ref))
            }
        }
        else ret (Some (unsupportedKindError (refKind ref))))"

text \<open>A loop that returns the first error.\<close>

definition firstFailure :: "('a \<Rightarrow> goerror option io) \<Rightarrow> 'a list \<Rightarrow> goerror option io" where
  "firstFailure f xs = do {
     v \<leftarrow> forE xs () (\<lambda>_ x. do { e \<leftarrow> f x; ret (case e of Some err \<Rightarrow> Inl err | None \<Rightarrow> Inr ()) });
     ret (case v of Inl err \<Rightarrow> Some err | Inr _ \<Rightarrow> None)
   }"

definition validateSecretStoreAccess_ces ::
    "env \<Rightarrow> ClusterExternalSecretReconciler \<Rightarrow> ClusterExternalSecret \<Rightarrow> string \<Rightarrow> goerror option io" where
  "validateSecretStoreAccess_ces E r ces namespace = do {
     let spec = ces_ExternalSecretSpec (ces_Spec ces);
     e \<leftarrow> firstFailure (validateDataSourceSecretStoreAccess E r namespace) (sp_Data spec);
     case e of
       Some err \<Rightarrow> ret (Some err)
     | None \<Rightarrow> firstFailure (validateDataSourceSecretStoreAccess E r namespace)
                 (List.map_filter dp_Extract (sp_DataProcess spec))
   }"

section \<open>Provisioning\<close>

definition deleteExternalSecret :: "env \<Rightarrow> ClusterExternalSecret \<Rightarrow> string \<Rightarrow> goerror option io" where
  "deleteExternalSecret E ces namespace = do {
     u \<leftarrow> deleteES E namespace (getExternalSecretName ces);
     ret (case u of
         Inl err \<Rightarrow> if errors_Is err NotFound then None
           else Some (wrap_w (''failed to delete ExternalSecret '' @ getExternalSecretName ces @ '' in namespace '' @ namespace @ '': '') err)
       | Inr _ \<Rightarrow> None)
   }"

definition stampedExternalSecret :: "ClusterExternalSecret \<Rightarrow> string \<Rightarrow> ExternalSecret" where
  "stampedExternalSecret ces namespace = \<lparr>
     es_meta = noMeta\<lparr>m_Name := getExternalSecretName ces, m_Namespace := namespace,
       m_Labels := ces_MetaLabels (ces_Spec ces), m_Annotations := ces_MetaAnnotations (ces_Spec ces)\<rparr>,
     es_Spec = ces_ExternalSecretSpec (ces_Spec ces), es_DataSyncResults = []\<rparr>"

definition createOrUpdateExternalSecret ::
    "env \<Rightarrow> ClusterExternalSecretReconciler \<Rightarrow> ClusterExternalSecret \<Rightarrow> string \<Rightarrow> goerror option io" where
  "createOrUpdateExternalSecret E r ces namespace = do {
     denied \<leftarrow> validateSecretStoreAccess_ces E r ces namespace;
     case denied of
       Some err \<Rightarrow> ret (Some (wrap_w (''access validation failed for namespace '' @ namespace @ '': '') err))
     | None \<Rightarrow> do {
         u \<leftarrow> applyES E (stampedExternalSecret ces namespace) (m_UID (ces_meta ces));
         ret (case u of
             Inl err \<Rightarrow> Some (wrap_w ''failed to apply ExternalSecret: '' err)
           | Inr _ \<Rightarrow> None)
       }
   }"

text \<open>One namespace of the loop: the provisioned and the failed namespaces so far.\<close>

definition handleNamespace ::
    "env \<Rightarrow> ClusterExternalSecretReconciler \<Rightarrow> ClusterExternalSecret \<Rightarrow> string list \<times> NamespaceFailure list \<Rightarrow> string
       \<Rightarrow> (string list \<times> NamespaceFailure list) io" where
  "handleNamespace E r ces acc namespace = (case acc of (provisioned, failed) \<Rightarrow> do {
     denied \<leftarrow> validateSecretStoreAccess_ces E r ces namespace;
     case denied of
       Some err \<Rightarrow> do {
         _ \<leftarrow> (if isNamespaceProvisioned ces namespace then deleteExternalSecret E ces namespace else ret None);
         ret (provisioned, failed @ [failure namespace (err_msg err)])
       }
     | None \<Rightarrow> do {
         e \<leftarrow> createOrUpdateExternalSecret E r ces namespace;
         ret (case e of
             Some err \<Rightarrow> (provisioned, failed @ [failure namespace (err_msg err)])
           | None \<Rightarrow> (provisioned @ [namespace], failed))
       }
   })"

definition handleMatchingNamespaces ::
    "env \<Rightarrow> ClusterExternalSecretReconciler \<Rightarrow> ClusterExternalSecret \<Rightarrow> string list
       \<Rightarrow> (string list \<times> NamespaceFailure list) io" where
  "handleMatchingNamespaces E r ces matchingNamespaces = forM matchingNamespaces ([], []) (handleNamespace E r ces)"

text \<open>\<open>fmt\<close> prints a map sorted by key.\<close>

definition goMapText :: "string gomap \<Rightarrow> string" where
  "goMapText m = ''map['' @ Join (map (\<lambda>k. k @ '':'' @ gm_str m k) (sort (gm_keys m))) '' '' @ '']''"

definition handleNoMatchingNamespaces :: "env \<Rightarrow> ClusterExternalSecret \<Rightarrow> (string list \<times> NamespaceFailure list) io" where
  "handleNoMatchingNamespaces E ces =
     (if ces_Conditions (ces_Spec ces) \<noteq> [] \<or> ces_NamespaceSelectors (ces_Spec ces) \<noteq> [] then do {
        got \<leftarrow> listNamespaces E;
        ret ([], (case got of
            Inl listErr \<Rightarrow> [failure [] (''Failed to list all namespaces for diagnostic: '' @ err_msg listErr)]
          | Inr items \<Rightarrow>
             (let rejected = map (\<lambda>n. failure (m_Name (ns_meta n))
                     (''Namespace does not match provided selectors: labels='' @ goMapText (m_Labels (ns_meta n))))
                   (filter (\<lambda>n. \<not> selected E ces n) items)
              in if items = [] then [failure [] ''No namespaces found in the cluster'']
                 else if rejected = [] then [failure [] ''All namespaces match selectors but encountered other issues'']
                 else rejected)))
      }
      else ret ([], [failure [] ''No namespaces found in the cluster when attempting to match all namespaces'']))"

definition cleanupOrphanedExternalSecrets :: "env \<Rightarrow> ClusterExternalSecret \<Rightarrow> string list \<Rightarrow> unit io" where
  "cleanupOrphanedExternalSecrets E ces matchingNamespaces =
     forM (ledger ces) () (\<lambda>_ namespace.
       if namespace \<notin> set matchingNamespaces then do { _ \<leftarrow> deleteExternalSecret E ces namespace; ret () } else ret ())"

section \<open>Status\<close>

definition normalizeStatusLists :: "ClusterExternalSecretStatus \<Rightarrow> ClusterExternalSecretStatus" where
  "normalizeStatusLists st = st\<lparr>
     cst_ProvisionedNamespaces := (if cst_ProvisionedNamespaces st = Some [] then None else cst_ProvisionedNamespaces st),
     cst_FailedNamespaces := (if cst_FailedNamespaces st = Some [] then None else cst_FailedNamespaces st)\<rparr>"

definition statusChanged :: "ClusterExternalSecretStatus \<Rightarrow> ClusterExternalSecretStatus \<Rightarrow> bool" where
  "statusChanged original current \<longleftrightarrow> normalizeStatusLists original \<noteq> normalizeStatusLists current"

definition updateStatusIfNeeded ::
    "env \<Rightarrow> ClusterExternalSecret \<Rightarrow> ClusterExternalSecretStatus \<Rightarrow> (ClusterExternalSecret \<times> goerror option) io" where
  "updateStatusIfNeeded E ces originalStatus =
     (if \<not> statusChanged originalStatus (ces_Status ces) then ret (ces, None)
      else do {
        u \<leftarrow> updateCESStatus E ces;
        ret (case u of Inl err \<Rightarrow> (ces, Some err) | Inr stored \<Rightarrow> (stored, None))
      })"

fun putCesCondition :: "int \<Rightarrow> CesCondition \<Rightarrow> CesCondition list \<Rightarrow> CesCondition list" where
  "putCesCondition now condition [] = [condition\<lparr>cc_LastTransitionTime := now\<rparr>]"
| "putCesCondition now condition (c # cs) =
     (if cc_Type c = cc_Type condition
      then condition\<lparr>cc_LastTransitionTime := if cc_Status c \<noteq> cc_Status condition then now else cc_LastTransitionTime c\<rparr> # cs
      else c # putCesCondition now condition cs)"

definition setCondition_ces :: "env \<Rightarrow> ClusterExternalSecret \<Rightarrow> CesCondition \<Rightarrow> ClusterExternalSecret io" where
  "setCondition_ces E ces condition = do {
     now \<leftarrow> timeNow E;
     ret (ces\<lparr>ces_Status := (ces_Status ces)\<lparr>cst_Conditions := putCesCondition now condition (cst_Conditions (ces_Status ces))\<rparr>\<rparr>)
   }"

definition readyCondition :: "string \<Rightarrow> string \<Rightarrow> CesCondition" where
  "readyCondition status message = \<lparr>cc_Type = ClusterExternalSecretReady, cc_Status = status, cc_LastTransitionTime = 0, cc_Message = message\<rparr>"

definition summarizeNamespaceFailures :: "NamespaceFailure list \<Rightarrow> string" where
  "summarizeNamespaceFailures failedNamespaces =
     (let names = map (\<lambda>f. if nf_Namespace f = [] then ''<cluster-wide>'' else nf_Namespace f) failedNamespaces;
          prefix = ''failed to provision ExternalSecrets in '' @ string_of_nat (length failedNamespaces) @ '' namespace(s): ''
      in if length names > 5 then prefix @ Join (take 5 names) '', '' @ '', ...'' else prefix @ Join names '', '')"

definition updateStatusWithError_ces ::
    "env \<Rightarrow> ClusterExternalSecret \<Rightarrow> goerror \<Rightarrow> (ClusterExternalSecret \<times> goerror option) io" where
  "updateStatusWithError_ces E ces err = do {
     let originalStatus = ces_Status ces;
     ces' \<leftarrow> setCondition_ces E ces (readyCondition ConditionFalse (err_msg err));
     updateStatusIfNeeded E ces' originalStatus
   }"

definition updateStatusWithReady_ces ::
    "env \<Rightarrow> ClusterExternalSecret \<Rightarrow> ClusterExternalSecretStatus \<Rightarrow> (ClusterExternalSecret \<times> goerror option) io" where
  "updateStatusWithReady_ces E ces originalStatus = do {
     ces' \<leftarrow> setCondition_ces E ces (readyCondition ConditionTrue []);
     updateStatusIfNeeded E ces' originalStatus
   }"

definition updateStatusWithFailure ::
    "env \<Rightarrow> ClusterExternalSecret \<Rightarrow> ClusterExternalSecretStatus \<Rightarrow> NamespaceFailure list \<Rightarrow> (ClusterExternalSecret \<times> goerror option) io" where
  "updateStatusWithFailure E ces originalStatus failedNamespaces = do {
     ces' \<leftarrow> setCondition_ces E ces (readyCondition ConditionFalse (summarizeNamespaceFailures failedNamespaces));
     updateStatusIfNeeded E ces' originalStatus
   }"

section \<open>Reconcile\<close>

definition setLists :: "string list \<Rightarrow> NamespaceFailure list \<Rightarrow> ClusterExternalSecret \<Rightarrow> ClusterExternalSecret" where
  "setLists provisioned failed ces = ces\<lparr>ces_Status := (ces_Status ces)\<lparr>
     cst_ProvisionedNamespaces := Some provisioned, cst_FailedNamespaces := Some failed\<rparr>\<rparr>"

definition reconcileExternalSecrets ::
    "env \<Rightarrow> ClusterExternalSecretReconciler \<Rightarrow> ClusterExternalSecret \<Rightarrow> ClusterExternalSecretStatus
       \<Rightarrow> (ClusterExternalSecret \<times> goerror option) io" where
  "reconcileExternalSecrets E r ces originalStatus = do {
     got \<leftarrow> getMatchingNamespaces E ces;
     case got of
       Inl err \<Rightarrow> do {
         let ces' = ces\<lparr>ces_Status := (ces_Status ces)\<lparr>cst_FailedNamespaces :=
               Some [failure [] (''Failed to list namespaces: '' @ err_msg err)]\<rparr>\<rparr>;
         u \<leftarrow> updateStatusIfNeeded E ces' originalStatus;
         ret (fst u, Some (wrap_w ''failed to get matching namespaces: '' err))
       }
     | Inr matchingNamespaces \<Rightarrow> do {
         ls \<leftarrow> (if length matchingNamespaces = 0 then handleNoMatchingNamespaces E ces
                   else handleMatchingNamespaces E r ces matchingNamespaces);
         _ \<leftarrow> cleanupOrphanedExternalSecrets E ces matchingNamespaces;
         ret (setLists (fst ls) (snd ls) ces, None)
       }
   }"

definition finalizeClusterExternalSecret :: "env \<Rightarrow> ClusterExternalSecret \<Rightarrow> goerror option io" where
  "finalizeClusterExternalSecret E ces = do {
     let namespaces = ledger ces;
     _ \<leftarrow> forM namespaces () (\<lambda>_ namespace. do { _ \<leftarrow> deleteExternalSecret E ces namespace; ret () });
     got \<leftarrow> getMatchingNamespaces E ces;
     case got of
       Inl _ \<Rightarrow> ret None
     | Inr matchingNamespaces \<Rightarrow> do {
         _ \<leftarrow> forM matchingNamespaces () (\<lambda>_ namespace.
                if namespace \<in> set namespaces then ret () else do { _ \<leftarrow> deleteExternalSecret E ces namespace; ret () });
         ret None
       }
   }"

definition handleDeletion_ces ::
    "env \<Rightarrow> ClusterExternalSecretReconciler \<Rightarrow> int \<Rightarrow> ClusterExternalSecret \<Rightarrow> (int \<times> goerror option) io" where
  "handleDeletion_ces E r rotationInterval ces =
     (if \<not> Contains (m_Finalizers (ces_meta ces)) clusterExternalSecretFinalizer then ret (Requeue r rotationInterval, None)
      else do {
        fin \<leftarrow> finalizeClusterExternalSecret E ces;
        case fin of
          Some err \<Rightarrow> ret (Requeue r (cr_ReconciliationPeriod r), Some err)
        | None \<Rightarrow> do {
            u \<leftarrow> updateCES E (ces\<lparr>ces_meta := (ces_meta ces)\<lparr>m_Finalizers :=
                   Remove (m_Finalizers (ces_meta ces)) clusterExternalSecretFinalizer\<rparr>\<rparr>);
            ret (case u of
                Inl err \<Rightarrow> (Requeue r (cr_ReconciliationPeriod r), Some err)
              | Inr _ \<Rightarrow> (Requeue r rotationInterval, None))
          }
      })"

definition addFinalizer_ces :: "env \<Rightarrow> ClusterExternalSecret \<Rightarrow> ClusterExternalSecret res io" where
  "addFinalizer_ces E ces = updateCES E (ces\<lparr>ces_meta := (ces_meta ces)\<lparr>m_Finalizers :=
     m_Finalizers (ces_meta ces) @ [clusterExternalSecretFinalizer]\<rparr>\<rparr>)"

text \<open>After the finalizer: provision, then report.\<close>

definition reconcileCes ::
    "env \<Rightarrow> ClusterExternalSecretReconciler \<Rightarrow> int \<Rightarrow> ClusterExternalSecret \<Rightarrow> (int \<times> goerror option) io" where
  "reconcileCes E r rotationInterval ces = do {
     let originalStatus = ces_Status ces;
     got \<leftarrow> reconcileExternalSecrets E r ces originalStatus;
     case got of
       (ces', Some err) \<Rightarrow> do {
         _ \<leftarrow> updateStatusWithError_ces E ces' err;
         ret (Requeue r (cr_ReconciliationPeriod r), Some err)
       }
     | (ces', None) \<Rightarrow> do {
         let failed = (case cst_FailedNamespaces (ces_Status ces') of Some l \<Rightarrow> l | None \<Rightarrow> []);
         u \<leftarrow> (if length failed > 0 then updateStatusWithFailure E ces' originalStatus failed
               else updateStatusWithReady_ces E ces' originalStatus);
         ret (case snd u of
             Some statusErr \<Rightarrow> (Requeue r (cr_ReconciliationPeriod r), Some statusErr)
           | None \<Rightarrow> (Requeue r rotationInterval, None))
       }
   }"

definition rotationIntervalOf_ces :: "ClusterExternalSecretReconciler \<Rightarrow> ClusterExternalSecret \<Rightarrow> int" where
  "rotationIntervalOf_ces r ces = (case ces_RotationInterval (ces_Spec ces) of Some d \<Rightarrow> d | None \<Rightarrow> cr_RotationInterval r)"

definition Reconcile_ces :: "env \<Rightarrow> ClusterExternalSecretReconciler \<Rightarrow> string \<Rightarrow> (int \<times> goerror option) io" where
  "Reconcile_ces E r name = do {
     got \<leftarrow> getCES E name;
     case got of
       Inl err \<Rightarrow> ret (0, if errors_Is err NotFound then None else Some err)
     | Inr ces \<Rightarrow>
         (let rotationInterval = rotationIntervalOf_ces r ces
          in if m_DeletionTimestamp (ces_meta ces) \<noteq> None then handleDeletion_ces E r rotationInterval ces
             else if \<not> Contains (m_Finalizers (ces_meta ces)) clusterExternalSecretFinalizer then do {
               u \<leftarrow> addFinalizer_ces E ces;
               case u of
                 Inl err \<Rightarrow> ret (Requeue r (cr_ReconciliationPeriod r), Some err)
               | Inr stored \<Rightarrow> reconcileCes E r rotationInterval stored
             }
             else reconcileCes E r rotationInterval ces)
   }"

section \<open>Events\<close>

definition mapNamespaceToCES :: "env \<Rightarrow> Namespace \<Rightarrow> (string list) io" where
  "mapNamespaceToCES E namespace = do {
     got \<leftarrow> listCES E;
     ret (case got of
         Inl _ \<Rightarrow> []
       | Inr items \<Rightarrow> map (\<lambda>ces. m_Name (ces_meta ces)) (filter (\<lambda>ces. selected E ces namespace) items))
   }"

definition ClusterExternalSecretPredicate :: "ClusterExternalSecret watch_event \<Rightarrow> bool" where
  "ClusterExternalSecretPredicate ev = (case ev of
      Updated s oldObj newObj \<Rightarrow>
        ces_Spec oldObj \<noteq> ces_Spec newObj \<or> ces_Status oldObj \<noteq> ces_Status newObj \<or>
        pointersDiffer s (m_DeletionTimestamp (ces_meta oldObj)) (m_DeletionTimestamp (ces_meta newObj)) \<or>
        m_Generation (ces_meta oldObj) \<noteq> m_Generation (ces_meta newObj)
    | _ \<Rightarrow> True)"

definition NamespaceWatchPredicate :: "Namespace watch_event \<Rightarrow> bool" where
  "NamespaceWatchPredicate ev = (case ev of
      Created _ \<Rightarrow> True
    | Deleted _ \<Rightarrow> True
    | Updated _ oldObj newObj \<Rightarrow> \<not> gm_eq (m_Labels (ns_meta oldObj)) (m_Labels (ns_meta newObj))
    | Generic _ \<Rightarrow> False)"

section \<open>Facts\<close>

subsection \<open>Access\<close>

text \<open>What a reference of the template may name, seen from a namespace.\<close>

definition mayUse :: "env \<Rightarrow> ClusterExternalSecretReconciler \<Rightarrow> string \<Rightarrow> DataSource \<Rightarrow> bool" where
  "mayUse E r ns d \<longleftrightarrow> (case ds_SecretStoreRef d of
      None \<Rightarrow> True
    | Some ref \<Rightarrow> ssr_Name ref = [] \<or>
        (if refKind ref = ''ClusterSecretStore''
         then (\<exists>t t' css. e_GetClusterSecretStore E t (ssr_Name ref) = Inr css \<and>
                 IsNamespaceAllowedForClusterSecretStore (e_regex E) (e_selector E) css ns (e_GetNamespace E t' ns))
         else refKind ref = ''SecretStore'' \<and> (cr_EnableCrossNamespace r \<or> ssr_Namespace ref = [] \<or> ssr_Namespace ref = ns)))"

definition templateSources :: "ClusterExternalSecret \<Rightarrow> DataSource list" where
  "templateSources ces = (let spec = ces_ExternalSecretSpec (ces_Spec ces)
     in sp_Data spec @ List.map_filter dp_Extract (sp_DataProcess spec))"

definition accessRead :: "event \<Rightarrow> bool" where
  "accessRead e \<longleftrightarrow> (case e of GetClusterSecretStore _ \<Rightarrow> True | GetNamespace _ \<Rightarrow> True | _ \<Rightarrow> False)"

lemma post_validateDataSource:
  "post (validateDataSourceSecretStoreAccess E r ns d) (\<lambda>v n. (v \<noteq> None \<or> mayUse E r ns d) \<and> list_all accessRead n)"
proof -
  have allowed: "post (allowedForCSS E css ns) (\<lambda>b n. (b = False \<or>
     (\<exists>t'. IsNamespaceAllowedForClusterSecretStore (e_regex E) (e_selector E) css ns (e_GetNamespace E t' ns))) \<and> list_all accessRead n)" for css
    by (rule post_emits [OF post_allowedForCSS]) (unfold allowedForCSS_def api_defs, intro emits_intros, simp add: accessRead_def)
  show ?thesis
    unfolding validateDataSourceSecretStoreAccess_def api_defs
    by (intro post_intros post_bind [OF allowed]) (auto simp: mayUse_def refKind_def accessRead_def split: sum.splits)
qed

lemma post_firstFailure:
  assumes "\<And>x. post (f x) (\<lambda>v n. (v \<noteq> None \<or> A x) \<and> list_all P n)"
  shows "post (firstFailure f xs) (\<lambda>v n. (v \<noteq> None \<or> list_all A xs) \<and> list_all P n)"
proof -
  let ?body = "\<lambda>_ x. do { e \<leftarrow> f x; ret (case e of Some err \<Rightarrow> Inl err | None \<Rightarrow> Inr ()) }"
  have "post (forE xs () ?body) (\<lambda>v n. (isl v \<or> list_all A xs) \<and> list_all P n)"
  proof (induction xs)
    case (Cons x xs)
    show ?case
      unfolding forE.simps
    proof (intro post_bind_bind post_bind [OF assms] post_bind_ret, goal_cases)
      case (1 e n)
      show ?case
      proof (cases e)
        case None
        show ?thesis unfolding None option.case sum.case
          by (rule post_conseq [OF Cons.IH]) (use 1 None in auto)
      qed (use 1 in \<open>simp add: post_ret\<close>)
    qed
  qed (simp add: post_ret)
  then show ?thesis unfolding firstFailure_def
    by (rule post_bind) (auto intro!: post_ret split: sum.splits)
qed

lemma post_validateAccess:
  "post (validateSecretStoreAccess_ces E r ces ns) (\<lambda>v n. (v \<noteq> None \<or> list_all (mayUse E r ns) (templateSources ces)) \<and> list_all accessRead n)"
  unfolding validateSecretStoreAccess_ces_def Let_def
  by (rule post_bind [OF post_firstFailure [OF post_validateDataSource]], intro post_option post_ret
      post_conseq [OF post_firstFailure [OF post_validateDataSource]]) (auto simp: templateSources_def Let_def)

subsection \<open>One namespace\<close>

text \<open>The stamp that succeeded, and the events a namespace of the loop may cause.\<close>

definition stampedEvent :: "ClusterExternalSecret \<Rightarrow> string \<Rightarrow> event" where
  "stampedEvent ces ns = ApplyES (stampedExternalSecret ces ns) (m_UID (ces_meta ces)) True"

definition namespaceEvent ::
    "env \<Rightarrow> ClusterExternalSecretReconciler \<Rightarrow> ClusterExternalSecret \<Rightarrow> string list \<Rightarrow> event \<Rightarrow> bool" where
  "namespaceEvent E r ces ms e \<longleftrightarrow> (case e of
      ApplyES es owner _ \<Rightarrow> m_Namespace (es_meta es) \<in> set ms \<and> es = stampedExternalSecret ces (m_Namespace (es_meta es)) \<and>
        owner = m_UID (ces_meta ces) \<and> list_all (mayUse E r (m_Namespace (es_meta es))) (templateSources ces)
    | DeleteES ns n _ \<Rightarrow> ns \<in> set (ledger ces) \<and> n = getExternalSecretName ces
    | _ \<Rightarrow> accessRead e)"

lemma accessRead_event: "accessRead e \<Longrightarrow> namespaceEvent E r ces ms e"
  by (cases e) (simp_all add: accessRead_def namespaceEvent_def)

lemma accessRead_other [simp]: "\<not> accessRead (ApplyES es w b)" "\<not> accessRead (DeleteES ns n b)"
  by (simp_all add: accessRead_def)

lemma accessReads:
  assumes "list_all accessRead n"
  shows "list_all (namespaceEvent E r ces ms) n" "ApplyES es w b \<notin> set n" "DeleteES ns k b \<notin> set n"
  using assms by (auto simp: list_all_iff accessRead_event dest: bspec [where x = "ApplyES es w b"] bspec [where x = "DeleteES ns k b"])

lemma post_deleteExternalSecret:
  "post (deleteExternalSecret E ces ns) (\<lambda>v n. \<exists>b. n = [DeleteES ns (getExternalSecretName ces) b])"
  unfolding deleteExternalSecret_def deleteES_def by (intro post_intros) auto

lemma post_createOrUpdate:
  "post (createOrUpdateExternalSecret E r ces ns) (\<lambda>v n. list_all (namespaceEvent E r ces [ns]) n \<and>
     (v = None \<longleftrightarrow> stampedEvent ces ns \<in> set n) \<and>
     (\<forall>es w. ApplyES es w True \<in> set n \<longrightarrow> es = stampedExternalSecret ces ns) \<and> (\<forall>x y b. DeleteES x y b \<notin> set n))"
  unfolding createOrUpdateExternalSecret_def applyES_def
proof (intro post_bind [OF post_validateAccess] post_intros, goal_cases)
  case (1 v n)
  then have "list_all (mayUse E r ns) (templateSources ces)" "list_all accessRead n" by simp_all
  with accessReads [OF this(2)] show ?case
    by (auto simp: namespaceEvent_def stampedExternalSecret_def stampedEvent_def ok_def split: sum.splits)
next
  case (2 v n e)
  then show ?case using accessReads [of n] by (simp add: stampedEvent_def)
qed

lemma namespaceEvent_mono: "namespaceEvent E r ces ms e \<Longrightarrow> set ms \<subseteq> set ms' \<Longrightarrow> namespaceEvent E r ces ms' e"
  by (cases e) (auto simp: namespaceEvent_def)

lemma namespaceEvents_mono:
  "list_all (namespaceEvent E r ces ms) n \<Longrightarrow> set ms \<subseteq> set ms' \<Longrightarrow> list_all (namespaceEvent E r ces ms') n"
  by (auto simp: list_all_iff intro: namespaceEvent_mono)

lemma stamped_namespace: "m_Namespace (es_meta (stampedExternalSecret ces ns)) = ns"
  by (simp add: stampedExternalSecret_def)

lemma stampedEvent_inj [simp]: "stampedEvent ces ns = stampedEvent ces ns' \<longleftrightarrow> ns = ns'"
proof
  assume "stampedEvent ces ns = stampedEvent ces ns'"
  then have "stampedExternalSecret ces ns = stampedExternalSecret ces ns'" by (simp add: stampedEvent_def)
  from arg_cong [OF this, of "\<lambda>es. m_Namespace (es_meta es)"] show "ns = ns'" by (simp add: stamped_namespace)
qed simp

subsection \<open>The loop over the selected namespaces\<close>

text \<open>The two lists partition the namespaces processed, the first holds exactly the stamped ones, and every
  event is about the namespaces processed or the ledger.\<close>

definition stampRound ::
    "env \<Rightarrow> ClusterExternalSecretReconciler \<Rightarrow> ClusterExternalSecret \<Rightarrow> string list \<Rightarrow> string list \<times> NamespaceFailure list
       \<Rightarrow> event list \<Rightarrow> bool" where
  "stampRound E r ces ms ls new \<longleftrightarrow>
     mset (fst ls) + mset (map nf_Namespace (snd ls)) = mset ms \<and>
     set (fst ls) = {ns. stampedEvent ces ns \<in> set new} \<and> list_all (namespaceEvent E r ces ms) new"

lemma stampRound_failed:
  assumes "stampRound E r ces ys ls n" "list_all (namespaceEvent E r ces [ns]) n'" "\<And>x. stampedEvent ces x \<notin> set n'"
  shows "stampRound E r ces (ys @ [ns]) (fst ls, snd ls @ [failure ns m]) (n' @ n)"
  using assms namespaceEvents_mono [of E r ces ys n "ys @ [ns]"] namespaceEvents_mono [of E r ces "[ns]" n' "ys @ [ns]"]
  by (auto simp: stampRound_def failure_def)

lemma stampRound_done:
  assumes "stampRound E r ces ys ls n" "list_all (namespaceEvent E r ces [ns]) n'" "\<And>x. stampedEvent ces x \<in> set n' \<longleftrightarrow> x = ns"
  shows "stampRound E r ces (ys @ [ns]) (fst ls @ [ns], snd ls) (n' @ n)"
  using assms namespaceEvents_mono [of E r ces ys n "ys @ [ns]"] namespaceEvents_mono [of E r ces "[ns]" n' "ys @ [ns]"]
  by (auto simp: stampRound_def)

lemma post_handleNamespace:
  assumes "stampRound E r ces ys ls n"
  shows "post (handleNamespace E r ces ls ns) (\<lambda>ls' n'. stampRound E r ces (ys @ [ns]) ls' (n' @ n))"
proof -
  obtain prov failed where l: "ls = (prov, failed)" by fastforce
  show ?thesis
    unfolding handleNamespace_def l prod.case
  proof (intro post_bind [OF post_validateAccess] post_option, goal_cases)
    case (1 v n1)
    then have reads: "list_all accessRead n1" by simp
    show ?case
    proof (rule post_bind [OF post_createOrUpdate], rule post_ret, goal_cases)
      case (1 e n2)
      then have ev: "list_all (namespaceEvent E r ces [ns]) (n2 @ n1)" using accessReads(1) [OF reads] by simp
      have only: "x = ns" if "stampedEvent ces x \<in> set n2" for x
      proof -
        have "\<forall>es w. ApplyES es w True \<in> set n2 \<longrightarrow> es = stampedExternalSecret ces ns" using 1 by blast
        with that have "stampedExternalSecret ces x = stampedExternalSecret ces ns" unfolding stampedEvent_def by blast
        then show ?thesis using stamped_namespace by metis
      qed
      have none: "stampedEvent ces x \<notin> set n1" for x using accessReads(2) [OF reads] by (simp add: stampedEvent_def)
      show ?case
      proof (cases e)
        case None
        then have "stampedEvent ces ns \<in> set n2" using 1 by blast
        then have "stampedEvent ces x \<in> set (n2 @ n1) \<longleftrightarrow> x = ns" for x
          unfolding set_append using only none by blast
        from stampRound_done [OF assms ev this] show ?thesis using None by (simp add: l)
      next
        case (Some err)
        then have "stampedEvent ces ns \<notin> set n2" using 1 by blast
        then have "stampedEvent ces x \<notin> set (n2 @ n1)" for x
          unfolding set_append using only none by blast
        from stampRound_failed [OF assms ev this] show ?thesis using Some by (simp add: l)
      qed
    qed
  next
    case (2 v n1 err)
    then have reads: "list_all accessRead n1" by simp
    have del: "post (if isNamespaceProvisioned ces ns then deleteExternalSecret E ces ns else ret None)
        (\<lambda>_ n. list_all (namespaceEvent E r ces [ns]) n \<and> (\<forall>x. stampedEvent ces x \<notin> set n))"
      by (intro post_if post_conseq [OF post_deleteExternalSecret] post_ret)
        (auto simp: namespaceEvent_def isNamespaceProvisioned_def list_ex_iff stampedEvent_def)
    show ?case
    proof (rule post_bind [OF del], rule post_ret, goal_cases)
      case (1 e n2)
      then have "list_all (namespaceEvent E r ces [ns]) (n2 @ n1)" "stampedEvent ces x \<notin> set (n2 @ n1)" for x
        using accessReads [OF reads] by (auto simp: stampedEvent_def)
      from stampRound_failed [OF assms this] show ?case by (simp add: l)
    qed
  qed
qed

lemma post_handleMatchingNamespaces:
  "post (handleMatchingNamespaces E r ces ms) (\<lambda>ls n. stampRound E r ces ms ls n)"
  unfolding handleMatchingNamespaces_def
  by (rule post_forM_prefix [where I = "stampRound E r ces" and ?n0.0 = "[]", simplified append_Nil2], rule post_handleNamespace, assumption)
    (simp add: stampRound_def)

subsection \<open>A round\<close>

definition deletedIn :: "ClusterExternalSecret \<Rightarrow> event list \<Rightarrow> string set" where
  "deletedIn ces n = {ns. \<exists>b. DeleteES ns (getExternalSecretName ces) b \<in> set n}"

lemma deletedIn_simps [simp]: "deletedIn ces [] = {}" "deletedIn ces (m @ n) = deletedIn ces m \<union> deletedIn ces n"
  "deletedIn ces [DeleteES ns (getExternalSecretName ces) b] = {ns}"
  by (auto simp: deletedIn_def)

text \<open>A run of deletions, and the namespaces it covers.\<close>

definition deletions :: "ClusterExternalSecret \<Rightarrow> event list \<Rightarrow> bool" where
  "deletions ces n = list_all (\<lambda>e. \<exists>ns b. e = DeleteES ns (getExternalSecretName ces) b) n"

lemma deletions_in: "deletions ces n \<Longrightarrow> e \<in> set n \<Longrightarrow> \<exists>ns b. e = DeleteES ns (getExternalSecretName ces) b \<and> ns \<in> deletedIn ces n"
  by (fastforce simp: deletions_def deletedIn_def list_all_iff)

lemma post_deleteLoop:
  assumes "\<And>ns. post (f ns) (\<lambda>_ n. deletions ces n \<and> deletedIn ces n = (if Q ns then {ns} else {}))"
  shows "post (forM xs () (\<lambda>_. f)) (\<lambda>_ n. deletions ces n \<and> deletedIn ces n = {ns \<in> set xs. Q ns})"
  by (rule post_forM_prefix [where I = "\<lambda>ys _ n. deletions ces n \<and> deletedIn ces n = {ns \<in> set ys. Q ns}" and ?n0.0 = "[]", simplified append_Nil2],
      rule post_conseq [OF assms]) (auto simp: deletions_def)

lemma post_cleanup:
  "post (cleanupOrphanedExternalSecrets E ces ms) (\<lambda>_ n. deletions ces n \<and> deletedIn ces n = set (ledger ces) - set ms)"
proof -
  have "post (cleanupOrphanedExternalSecrets E ces ms) (\<lambda>_ n. deletions ces n \<and> deletedIn ces n = {ns \<in> set (ledger ces). ns \<notin> set ms})"
    unfolding cleanupOrphanedExternalSecrets_def
    by (rule post_deleteLoop, intro post_if post_bind [OF post_deleteExternalSecret] post_ret) (auto simp: deletions_def)
  then show ?thesis by (rule post_conseq) auto
qed

text \<open>What a list answer selects.\<close>

definition selection :: "env \<Rightarrow> ClusterExternalSecret \<Rightarrow> string list \<Rightarrow> bool" where
  "selection E ces ms \<longleftrightarrow> (\<exists>t items. e_ListNamespaces E t = Inr items \<and> ms = map (\<lambda>n. m_Name (ns_meta n)) (filter (selected E ces) items))"

definition failedOf :: "ClusterExternalSecret \<Rightarrow> NamespaceFailure list" where
  "failedOf ces = (case cst_FailedNamespaces (ces_Status ces) of Some l \<Rightarrow> l | None \<Rightarrow> [])"

lemma setLists_simps [simp]:
  "ledger (setLists p f ces) = p" "failedOf (setLists p f ces) = f"
  by (simp_all add: setLists_def ledger_def failedOf_def)

text \<open>The outcome of a round that could list the namespaces.\<close>

definition provisioned ::
    "env \<Rightarrow> ClusterExternalSecretReconciler \<Rightarrow> ClusterExternalSecret \<Rightarrow> string list \<Rightarrow> ClusterExternalSecret \<Rightarrow> event list \<Rightarrow> bool" where
  "provisioned E r ces ms ces' new \<longleftrightarrow>
     ces' = setLists (ledger ces') (failedOf ces') ces \<and>
     set (ledger ces') = {ns. stampedEvent ces ns \<in> set new} \<and>
     (if ms = [] then failedOf ces' \<noteq> [] else mset (ledger ces') + mset (map nf_Namespace (failedOf ces')) = mset ms) \<and>
     set (ledger ces) - set ms \<subseteq> deletedIn ces new \<and> deletedIn ces new \<subseteq> set (ledger ces) \<and>
     list_all (\<lambda>e. e = ListNamespaces \<or> namespaceEvent E r ces ms e) new"

lemma post_handleNoMatching:
  "post (handleNoMatchingNamespaces E ces) (\<lambda>ls n. fst ls = [] \<and> snd ls \<noteq> [] \<and> list_all (\<lambda>e. e = ListNamespaces) n)"
  unfolding handleNoMatchingNamespaces_def api_defs
  by (intro post_intros) (auto simp: Let_def split: sum.split)

lemma stampRound_deleted: "stampRound E r ces ms ls n \<Longrightarrow> deletedIn ces n \<subseteq> set (ledger ces)"
  by (fastforce simp: stampRound_def list_all_iff deletedIn_def namespaceEvent_def)

lemma post_reconcileExternalSecrets:
  "post (reconcileExternalSecrets E r ces st) (\<lambda>(ces', err) new. case err of
      None \<Rightarrow> \<exists>ms. selection E ces ms \<and> provisioned E r ces ms ces' new
    | Some _ \<Rightarrow> list_all (\<lambda>e. case e of ListNamespaces \<Rightarrow> True | UpdateCESStatus c _ \<Rightarrow> ledger c = ledger ces | _ \<Rightarrow> False) new)"
  unfolding reconcileExternalSecrets_def getMatchingNamespaces_def listNamespaces_def updateStatusIfNeeded_def updateCESStatus_def Let_def
proof (intro post_bind_bind post_bind_call post_bind_ret, goal_cases)
  case (1 t)
  show ?case
  proof (cases "e_ListNamespaces E t")
    case (Inl e)
    show ?thesis unfolding Inl sum.case by (intro post_intros) (auto simp: ledger_def split: sum.split)
  next
    case (Inr items)
    define ms where "ms = map (\<lambda>n. m_Name (ns_meta n)) (filter (selected E ces) items)"
    have sel: "selection E ces ms" unfolding selection_def ms_def using Inr by blast
    have cleaned: "list_all (\<lambda>e. e = ListNamespaces \<or> namespaceEvent E r ces ms e) n" "stampedEvent ces x \<notin> set n"
      if "deletions ces n" "deletedIn ces n = set (ledger ces) - set ms" for n x
      using deletions_in [OF that(1)] that(2) by (fastforce simp: list_all_iff namespaceEvent_def stampedEvent_def)+
    show ?thesis
      unfolding Inr sum.case ms_def [symmetric]
    proof (intro post_bind_if post_bind [OF post_handleNoMatching] post_bind [OF post_handleMatchingNamespaces] post_bind [OF post_cleanup] post_ret,
        goal_cases)
      case (1 ls n u n')
      have "provisioned E r ces ms (setLists (fst ls) (snd ls) ces) (n' @ n @ [ListNamespaces])"
        unfolding provisioned_def using 1 cleaned [of n'] by (auto simp: list_all_iff stampedEvent_def deletedIn_def)
      then show ?case using sel by auto
    next
      case (2 ls n u n')
      then have "provisioned E r ces ms (setLists (fst ls) (snd ls) ces) (n' @ n @ [ListNamespaces])"
        unfolding provisioned_def using cleaned [of n'] stampRound_deleted [of E r ces ms ls n]
        by (auto simp: stampRound_def list_all_iff stampedEvent_def deletedIn_def)
      then show ?case using sel by auto
    qed
  qed
qed

subsection \<open>The whole controller\<close>

definition cesAnswer :: "env \<Rightarrow> string \<Rightarrow> ClusterExternalSecret \<Rightarrow> bool" where
  "cesAnswer E name ces \<longleftrightarrow> (\<exists>t. e_GetCES E t name = Inr ces) \<or> (\<exists>t c. e_UpdateCES E t c = Inr ces)"

text \<open>The events a round for the object \<open>name\<close> may cause: stamps of an answered object into namespaces its
  selectors select and that may use its stores, deletions of its ExternalSecret in namespaces of its
  ledger or selection, writes of the object itself, and reads.\<close>

definition cesEvent :: "env \<Rightarrow> ClusterExternalSecretReconciler \<Rightarrow> string \<Rightarrow> event \<Rightarrow> bool" where
  "cesEvent E r name e \<longleftrightarrow> (case e of
      ApplyES es owner _ \<Rightarrow> (\<exists>ces ms ns. cesAnswer E name ces \<and> selection E ces ms \<and> ns \<in> set ms \<and>
        es = stampedExternalSecret ces ns \<and> owner = m_UID (ces_meta ces) \<and> list_all (mayUse E r ns) (templateSources ces))
    | DeleteES ns n _ \<Rightarrow> (\<exists>ces. cesAnswer E name ces \<and> n = getExternalSecretName ces \<and>
        (ns \<in> set (ledger ces) \<or> (\<exists>ms. selection E ces ms \<and> ns \<in> set ms)))
    | GetCES _ \<Rightarrow> True | UpdateCES _ _ \<Rightarrow> True | UpdateCESStatus _ _ \<Rightarrow> True | ListNamespaces \<Rightarrow> True | Clock _ \<Rightarrow> True
    | _ \<Rightarrow> accessRead e)"

lemma provisioned_events:
  assumes "cesAnswer E name ces" "selection E ces ms" "provisioned E r ces ms ces' new" "e \<in> set new"
  shows "cesEvent E r name e"
proof -
  have "e = ListNamespaces \<or> namespaceEvent E r ces ms e" using assms(3,4) by (simp add: provisioned_def list_all_iff)
  then show ?thesis using assms(1,2) by (cases e) (auto simp: cesEvent_def namespaceEvent_def)
qed

lemma deletions_events:
  assumes "cesAnswer E name ces" "deletions ces n" "deletedIn ces n \<subseteq> set (ledger ces) \<or> (\<exists>ms. selection E ces ms \<and> deletedIn ces n \<subseteq> set ms)"
  shows "list_all (cesEvent E r name) n"
  using assms deletions_in [OF assms(2)] by (fastforce simp: list_all_iff cesEvent_def)

lemma emits_reconcileCes:
  assumes "cesAnswer E name ces"
  shows "emits (cesEvent E r name) (reconcileCes E r d ces)"
proof -
  let ?P = "cesEvent E r name"
  have status: "emits ?P (updateStatusWithError_ces E c e)" "emits ?P (updateStatusWithReady_ces E c st)"
    "emits ?P (updateStatusWithFailure E c st f)" for c e st f
    unfolding updateStatusWithError_ces_def updateStatusWithReady_ces_def updateStatusWithFailure_def setCondition_ces_def
      updateStatusIfNeeded_def api_defs Let_def
    by (intro emits_intros; simp add: cesEvent_def)+
  have "emits ?P (reconcileExternalSecrets E r ces st)" for st
    unfolding emits_def
  proof (rule post_conseq [OF post_reconcileExternalSecrets], goal_cases)
    case (1 v new)
    obtain ces' err where v: "v = (ces', err)" by fastforce
    show ?case
    proof (cases err)
      case None
      then show ?thesis using 1 v provisioned_events [OF assms] by (auto simp: list_all_iff)
    next
      case (Some e)
      have "cesEvent E r name e" if "case e of ListNamespaces \<Rightarrow> True | UpdateCESStatus c _ \<Rightarrow> ledger c = ledger ces | _ \<Rightarrow> False" for e
        using that by (cases e) (simp_all add: cesEvent_def)
      then show ?thesis using 1 v Some by (simp add: list_all_iff)
    qed
  qed
  then show ?thesis
    unfolding reconcileCes_def Let_def by (intro emits_intros status)
qed

lemma emits_finalize:
  assumes "cesAnswer E name ces"
  shows "emits (cesEvent E r name) (finalizeClusterExternalSecret E ces)"
proof -
  have loop: "post (forM (ledger ces) () (\<lambda>_ ns. do { _ \<leftarrow> deleteExternalSecret E ces ns; ret () }))
      (\<lambda>_ n. list_all (cesEvent E r name) n)"
    by (rule post_conseq [OF post_deleteLoop [where ces = ces and Q = "\<lambda>_. True"]], intro post_bind [OF post_deleteExternalSecret] post_ret)
      (auto simp: deletions_def intro!: deletions_events [OF assms])
  have sweep: "post (forM ms () (\<lambda>_ ns. if ns \<in> A then ret () else do { _ \<leftarrow> deleteExternalSecret E ces ns; ret () }))
      (\<lambda>_ n. list_all (cesEvent E r name) n)" if "selection E ces ms" for ms A
    by (rule post_conseq [OF post_deleteLoop [where ces = ces and Q = "\<lambda>ns. ns \<notin> A"]],
        intro post_if post_bind [OF post_deleteExternalSecret] post_ret)
      (use that in \<open>auto simp: deletions_def intro!: deletions_events [OF assms]\<close>)
  show ?thesis
    unfolding finalizeClusterExternalSecret_def getMatchingNamespaces_def listNamespaces_def Let_def emits_def
    by (intro post_bind [OF loop] post_bind_bind post_bind_call post_bind_ret post_sum post_ret post_bind [OF sweep])
      (auto simp: cesEvent_def selection_def split: sum.splits)
qed

subsection \<open>The status debounce\<close>

interpretation ces_debounce: status_debounce statusChanged normalizeStatusLists
  by unfold_locales (rule statusChanged_def)

definition cesReady :: "ClusterExternalSecretStatus \<Rightarrow> CesCondition option" where
  "cesReady st = List.find (\<lambda>c. cc_Type c = ClusterExternalSecretReady) (cst_Conditions st)"

lemma CesCondition_eq:
  fixes c d :: CesCondition
  shows "cc_Type c = cc_Type d \<Longrightarrow> cc_Status c = cc_Status d \<Longrightarrow>
   d\<lparr>cc_LastTransitionTime := cc_LastTransitionTime c\<rparr> = c \<longleftrightarrow> cc_Message c = cc_Message d"
  by (cases c; cases d) auto

lemma putCesCondition_same:
  "List.find (\<lambda>c. cc_Type c = cc_Type d) cs = Some old \<Longrightarrow> cc_Status old = cc_Status d \<Longrightarrow> cc_Message old = cc_Message d \<Longrightarrow>
   putCesCondition now d cs = cs"
  by (induction cs) (auto simp: CesCondition_eq split: if_splits)

section \<open>Properties\<close>



text \<open>Steady state: a round that provisions exactly the recorded namespaces, without a failure and with
  Ready already true, writes no status: after the provisioning it only reads the clock and comes
  back after the rotation interval.\<close>

theorem settled_ces_writes_nothing:
  assumes "result (reconcileExternalSecrets E r ces (ces_Status ces)) p = (ces', None)"
    and "ledger ces' = ledger ces" "failedOf ces' = []" "failedOf ces = []"
    and "cesReady (ces_Status ces) = Some c" "cc_Status c = ConditionTrue" "cc_Message c = []"
  defines "q \<equiv> final (reconcileExternalSecrets E r ces (ces_Status ces)) p"
  shows "result (reconcileCes E r d ces) p = (Requeue r d, None) \<and>
    final (reconcileCes E r d ces) p = q\<lparr>tr := Clock (e_now E (tr q)) # tr q\<rparr>"
proof -
  from post_new_events [OF post_reconcileExternalSecrets [where E = E and r = r and ces = ces and st = "ces_Status ces"], of p] assms(1)
  obtain ms where "provisioned E r ces ms ces' (new_events (reconcileExternalSecrets E r ces (ces_Status ces)) p)" by auto
  then have ces': "ces' = setLists (ledger ces) [] ces" using assms(2,3) by (simp add: provisioned_def)
  have cond: "putCesCondition t (readyCondition ConditionTrue []) (cst_Conditions (ces_Status ces)) = cst_Conditions (ces_Status ces)" for t
    by (rule putCesCondition_same [of _ _ c]) (use assms(5-7) in \<open>simp_all add: cesReady_def readyCondition_def\<close>)
  have "\<not> statusChanged (ces_Status ces) (ces_Status ces')"
    using assms(4) by (auto simp: statusChanged_def normalizeStatusLists_def ces' setLists_def ledger_def failedOf_def split: option.splits)
  then show ?thesis using assms(1,3) cond
    by (auto simp: reconcileCes_def run_simps Let_def updateStatusWithReady_ces_def setCondition_ces_def updateStatusIfNeeded_def
        timeNow_def q_def failedOf_def ces' setLists_def)
qed

text \<open>A sample object that selects every namespace, stamped into \<open>team\<close>.\<close>

definition demoCes :: ClusterExternalSecret where
  "demoCes = \<lparr>ces_meta = noMeta\<lparr>m_Name := ''app''\<rparr>,
     ces_Spec = \<lparr>ces_ExternalSecretSpec = es_Spec emptyExternalSecret, ces_ExternalSecretName = [], ces_MetaLabels = gm_empty,
       ces_MetaAnnotations = gm_empty, ces_NamespaceSelectors = [], ces_Conditions = [], ces_RotationInterval = None\<rparr>,
     ces_Status = \<lparr>cst_ExternalSecretName = [], cst_FailedNamespaces = None, cst_ProvisionedNamespaces = Some [''team''],
       cst_Conditions = [\<lparr>cc_Type = ClusterExternalSecretReady, cc_Status = ConditionTrue, cc_LastTransitionTime = 3, cc_Message = []\<rparr>]\<rparr>\<rparr>"

definition teamEnv :: env where
  "teamEnv = sampleEnv\<lparr>e_ListNamespaces := \<lambda>_. Inr [\<lparr>ns_meta = noMeta\<lparr>m_Name := ''team''\<rparr>, ns_Phase = []\<rparr>]\<rparr>"

definition demoCesReconciler :: ClusterExternalSecretReconciler where
  "demoCesReconciler = \<lparr>cr_ReconciliationPeriod = 5, cr_RotationInterval = 7, cr_DisablePolling = False, cr_EnableCrossNamespace = False\<rparr>"

lemma demoCes_sources: "sp_Data (ces_ExternalSecretSpec (ces_Spec demoCes)) = []"
    "List.map_filter dp_Extract (sp_DataProcess (ces_ExternalSecretSpec (ces_Spec demoCes))) = []"
  by (simp_all add: demoCes_def emptyExternalSecret_def List.map_filter_def)

lemma demoCes_status: "ledger demoCes = [''team'']" "failedOf demoCes = []"
  by (simp_all add: demoCes_def ledger_def failedOf_def)

lemma demoCes_run:
  "result (reconcileExternalSecrets teamEnv demoCesReconciler demoCes (ces_Status demoCes)) p = (setLists [''team''] [] demoCes, None)"
proof -
  have "selected teamEnv demoCes n" for n
    by (simp add: selected_def IsNamespaceAllowedForClusterExternalSecret_def demoCes_def)
  then show ?thesis
    by (simp add: reconcileExternalSecrets_def getMatchingNamespaces_def listNamespaces_def run_simps teamEnv_def
        handleMatchingNamespaces_def handleNamespace_def validateSecretStoreAccess_ces_def demoCes_sources firstFailure_def
        createOrUpdateExternalSecret_def applyES_def sampleEnv_def Let_def)
qed

theorem settled_ces_writes_nothing_witness:
  "result (reconcileCes teamEnv demoCesReconciler 7 demoCes) sampleProc = (7, None)"
  using settled_ces_writes_nothing [OF demoCes_run [of sampleProc], of "\<lparr>cc_Type = ClusterExternalSecretReady, cc_Status = ConditionTrue, cc_LastTransitionTime = 3, cc_Message = []\<rparr>" 7] demoCes_status
  by (simp add: demoCesReconciler_def Requeue_def) (simp add: cesReady_def demoCes_def)

text \<open>C40. An unreadable store is treated as lost access: when the first source of the template names a
  ClusterSecretStore and the API server fails to return it, for whatever reason, the ExternalSecret of
  a provisioned namespace is deleted (its finalizer then deletes the Secret) and the namespace counts
  as failed.\<close>

theorem unreadable_store_deletes_provisioned:
  assumes "\<And>t. e_GetClusterSecretStore E t s = Inl err"
    and "sp_Data (ces_ExternalSecretSpec (ces_Spec ces)) = d # ds" "ds_SecretStoreRef d = Some ref"
    and "ssr_Name ref = s" "s \<noteq> []" "ssr_Kind ref = ''ClusterSecretStore''" "ns \<in> set (ledger ces)"
  shows "post (handleNamespace E r ces ls ns) (\<lambda>ls' new. fst ls' = fst ls \<and> ns \<in> set (map nf_Namespace (snd ls')) \<and>
    (\<exists>b. new = [DeleteES ns (getExternalSecretName ces) b, GetClusterSecretStore s]))"
proof -
  have v: "post (validateSecretStoreAccess_ces E r ces ns) (\<lambda>v new. v \<noteq> None \<and> new = [GetClusterSecretStore s])"
    using assms(1-6) unfolding validateSecretStoreAccess_ces_def firstFailure_def validateDataSourceSecretStoreAccess_def api_defs
    by (simp add: Let_def refKind_def bind_bind) (intro post_intros, auto)
  have "isNamespaceProvisioned ces ns" using assms(7) by (simp add: isNamespaceProvisioned_def list_ex_iff)
  then show ?thesis
    unfolding handleNamespace_def split_beta
    by (intro post_bind [OF v] post_option) (auto intro!: post_bind [OF post_deleteExternalSecret] post_ret simp: failure_def)
qed

theorem unreadable_store_deletes_provisioned_witness:
  "\<exists>b. DeleteES ''team'' ''app'' b \<in> set (new_events (handleNamespace (sampleEnv\<lparr>e_GetClusterSecretStore := \<lambda>_ _. Inl (errorf ''timeout'')\<rparr>)
     demoCesReconciler (demoCes\<lparr>ces_Spec := (ces_Spec demoCes)\<lparr>ces_ExternalSecretSpec := (es_Spec emptyExternalSecret)\<lparr>sp_Data :=
       [emptyDataSource\<lparr>ds_SecretStoreRef := Some \<lparr>ssr_Name = ''s'', ssr_Kind = ''ClusterSecretStore'', ssr_Namespace = []\<rparr>\<rparr>]\<rparr>\<rparr>\<rparr>) ([], []) ''team'') sampleProc)"
proof -
  let ?E = "sampleEnv\<lparr>e_GetClusterSecretStore := \<lambda>_ _. Inl (errorf ''timeout'')\<rparr>"
  let ?d = "emptyDataSource\<lparr>ds_SecretStoreRef := Some \<lparr>ssr_Name = ''s'', ssr_Kind = ''ClusterSecretStore'', ssr_Namespace = []\<rparr>\<rparr>"
  let ?ces = "demoCes\<lparr>ces_Spec := (ces_Spec demoCes)\<lparr>ces_ExternalSecretSpec := (es_Spec emptyExternalSecret)\<lparr>sp_Data := [?d]\<rparr>\<rparr>\<rparr>"
  have "post (handleNamespace ?E demoCesReconciler ?ces ([], []) ''team'') (\<lambda>ls' new. fst ls' = fst ([] :: string list, [] :: NamespaceFailure list) \<and>
      ''team'' \<in> set (map nf_Namespace (snd ls')) \<and> (\<exists>b. new = [DeleteES ''team'' (getExternalSecretName ?ces) b, GetClusterSecretStore ''s'']))"
    by (rule unreadable_store_deletes_provisioned [where d = ?d and ref = "\<lparr>ssr_Name = ''s'', ssr_Kind = ''ClusterSecretStore'', ssr_Namespace = []\<rparr>"])
      (simp_all add: ledger_def demoCes_def)
  from post_new_events [OF this, of sampleProc] show ?thesis
    by (auto simp: getExternalSecretName_def demoCes_def)
qed

lemma emits_call_answer: "(\<And>t. P (ev (f t))) \<Longrightarrow> emits P (call ev f)"
  by (simp add: emits_def post_call)

lemma emits_firstFailure [emits_intros]: "(\<And>x. emits P (f x)) \<Longrightarrow> emits P (firstFailure f xs)"
  unfolding firstFailure_def by (intro emits_intros)

lemma emits_validateAccess [emits_intros]: "(\<And>e. accessRead e \<Longrightarrow> P e) \<Longrightarrow> emits P (validateSecretStoreAccess_ces E r ces ns)"
  by (rule emits_mono [where P = accessRead])
    (simp_all add: emits_def post_conseq [OF post_validateAccess])

text \<open>Without a successful answer to a stamp there is no successful stamp.\<close>

lemma emits_never_stamped:
  assumes "\<And>t. isl (e_ApplyES E t (stampedExternalSecret ces ns) (m_UID (ces_meta ces)))"
  shows "emits (\<lambda>e. e \<noteq> stampedEvent ces ns) (reconcileExternalSecrets E r ces st)"
proof -
  let ?P = "\<lambda>e. e \<noteq> stampedEvent ces ns"
  have stamp: "emits ?P (applyES E (stampedExternalSecret ces ns') (m_UID (ces_meta ces)))" for ns'
    unfolding applyES_def
  proof (rule emits_call_answer)
    fix t
    show "ApplyES (stampedExternalSecret ces ns') (m_UID (ces_meta ces)) (ok (e_ApplyES E t (stampedExternalSecret ces ns') (m_UID (ces_meta ces))))
        \<noteq> stampedEvent ces ns"
    proof (cases "stampedExternalSecret ces ns' = stampedExternalSecret ces ns")
      case True
      then show ?thesis using assms [of t] by (auto simp: stampedEvent_def ok_def split: sum.splits)
    qed (simp add: stampedEvent_def)
  qed
  have access: "emits ?P (validateSecretStoreAccess_ces E r ces ns')" for ns'
    by (intro emits_intros) (auto simp: stampedEvent_def)
  have other: "emits ?P (deleteExternalSecret E ces ns')" "emits ?P (listNamespaces E)" "emits ?P (updateCESStatus E c)" for ns' c
    unfolding deleteExternalSecret_def api_defs by (intro emits_intros; simp add: stampedEvent_def)+
  show ?thesis
    unfolding reconcileExternalSecrets_def getMatchingNamespaces_def handleNoMatchingNamespaces_def handleMatchingNamespaces_def
      handleNamespace_def createOrUpdateExternalSecret_def cleanupOrphanedExternalSecrets_def updateStatusIfNeeded_def Let_def
    by (intro emits_intros access other stamp)
qed

text \<open>A failed re-apply forgets the namespace: an ExternalSecret stamped earlier, whose re-apply fails in
  one round, is no longer in the ledger, so no later round that starts from this ledger cleans it up,
  whatever the selectors have become.\<close>

theorem failed_apply_forgets_namespace:
  assumes "result (reconcileExternalSecrets E r ces st) p = (ces', None)"
    and "\<And>t. isl (e_ApplyES E t (stampedExternalSecret ces ns) (m_UID (ces_meta ces)))"
    and "ledger later = ledger ces'"
  shows "ns \<notin> set (ledger ces') \<and>
    post (reconcileExternalSecrets E' r' later st') (\<lambda>(_, err) new. err \<noteq> None \<or> ns \<notin> deletedIn later new)"
proof -
  let ?m = "reconcileExternalSecrets E r ces st"
  from post_new_events [OF post_reconcileExternalSecrets [where E = E and r = r and ces = ces and st = st], of p] assms(1)
  obtain ms where "provisioned E r ces ms ces' (new_events ?m p)" by auto
  then have ledger': "set (ledger ces') = {ns. stampedEvent ces ns \<in> set (new_events ?m p)}" by (simp add: provisioned_def)
  then have out: "ns \<notin> set (ledger ces')"
    using emits_new_events [OF emits_never_stamped [OF assms(2)], of "stampedEvent ces ns" r st p] by auto
  moreover have "post (reconcileExternalSecrets E' r' later st') (\<lambda>(_, err) new. err \<noteq> None \<or> ns \<notin> deletedIn later new)"
    by (rule post_conseq [OF post_reconcileExternalSecrets]) (use out assms(3) in \<open>auto simp: provisioned_def split: option.splits\<close>)
  ultimately show ?thesis by blast
qed

lemma failing_apply:
  "result (reconcileExternalSecrets (teamEnv\<lparr>e_ApplyES := \<lambda>_ _ _. Inl (errorf ''conflict'')\<rparr>) demoCesReconciler demoCes st) p =
     (setLists [] [failure ''team'' ''failed to apply ExternalSecret: conflict''] demoCes, None)"
proof -
  have "selected (teamEnv\<lparr>e_ApplyES := \<lambda>_ _ _. Inl (errorf ''conflict'')\<rparr>) demoCes n" for n
    by (simp add: selected_def IsNamespaceAllowedForClusterExternalSecret_def demoCes_def)
  then show ?thesis
    by (simp add: reconcileExternalSecrets_def getMatchingNamespaces_def listNamespaces_def run_simps teamEnv_def
        handleMatchingNamespaces_def handleNamespace_def validateSecretStoreAccess_ces_def demoCes_sources firstFailure_def
        createOrUpdateExternalSecret_def applyES_def sampleEnv_def Let_def wrap_w_def errorf_def)
qed

theorem failed_apply_forgets_namespace_witness:
  "isNamespaceProvisioned demoCes ''team'' \<and>
   \<not> isNamespaceProvisioned (fst (result (reconcileExternalSecrets (teamEnv\<lparr>e_ApplyES := \<lambda>_ _ _. Inl (errorf ''conflict'')\<rparr>)
     demoCesReconciler demoCes (ces_Status demoCes)) sampleProc)) ''team''"
  using failed_apply_forgets_namespace [OF failing_apply [of "ces_Status demoCes" sampleProc], of "''team''"] demoCes_status(1)
  by (simp add: failing_apply isNamespaceProvisioned_def)

end
