(* ===== verification/Triggers.thy ===== *)
theory Triggers
  imports Stores
begin

text \<open>
  What starts a client rebuild: the Secret controller (\<open>controller/secret/secret_controller.go\<close>), the
  ServiceAccount controller (\<open>controller/serviceaccount/serviceaccount_controller.go\<close>) and
  \<open>PatchTriggerAnnotation\<close> of \<open>utils/util.go\<close>. When a credential object changes, both put the
  trigger annotation on every store that references it; the store controllers (theory \<open>Stores\<close>)
  rebuild the clients and clear it. Both loops of both controllers are one loop over stores.
\<close>

section \<open>The annotation\<close>

definition withTrigger :: "string \<Rightarrow> store \<Rightarrow> store" where
  "withTrigger v = setMeta (\<lambda>m. m\<lparr>m_Annotations := gm_put (m_Annotations m) TriggerReconcileAnnotation v\<rparr>)"

definition PatchTriggerAnnotation :: "env \<Rightarrow> store \<Rightarrow> goerror option io" where
  "PatchTriggerAnnotation E s = do {
     now \<leftarrow> timeNow E;
     u \<leftarrow> patchStore E s (withTrigger (string_of_int now) s);
     ret (case u of Inl e \<Rightarrow> Some e | Inr _ \<Rightarrow> None)
   }"

text \<open>One store of the loops: \<open>Inl\<close> is the early return.\<close>

definition triggerStore :: "env \<Rightarrow> (store \<Rightarrow> bool) \<Rightarrow> unit \<Rightarrow> store \<Rightarrow> (goerror + unit) io" where
  "triggerStore E referenced u s =
     (if \<not> referenced s then ret (Inr ())
      else if triggerOf s \<noteq> [] then ret (Inr ())
      else do {
        err \<leftarrow> PatchTriggerAnnotation E s;
        ret (case err of
            None \<Rightarrow> Inr ()
          | Some e \<Rightarrow> if errors_Is e NotFound then Inr () else Inl e)
      })"

definition triggerStores :: "env \<Rightarrow> (store \<Rightarrow> bool) \<Rightarrow> bool \<Rightarrow> goerror option io" where
  "triggerStores E referenced processClusterSecretStore = do {
     got \<leftarrow> listSecretStores E;
     case got of
       Inl err \<Rightarrow> ret (Some err)
     | Inr items \<Rightarrow> do {
         v \<leftarrow> forE (map SS items) () (triggerStore E referenced);
         case v of
           Inl err \<Rightarrow> ret (Some err)
         | Inr _ \<Rightarrow>
             if \<not> processClusterSecretStore then ret None
             else do {
               got' \<leftarrow> listClusterSecretStores E;
               case got' of
                 Inl err \<Rightarrow> ret (Some err)
               | Inr citems \<Rightarrow> do {
                   v' \<leftarrow> forE (map CSS citems) () (triggerStore E referenced);
                   ret (case v' of Inl err \<Rightarrow> Some err | Inr _ \<Rightarrow> None)
                 }
             }
       }
   }"

section \<open>Secrets\<close>

definition checkSecret :: "string \<Rightarrow> string \<Rightarrow> SecretRef option \<Rightarrow> string \<Rightarrow> bool" where
  "checkSecret secretNamespace secretName ref storeNamespace = (case ref of
      None \<Rightarrow> False
    | Some r \<Rightarrow> secretName = sr_Name r \<and>
        secretNamespace = (if sr_Namespace r = [] then storeNamespace else sr_Namespace r))"

definition secretReferencedBy :: "string \<Rightarrow> string \<Rightarrow> string \<Rightarrow> StoreProvider option \<Rightarrow> bool" where
  "secretReferencedBy secretNamespace secretName storeNamespace pv = (case innerAuth pv of
      None \<Rightarrow> False
    | Some a \<Rightarrow> checkSecret secretNamespace secretName (au_AccessKey a) storeNamespace \<or>
        checkSecret secretNamespace secretName (au_AccessKeySecret a) storeNamespace)"

definition secretIsReferenced :: "string \<Rightarrow> string \<Rightarrow> SecretStore \<Rightarrow> bool" where
  "secretIsReferenced secretNamespace secretName st =
     (let ns = m_Namespace (ss_meta st) in
      if secretReferencedBy secretNamespace secretName ns (ss_KMS (ss_Spec st)) then True
      else secretReferencedBy secretNamespace secretName ns (ss_OOS (ss_Spec st)))"

definition secretIsReferencedByClusterStore :: "string \<Rightarrow> string \<Rightarrow> ClusterSecretStore \<Rightarrow> bool" where
  "secretIsReferencedByClusterStore secretNamespace secretName st =
     (if secretReferencedBy secretNamespace secretName [] (css_KMS (css_Spec st)) then True
      else secretReferencedBy secretNamespace secretName [] (css_OOS (css_Spec st)))"

definition referencesSecret :: "string \<Rightarrow> string \<Rightarrow> store \<Rightarrow> bool" where
  "referencesSecret secretNamespace secretName s = (case s of
      SS x \<Rightarrow> secretIsReferenced secretNamespace secretName x
    | CSS x \<Rightarrow> secretIsReferencedByClusterStore secretNamespace secretName x)"

text \<open>A Secret that is gone is matched by the name and namespace of the request.\<close>

definition Secret_Reconcile :: "env \<Rightarrow> bool \<Rightarrow> string \<Rightarrow> string \<Rightarrow> goerror option io" where
  "Secret_Reconcile E processClusterSecretStore namespace name = do {
     got \<leftarrow> getSecret E namespace name;
     case got of
       Inl err \<Rightarrow> if errors_Is err NotFound then triggerStores E (referencesSecret namespace name) processClusterSecretStore
                  else ret (Some err)
     | Inr secret \<Rightarrow> triggerStores E (referencesSecret (m_Namespace (sec_meta secret)) (m_Name (sec_meta secret))) processClusterSecretStore
   }"

definition secretEventAdmitted :: "Secret watch_event \<Rightarrow> bool" where
  "secretEventAdmitted ev = (case ev of
      Created secret \<Rightarrow> gm_len (sec_Data secret) > 0
    | Updated _ oldObj newObj \<Rightarrow> \<not> gm_eq (sec_Data oldObj) (sec_Data newObj)
    | _ \<Rightarrow> True)"

section \<open>ServiceAccounts\<close>

definition checkServiceAccount :: "string \<Rightarrow> string \<Rightarrow> ServiceAccountRef option \<Rightarrow> string \<Rightarrow> bool" where
  "checkServiceAccount saNamespace saName ref storeNamespace = (case ref of
      None \<Rightarrow> False
    | Some r \<Rightarrow> saName = sa_Name r \<and>
        saNamespace = (if sa_Namespace r = [] then storeNamespace else sa_Namespace r))"

definition serviceAccountReferencedBy :: "string \<Rightarrow> string \<Rightarrow> string \<Rightarrow> StoreProvider option \<Rightarrow> bool" where
  "serviceAccountReferencedBy saNamespace saName storeNamespace pv = (case innerAuth pv of
      None \<Rightarrow> False
    | Some a \<Rightarrow> checkServiceAccount saNamespace saName (au_ServiceAccountRef a) storeNamespace)"

definition serviceAccountIsReferenced :: "string \<Rightarrow> string \<Rightarrow> SecretStore \<Rightarrow> bool" where
  "serviceAccountIsReferenced saNamespace saName st =
     (let ns = m_Namespace (ss_meta st) in
      if serviceAccountReferencedBy saNamespace saName ns (ss_KMS (ss_Spec st)) then True
      else serviceAccountReferencedBy saNamespace saName ns (ss_OOS (ss_Spec st)))"

definition serviceAccountIsReferencedByClusterStore :: "string \<Rightarrow> string \<Rightarrow> ClusterSecretStore \<Rightarrow> bool" where
  "serviceAccountIsReferencedByClusterStore saNamespace saName st =
     (if serviceAccountReferencedBy saNamespace saName [] (css_KMS (css_Spec st)) then True
      else serviceAccountReferencedBy saNamespace saName [] (css_OOS (css_Spec st)))"

definition referencesServiceAccount :: "string \<Rightarrow> string \<Rightarrow> store \<Rightarrow> bool" where
  "referencesServiceAccount saNamespace saName s = (case s of
      SS x \<Rightarrow> serviceAccountIsReferenced saNamespace saName x
    | CSS x \<Rightarrow> serviceAccountIsReferencedByClusterStore saNamespace saName x)"

definition ServiceAccount_Reconcile :: "env \<Rightarrow> bool \<Rightarrow> string \<Rightarrow> string \<Rightarrow> goerror option io" where
  "ServiceAccount_Reconcile E processClusterSecretStore namespace name = do {
     got \<leftarrow> getServiceAccount E namespace name;
     case got of
       Inl err \<Rightarrow> if errors_Is err NotFound then triggerStores E (referencesServiceAccount namespace name) processClusterSecretStore
                  else ret (Some err)
     | Inr sa \<Rightarrow> triggerStores E (referencesServiceAccount (m_Namespace (sacc_meta sa)) (m_Name (sacc_meta sa))) processClusterSecretStore
   }"

definition hasRoleARNAnnotation :: "ServiceAccount \<Rightarrow> bool" where
  "hasRoleARNAnnotation sa = gm_has (m_Annotations (sacc_meta sa)) ACKRRSAAnnotation"

definition serviceAccountEventAdmitted :: "ServiceAccount watch_event \<Rightarrow> bool" where
  "serviceAccountEventAdmitted ev = (case ev of
      Created sa \<Rightarrow> hasRoleARNAnnotation sa
    | Updated _ oldSA newSA \<Rightarrow> (hasRoleARNAnnotation oldSA \<or> hasRoleARNAnnotation newSA) \<and>
        \<not> gm_eq (m_Annotations (sacc_meta oldSA)) (m_Annotations (sacc_meta newSA))
    | Deleted sa \<Rightarrow> hasRoleARNAnnotation sa
    | Generic _ \<Rightarrow> True)"

section \<open>Facts\<close>

text \<open>What the loop does to one store: nothing, or a patch that only sets the annotation.\<close>

definition isTrigger :: "store \<Rightarrow> event \<Rightarrow> bool" where
  "isTrigger s e \<longleftrightarrow> (\<exists>t b. e = PatchStore s (withTrigger (string_of_int t) s) b)"

definition due :: "(store \<Rightarrow> bool) \<Rightarrow> store \<Rightarrow> bool" where
  "due referenced s \<longleftrightarrow> referenced s \<and> triggerOf s = []"

definition triggerEvent :: "(store \<Rightarrow> bool) \<Rightarrow> store list \<Rightarrow> event \<Rightarrow> bool" where
  "triggerEvent referenced xs e \<longleftrightarrow> (\<exists>t. e = Clock t) \<or> (\<exists>s \<in> set xs. due referenced s \<and> isTrigger s e)"

definition loopDone :: "(store \<Rightarrow> bool) \<Rightarrow> store list \<Rightarrow> event list \<Rightarrow> bool" where
  "loopDone referenced xs n \<longleftrightarrow> list_all (\<lambda>s. list_ex (isTrigger s) n) (filter (due referenced) xs)"

lemma post_triggerStore:
  "post (triggerStore E referenced u s) (\<lambda>v n. list_all (triggerEvent referenced [s]) n \<and> (due referenced s \<longrightarrow> list_ex (isTrigger s) n))"
  unfolding triggerStore_def PatchTriggerAnnotation_def timeNow_def patchStore_def
  by (intro post_intros) (auto simp: triggerEvent_def isTrigger_def due_def)

lemma triggerEvent_mono: "triggerEvent referenced xs e \<Longrightarrow> set xs \<subseteq> set ys \<Longrightarrow> triggerEvent referenced ys e"
  by (auto simp: triggerEvent_def)

lemma post_triggerLoop:
  "post (forE xs () (triggerStore E referenced)) (\<lambda>v n. list_all (triggerEvent referenced xs) n \<and> (isl v \<or> loopDone referenced xs n))"
proof (induction xs)
  case Nil
  then show ?case by (simp add: post_ret loopDone_def)
next
  case (Cons s xs)
  have mono: "list_all (triggerEvent referenced (s # xs)) n" if "list_all (triggerEvent referenced [s]) n \<or> list_all (triggerEvent referenced xs) n" for n
    using that triggerEvent_mono [of referenced _ _ "s # xs"] by (auto simp: list_all_iff)
  show ?case
    unfolding forE.simps
  proof (intro post_bind [OF post_triggerStore] post_sum, goal_cases)
    case (1 v n e)
    then show ?case using mono by (simp add: post_ret)
  next
    case (2 v n u)
    have "u = ()" by simp
    show ?case
      unfolding \<open>u = ()\<close>
      by (rule post_conseq [OF Cons.IH])
        (use 2 mono in \<open>auto simp: loopDone_def list_all_iff\<close>)
  qed
qed

text \<open>The stores of an answer to the two lists.\<close>

definition listedStores :: "env \<Rightarrow> bool \<Rightarrow> store list \<Rightarrow> bool" where
  "listedStores E processCSS xs \<longleftrightarrow> (\<exists>t items t' citems. e_ListSecretStores E t = Inr items \<and>
     (if processCSS then e_ListClusterSecretStores E t' = Inr citems else citems = []) \<and> xs = map SS items @ map CSS citems)"

definition triggerRound :: "env \<Rightarrow> (store \<Rightarrow> bool) \<Rightarrow> bool \<Rightarrow> goerror option \<Rightarrow> event list \<Rightarrow> bool" where
  "triggerRound E referenced processCSS err n \<longleftrightarrow>
     list_all (\<lambda>e. case e of PatchStore old new _ \<Rightarrow> due referenced old \<and> isTrigger old e
       | ListSecretStores \<Rightarrow> True | ListClusterSecretStores \<Rightarrow> processCSS | Clock _ \<Rightarrow> True | _ \<Rightarrow> False) n \<and>
     (err \<noteq> None \<or> (\<exists>xs. listedStores E processCSS xs \<and> loopDone referenced xs n))"

lemma triggerEvent_round: "triggerEvent referenced xs e \<Longrightarrow> case e of PatchStore old new _ \<Rightarrow> due referenced old \<and> isTrigger old e
       | ListSecretStores \<Rightarrow> True | ListClusterSecretStores \<Rightarrow> processCSS | Clock _ \<Rightarrow> True | _ \<Rightarrow> False"
  by (auto simp: triggerEvent_def isTrigger_def)

lemma loopDone_append: "loopDone referenced xs n \<Longrightarrow> loopDone referenced ys m \<Longrightarrow> loopDone referenced (xs @ ys) (m @ n)"
  by (auto simp: loopDone_def list_all_iff)

lemma loopDone_mono: "loopDone referenced xs n \<Longrightarrow> set n \<subseteq> set m \<Longrightarrow> loopDone referenced xs m"
  by (auto simp: loopDone_def list_all_iff list_ex_iff)

lemma post_triggerStores: "post (triggerStores E referenced processCSS) (triggerRound E referenced processCSS)"
  unfolding triggerStores_def listSecretStores_def listClusterSecretStores_def
proof (intro post_bind_call post_sum post_ret post_bind [OF post_triggerLoop] post_if, goal_cases)
  case (1 t e)
  then show ?case by (simp add: triggerRound_def)
next
  case (2 t items v n e)
  then show ?case using triggerEvent_round by (auto simp: triggerRound_def list_all_iff)
next
  case (3 t items v n u)
  then have "listedStores E processCSS (map SS items)" "loopDone referenced (map SS items) n"
    by (auto simp: listedStores_def)
  moreover from this(2) have "loopDone referenced (map SS items) (n @ [ListSecretStores])" by (rule loopDone_mono) auto
  ultimately show ?case using 3 triggerEvent_round by (auto simp: triggerRound_def list_all_iff)
next
  case (4 t items v n u t' e)
  then show ?case using triggerEvent_round by (auto simp: triggerRound_def list_all_iff)
next
  case (5 t items v n u t' citems v' n')
  then have ev: "list_all (triggerEvent referenced (map SS items)) n" "list_all (triggerEvent referenced (map CSS citems)) n'"
    "isl v' \<or> loopDone referenced (map CSS citems) n'" "loopDone referenced (map SS items) n" by auto
  have "listedStores E processCSS (map SS items @ map CSS citems)" using 5 by (auto simp: listedStores_def)
  moreover have "loopDone referenced (map SS items @ map CSS citems) (n' @ [ListClusterSecretStores] @ n @ [ListSecretStores])" if "\<not> isl v'"
  proof -
    have "loopDone referenced (map SS items @ map CSS citems) (n' @ n)" using ev(3,4) that by (simp add: loopDone_append)
    then show ?thesis by (rule loopDone_mono) auto
  qed
  ultimately show ?case using ev(1,2) 5 triggerEvent_round by (auto simp: triggerRound_def list_all_iff split: sum.split)
qed

text \<open>The credential objects the auth code reads for a store, and those its controllers watch for.\<close>

lemma authRefNamespace_watched:
  "authRefNamespace E f1 f2 k sns rns = Inr ns \<Longrightarrow> ns = (if rns = [] then sns else rns)"
  by (auto simp: authRefNamespace_def split: if_splits)

lemma emits_readAuthSecret_watched:
  assumes "\<And>r ns. ref = Some r \<Longrightarrow> checkSecret ns (sr_Name r) ref sns \<Longrightarrow> P (GetSecret ns (sr_Name r))"
  shows "emits P (readAuthSecret E f1 f2 w sns ref)"
  unfolding readAuthSecret_def configFromSecret_def api_defs
  by (intro emits_intros) (use assms in \<open>auto simp: checkSecret_def dest!: authRefNamespace_watched\<close>)

lemma emits_serviceAccount_watched:
  assumes "\<And>ns. checkServiceAccount ns (sa_Name ref) (Some ref) (m_Namespace (ss_meta st)) \<Longrightarrow> P (GetServiceAccount ns (sa_Name ref))"
  shows "emits P (buildServiceAccountRefAuthConfig E st ap ref cid uid)"
  unfolding buildServiceAccountRefAuthConfig_def api_defs
  by (intro emits_intros) (use assms in \<open>auto simp: checkServiceAccount_def dest!: authRefNamespace_watched\<close>)

definition watchedRead :: "store \<Rightarrow> event \<Rightarrow> bool" where
  "watchedRead s e \<longleftrightarrow> (case e of
      GetSecret ns n \<Rightarrow> referencesSecret ns n s
    | GetServiceAccount ns n \<Rightarrow> referencesServiceAccount ns n s
    | _ \<Rightarrow> True)"

lemma emits_BuildAuthConfig_watched:
  assumes "\<And>a ns n. ap = Some (\<lparr>ad_Auth = Some a, ad_StoreName = sn\<rparr>) \<Longrightarrow>
      checkSecret ns n (au_AccessKey a) (m_Namespace (ss_meta st)) \<or> checkSecret ns n (au_AccessKeySecret a) (m_Namespace (ss_meta st)) \<Longrightarrow>
      P (GetSecret ns n)"
    and "\<And>a ns n. ap = Some (\<lparr>ad_Auth = Some a, ad_StoreName = sn\<rparr>) \<Longrightarrow>
      checkServiceAccount ns n (au_ServiceAccountRef a) (m_Namespace (ss_meta st)) \<Longrightarrow> P (GetServiceAccount ns n)"
    and "ap = None \<or> (\<exists>a. ap = Some (\<lparr>ad_Auth = Some a, ad_StoreName = sn\<rparr>))"
  shows "emits P (BuildAuthConfig E st kc ap cid uid)"
proof (cases ap)
  case None
  then show ?thesis by (simp add: BuildAuthConfig_def emits_ret)
next
  case (Some x)
  then obtain a where a: "ap = Some (\<lparr>ad_Auth = Some a, ad_StoreName = sn\<rparr>)" using assms(3) by auto
  note reads = assms(1) [OF a] assms(2) [OF a]
  have r1: "emits P (readAuthSecret E f1 f2 w (m_Namespace (ss_meta st)) (au_AccessKey a))"
    "emits P (readAuthSecret E f1 f2 w (m_Namespace (ss_meta st)) (au_AccessKeySecret a))" for f1 f2 w
    by (rule emits_readAuthSecret_watched; use reads(1) in blast)+
  have r2: "emits P (buildServiceAccountRefAuthConfig E st ap' ref cid uid)" if "au_ServiceAccountRef a = Some ref" for ap' ref
    by (rule emits_serviceAccount_watched) (use reads(2) that in simp)
  show ?thesis
    unfolding BuildAuthConfig_def buildAuthConfigWithCrossNamespace_def a option.case Let_def GetServiceAccountRef_def GetAccessKey_def
      GetAccessKeySecret_def adapted_def AuthAdapter.select_convs
    by (intro emits_intros r1 r2)
qed

section \<open>Properties\<close>


text \<open>A store whose AccessKey lives in the Secret \<open>cred\<close>.\<close>

definition keyStore :: SecretStore where
  "keyStore = demoStore\<lparr>ss_Spec := \<lparr>ss_KMS = Some \<lparr>pr_Auth = Some \<lparr>
     au_AccessKey = Some \<lparr>sr_Name = ''cred'', sr_Namespace = [], sr_Key = ''id''\<rparr>, au_AccessKeySecret = None, au_RAMRoleARN = [],
     au_RAMRoleSessionName = [], au_OIDCProviderARN = [], au_OIDCTokenFilePath = [], au_RoleSessionExpiration = [],
     au_RemoteRAMRoleARN = [], au_RemoteRAMRoleSessionName = [], au_ServiceAccountRef = None\<rparr>\<rparr>, ss_OOS = None\<rparr>\<rparr>"


text \<open>C27. Every credential object a client is built from is watched: whatever Secret or ServiceAccount the
  auth code reads for a store (a cluster store has no namespace), the reference matching of the
  Secret and ServiceAccount controllers finds that store when the object changes.\<close>

theorem credential_reads_are_watched:
  assumes "case s of SS _ \<Rightarrow> True | CSS x \<Rightarrow> m_Namespace (css_meta x) = []"
  shows "emits (watchedRead s) (NewClient E pv (asSecretStore s) kubeClient endpoint)"
proof -
  let ?st = "asSecretStore s" and ?P = "watchedRead s"
  have build: "emits ?P (BuildAuthConfig E ?st kc (kms_authProvider ?st) cid uid)" "emits ?P (BuildAuthConfig E ?st kc (oos_authProvider ?st) cid uid)" for kc cid uid
    by (rule emits_BuildAuthConfig_watched [where sn = "m_Name (ss_meta ?st)"],
        (use assms in \<open>auto simp: kms_authProvider_def watchedRead_def referencesSecret_def secretIsReferenced_def secretReferencedBy_def
          secretIsReferencedByClusterStore_def innerAuth_def asSecretStore_def referencesServiceAccount_def serviceAccountIsReferenced_def
          serviceAccountReferencedBy_def serviceAccountIsReferencedByClusterStore_def Let_def split: store.splits option.splits\<close>)[3])
      (rule emits_BuildAuthConfig_watched [where sn = "[]"],
        (use assms in \<open>auto simp: oos_authProvider_def watchedRead_def referencesSecret_def secretIsReferenced_def secretReferencedBy_def
          secretIsReferencedByClusterStore_def innerAuth_def asSecretStore_def referencesServiceAccount_def serviceAccountIsReferenced_def
          serviceAccountReferencedBy_def serviceAccountIsReferencedByClusterStore_def Let_def split: store.splits option.splits\<close>)[3])
  show ?thesis
    unfolding NewClient_def kms_NewClient_def oos_NewClient_def kms_newClientWithAuth_def oos_newClientWithAuth_def Let_def
    by (cases "pv_kind pv"; simp only: pkind.case; intro emits_intros build; simp add: watchedRead_def)
qed

theorem credential_reads_are_watched_witness:
  "emits (watchedRead (SS keyStore)) (NewClient sampleEnv (kms_NewProvider demoOptions) (asSecretStore (SS keyStore)) True [])"
  using credential_reads_are_watched [of "SS keyStore"] by simp

end
