(* ===== verification/Scope.thy ===== *)
theory Scope
  imports Store_Protocol Ces Triggers
begin

text \<open>
  \<open>cmd/manager/main.go\<close>: the command line becomes the settings of the controllers. The namespace
  scope is parsed and checked, the cluster-scoped controllers are switched off under a scope, the
  providers are registered and every reconciler gets its fields. The flag parser, the construction
  of the controller manager and its start (each of which exits the process on an error) are outside;
  so the result of start-up is either the refusal or the settings.
\<close>

text \<open>The parsed flags, and the names of the flags given on the command line. Durations are nanoseconds.\<close>

record flags =
  fl_selectedBackend :: string
  fl_rotationInterval :: int
  fl_disablePolling :: bool
  fl_reconcilePeriod :: int
  fl_reconcileCount :: int
  fl_region :: string
  fl_clusterId :: string
  fl_uid :: string
  fl_watchNamespaces :: string
  fl_excludeNamespaces :: string
  fl_maxConcurrentSecretPulls :: int
  fl_maxConcurrentKmsSecretPulls :: int
  fl_maxConcurrentOosSecretPulls :: int
  fl_enableWorkerRole :: bool
  fl_kmsEndpoint :: string
  fl_cleanUpSecretOnFailure :: bool
  fl_processClusterSecretStore :: bool
  fl_processClusterExternalSecret :: bool
  fl_enableCrossNamespaceSecretStore :: bool
  fl_enableCrossNamespaceAuthRef :: bool
  fl_visited :: "string list"

definition second :: int where "second = 1000000000"

definition defaultFlags :: flags where
  "defaultFlags = \<lparr>fl_selectedBackend = ''alicloud-kms'', fl_rotationInterval = 120 * second, fl_disablePolling = False,
     fl_reconcilePeriod = 5 * second, fl_reconcileCount = 1, fl_region = [], fl_clusterId = [], fl_uid = [],
     fl_watchNamespaces = [], fl_excludeNamespaces = [], fl_maxConcurrentSecretPulls = 10,
     fl_maxConcurrentKmsSecretPulls = 10, fl_maxConcurrentOosSecretPulls = 10, fl_enableWorkerRole = False,
     fl_kmsEndpoint = [], fl_cleanUpSecretOnFailure = False, fl_processClusterSecretStore = True,
     fl_processClusterExternalSecret = True, fl_enableCrossNamespaceSecretStore = False,
     fl_enableCrossNamespaceAuthRef = False, fl_visited = []\<rparr>"

text \<open>The deprecated flag counts only when it is given and its replacement is not.\<close>

definition finalMaxConcurrentSecretPulls :: "flags \<Rightarrow> int" where
  "finalMaxConcurrentSecretPulls fl =
     (let deprecatedPullsSet = ''max-concurrent-secret-pulls'' \<in> set (fl_visited fl);
          kmsPullsSet = ''max-concurrent-kms-secret-pulls'' \<in> set (fl_visited fl)
      in if deprecatedPullsSet \<and> \<not> kmsPullsSet then fl_maxConcurrentSecretPulls fl
         else fl_maxConcurrentKmsSecretPulls fl)"

definition providerOptions :: "flags \<Rightarrow> ProviderOptions" where
  "providerOptions fl = \<lparr>po_Region = fl_region fl, po_ClusterId = fl_clusterId fl, po_Uid = fl_uid fl,
     po_KmsEndpoint = fl_kmsEndpoint fl, po_KmsMaxConcurrent = finalMaxConcurrentSecretPulls fl,
     po_OosMaxConcurrent = fl_maxConcurrentOosSecretPulls fl\<rparr>"

text \<open>\<open>backend.SupportProvider\<close> after the \<open>init\<close> functions of the two provider packages.\<close>

definition SupportProvider :: "(ProviderOptions \<Rightarrow> provider) gomap" where
  "SupportProvider = [(ProviderKMSName, kms_NewProvider), (ProviderOOSName, oos_NewProvider)]"

definition registerProviders :: "ProviderOptions \<Rightarrow> unit io" where
  "registerProviders opts = forM SupportProvider () (\<lambda>_ (_, f). let pv = f opts in RegisterProvider (pv_name pv) pv)"

section \<open>Namespace scope\<close>

text \<open>\<open>strings.Trim(s, c)\<close> for a one-character cutset.\<close>

definition TrimChar :: "string \<Rightarrow> char \<Rightarrow> string" where
  "TrimChar s c = rev (dropWhile (\<lambda>x. x = c) (rev (dropWhile (\<lambda>x. x = c) s)))"

definition nsSlice :: "string \<Rightarrow> string list" where
  "nsSlice ns = filter (\<lambda>p. p \<noteq> []) (map TrimSpace (SplitChar (TrimChar (TrimSpace ns) (CHR 0x22)) (CHR '','')))"

fun includeLoop :: "string list \<Rightarrow> bool gomap \<Rightarrow> bool gomap" where
  "includeLoop [] watchNs = watchNs"
| "includeLoop (ns # rest) watchNs = includeLoop rest (gm_put watchNs ns True)"

fun excludeLoop :: "string list \<Rightarrow> string list \<Rightarrow> bool gomap \<Rightarrow> string list \<times> bool gomap" where
  "excludeLoop [] conflicting watchNs = (conflicting, watchNs)"
| "excludeLoop (ns # rest) conflicting watchNs =
     excludeLoop rest (if gm_get watchNs ns = Some True then conflicting @ [ns] else conflicting) (gm_put watchNs ns False)"

definition namespaceScope :: "string \<Rightarrow> string \<Rightarrow> string list \<times> bool gomap" where
  "namespaceScope watchNamespaces excludeNamespaces =
     (let watchNs = (if watchNamespaces \<noteq> [] then includeLoop (nsSlice watchNamespaces) gm_empty else gm_empty)
      in if excludeNamespaces \<noteq> [] then excludeLoop (nsSlice excludeNamespaces) [] watchNs else ([], watchNs))"

definition whitelisted :: "bool gomap \<Rightarrow> string list" where
  "whitelisted watchNs = sort (map fst (filter snd watchNs))"

section \<open>Start-up\<close>

text \<open>
  What the process is started with: the two package variables, the cache options (re-list period and
  the restriction to namespaces, none for all), the pull rates, and the reconcilers. \<open>SetupWithManager\<close>
  sets the REST configuration of every reconciler; the trigger controllers have one setting.
\<close>

record settings =
  se_EnableWorkerRole :: bool
  se_EnableCrossNamespaceAuthRef :: bool
  se_SyncPeriod :: int
  se_DefaultNamespaces :: "string list option"
  se_KmsPullRate :: int
  se_OosPullRate :: int
  se_ES :: ExternalSecretReconciler
  se_SS :: StoreReconciler
  se_CSS :: "StoreReconciler option"
  se_CES :: "ClusterExternalSecretReconciler option"
  se_TriggerClusterStores :: bool

definition syncPeriod :: "flags \<Rightarrow> int" where
  "syncPeriod fl = (if fl_disablePolling fl then 365 * 24 * 3600 * second else 10 * 3600 * second)"

definition esReconciler :: "flags \<Rightarrow> bool gomap \<Rightarrow> bool \<Rightarrow> ExternalSecretReconciler" where
  "esReconciler fl watchNs processClusterSecretStore =
     \<lparr>rc_WatchNamespaces = watchNs, rc_ReconciliationPeriod = fl_reconcilePeriod fl,
      rc_CleanUpSecretOnFailure = fl_cleanUpSecretOnFailure fl, rc_DisablePolling = fl_disablePolling fl,
      rc_RotationInterval = fl_rotationInterval fl, rc_KmsLimiter = True, rc_OosLimiter = True,
      rc_EnableCrossNamespace = fl_enableCrossNamespaceSecretStore fl, rc_RestConfig = True,
      rc_ProcessClusterSecretStore = processClusterSecretStore\<rparr>"

definition storeReconciler :: "flags \<Rightarrow> StoreReconciler" where
  "storeReconciler fl = \<lparr>sc_RestConfig = True, sc_EnableCrossNamespaceAuthRef = fl_enableCrossNamespaceAuthRef fl,
     sc_ReconciliationPeriod = fl_reconcilePeriod fl\<rparr>"

definition cesReconciler :: "flags \<Rightarrow> ClusterExternalSecretReconciler" where
  "cesReconciler fl = \<lparr>cr_ReconciliationPeriod = fl_reconcilePeriod fl, cr_RotationInterval = fl_rotationInterval fl,
     cr_DisablePolling = fl_disablePolling fl, cr_EnableCrossNamespace = fl_enableCrossNamespaceSecretStore fl\<rparr>"

definition settingsOf :: "flags \<Rightarrow> bool gomap \<Rightarrow> settings" where
  "settingsOf fl watchNs =
     (let scoped = gm_len watchNs > 0;
          processClusterSecretStore = (fl_processClusterSecretStore fl \<and> \<not> scoped);
          processClusterExternalSecret = (fl_processClusterExternalSecret fl \<and> \<not> scoped)
      in \<lparr>se_EnableWorkerRole = fl_enableWorkerRole fl,
          se_EnableCrossNamespaceAuthRef = fl_enableCrossNamespaceAuthRef fl,
          se_SyncPeriod = syncPeriod fl,
          se_DefaultNamespaces = (if whitelisted watchNs \<noteq> [] then Some (whitelisted watchNs) else None),
          se_KmsPullRate = finalMaxConcurrentSecretPulls fl,
          se_OosPullRate = fl_maxConcurrentOosSecretPulls fl,
          se_ES = esReconciler fl watchNs processClusterSecretStore,
          se_SS = storeReconciler fl,
          se_CSS = (if processClusterSecretStore then Some (storeReconciler fl) else None),
          se_CES = (if processClusterExternalSecret then Some (cesReconciler fl) else None),
          se_TriggerClusterStores = processClusterSecretStore\<rparr>)"

definition startup :: "flags \<Rightarrow> settings res io" where
  "startup fl = do {
     _ \<leftarrow> registerProviders (providerOptions fl);
     let (conflicting, watchNs) = namespaceScope (fl_watchNamespaces fl) (fl_excludeNamespaces fl) in
     if conflicting \<noteq> []
     then ret (Inl (errorf (''namespace(s) '' @ Join (sort conflicting) '', '' @
            '' are listed in both --watch-namespaces and --exclude-namespaces'')))
     else ret (Inr (settingsOf fl watchNs))
   }"

text \<open>The settings of the process that the components read from their environment.\<close>

definition withSettings :: "settings \<Rightarrow> env \<Rightarrow> env" where
  "withSettings s E = E\<lparr>e_EnableWorkerRole := se_EnableWorkerRole s,
     e_EnableCrossNamespaceAuthRef := se_EnableCrossNamespaceAuthRef s\<rparr>"

section \<open>Facts\<close>

lemma includeLoop_get: "gm_get (includeLoop xs w) k = (if k \<in> set xs then Some True else gm_get w k)"
  by (induction xs w rule: includeLoop.induct) auto

lemma includeLoop_ok: "gm_ok w \<Longrightarrow> gm_ok (includeLoop xs w)"
  by (induction xs w rule: includeLoop.induct) auto

lemma excludeLoop_get: "gm_get (snd (excludeLoop xs cs w)) k = (if k \<in> set xs then Some False else gm_get w k)"
  by (induction xs cs w rule: excludeLoop.induct) auto

lemma excludeLoop_ok: "gm_ok w \<Longrightarrow> gm_ok (snd (excludeLoop xs cs w))"
  by (induction xs cs w rule: excludeLoop.induct) auto

lemma excludeLoop_conflicts:
  "set (fst (excludeLoop xs cs w)) = set cs \<union> {k \<in> set xs. gm_get w k = Some True}"
  by (induction xs cs w rule: excludeLoop.induct) (auto split: if_splits)

lemma excludeLoop_distinct:
  "distinct cs \<Longrightarrow> (\<forall>k \<in> set cs. gm_get w k \<noteq> Some True) \<Longrightarrow> distinct (fst (excludeLoop xs cs w))"
proof (induction xs cs w rule: excludeLoop.induct)
  case (2 ns rest cs w)
  then have "ns \<notin> set cs" if "gm_get w ns = Some True" using that by blast
  with 2 show ?case by simp
qed simp

lemma nsSlice_nil [simp]: "nsSlice [] = []"
  by (simp add: nsSlice_def TrimSpace_def TrimChar_def)

lemma namespaceScope_eq:
  "namespaceScope w x = excludeLoop (nsSlice x) [] (includeLoop (nsSlice w) gm_empty)"
  by (auto simp: namespaceScope_def Let_def)

lemma scope_get:
  "gm_get (snd (namespaceScope w x)) k =
    (if k \<in> set (nsSlice x) then Some False else if k \<in> set (nsSlice w) then Some True else None)"
  by (simp add: namespaceScope_eq excludeLoop_get includeLoop_get)

lemma scope_ok: "gm_ok (snd (namespaceScope w x))"
  by (simp add: namespaceScope_eq excludeLoop_ok includeLoop_ok)

lemma scope_conflicts:
  "set (fst (namespaceScope w x)) = set (nsSlice w) \<inter> set (nsSlice x)" "distinct (fst (namespaceScope w x))"
  by (auto simp: namespaceScope_eq excludeLoop_conflicts excludeLoop_distinct includeLoop_get split: if_splits)

lemma set_whitelisted: "gm_ok w \<Longrightarrow> set (whitelisted w) = {k. gm_get w k = Some True}"
  by (force simp: whitelisted_def gm_get_in_set)

lemma whitelisted_order: "gm_ok w \<Longrightarrow> sorted (whitelisted w) \<and> distinct (whitelisted w)"
  by (auto simp: whitelisted_def gm_ok_def distinct_map intro: inj_on_subset)

lemma sort_Nil_iff: "sort xs = [] \<longleftrightarrow> xs = []"
  by (metis set_empty set_sort)

lemma whitelisted_Nil_iff: "whitelisted w = [] \<longleftrightarrow> \<not> (\<exists>kv \<in> set w. snd kv)"
  by (simp add: whitelisted_def sort_Nil_iff filter_empty_conv)

lemma watchLoop_scope:
  assumes "gm_ok w"
  shows "IsNamespaceWatched w ns \<longleftrightarrow>
    (if whitelisted w \<noteq> [] then ns \<in> set (whitelisted w) else gm_get w ns \<noteq> Some False)"
proof (cases "\<exists>kv \<in> set w. snd kv")
  case True
  then have "whitelisted w \<noteq> []" by (simp add: whitelisted_Nil_iff)
  then show ?thesis using watchLoop_include [OF True] assms by (simp only: IsNamespaceWatched_def set_whitelisted not_False_eq_True if_True mem_Collect_eq)
next
  case False
  then have "whitelisted w = []" by (simp add: whitelisted_Nil_iff)
  then show ?thesis using watchLoop_exclude [OF False] by (simp only: IsNamespaceWatched_def simp_thms if_False)
qed

lemma startup_result: "result (startup fl) p =
    (let (cs, w) = namespaceScope (fl_watchNamespaces fl) (fl_excludeNamespaces fl) in
     if cs \<noteq> [] then Inl (errorf (''namespace(s) '' @ Join (sort cs) '', '' @
            '' are listed in both --watch-namespaces and --exclude-namespaces''))
     else Inr (settingsOf fl w))"
  by (simp add: startup_def run_simps split: prod.split)

lemma startup_final: "final (startup fl) p = final (registerProviders (providerOptions fl)) p"
  by (simp add: startup_def run_simps split: prod.split)

text \<open>The settings of a started process, over the two parsed lists.\<close>

lemma startup_settings:
  assumes "result (startup fl) p = Inr s"
  shows "s = settingsOf fl (snd (namespaceScope (fl_watchNamespaces fl) (fl_excludeNamespaces fl)))"
    and "set (nsSlice (fl_watchNamespaces fl)) \<inter> set (nsSlice (fl_excludeNamespaces fl)) = {}"
  using assms scope_conflicts(1) [of "fl_watchNamespaces fl" "fl_excludeNamespaces fl"]
  by (auto simp: startup_result split: prod.splits if_splits)

text \<open>Whether a scope is configured.\<close>

lemma scope_len: "gm_len (snd (namespaceScope w x)) > 0 \<longleftrightarrow> nsSlice w \<noteq> [] \<or> nsSlice x \<noteq> []"
proof -
  have "gm_len (snd (namespaceScope w x)) > 0 \<longleftrightarrow> (\<exists>k. k \<in> set (nsSlice w) \<or> k \<in> set (nsSlice x))"
    unfolding gm_len_pos gm_has_def scope_get by auto
  then show ?thesis by (metis ex_in_conv set_empty)
qed

lemma startup_cluster_off:
  assumes "result (startup fl) p = Inr s" "nsSlice (fl_watchNamespaces fl) \<noteq> [] \<or> nsSlice (fl_excludeNamespaces fl) \<noteq> []"
  shows "se_CSS s = None" "se_CES s = None" "\<not> se_TriggerClusterStores s"
  unfolding startup_settings(1) [OF assms(1)] settingsOf_def Let_def scope_len using assms(2) by simp_all

text \<open>Conflicting scopes are refused: start-up refuses exactly when some namespace is listed, after
  trimming, in both the watch list and the exclude list, and the message then names exactly the
  namespaces in both, each once and in ascending order.\<close>

theorem scope_conflicts_refuse_start:
  "case result (startup fl) p of
     Inl e \<Rightarrow> \<exists>cs. cs \<noteq> [] \<and> set cs = set (nsSlice (fl_watchNamespaces fl)) \<inter> set (nsSlice (fl_excludeNamespaces fl)) \<and>
       sorted cs \<and> distinct cs \<and>
       e = errorf (''namespace(s) '' @ Join cs '', '' @ '' are listed in both --watch-namespaces and --exclude-namespaces'')
   | Inr _ \<Rightarrow> set (nsSlice (fl_watchNamespaces fl)) \<inter> set (nsSlice (fl_excludeNamespaces fl)) = {}"
proof -
  obtain cs w where cw: "namespaceScope (fl_watchNamespaces fl) (fl_excludeNamespaces fl) = (cs, w)" by fastforce
  note c = scope_conflicts [of "fl_watchNamespaces fl" "fl_excludeNamespaces fl", unfolded cw fst_conv]
  show ?thesis
  proof (cases "cs = []")
    case True
    then show ?thesis using c by (simp add: startup_result cw)
  next
    case False
    have "result (startup fl) p = Inl (errorf (''namespace(s) '' @ Join (sort cs) '', '' @
        '' are listed in both --watch-namespaces and --exclude-namespaces''))"
      unfolding startup_result cw using False by (simp only: Let_def prod.case not_False_eq_True if_True)
    then show ?thesis
      by (simp only: sum.case) (rule exI [of _ "sort cs"], use c False in \<open>simp add: sort_Nil_iff\<close>)
  qed
qed

text \<open>The scope in force: once started, an ExternalSecret namespace is watched exactly when it is in the
  watch list, or, without a watch list, when it is not in the exclude list; the cache is restricted to
  exactly the watch list, in ascending order and without repetition, or not at all without one; and
  under any scope the controllers of the cluster-scoped kinds are off in every component, whatever the
  flags say, while without a scope they follow their flags.\<close>

theorem scope_in_force:
  assumes "result (startup fl) p = Inr s"
  shows "shouldWatch (se_ES s) ns = (if nsSlice (fl_watchNamespaces fl) \<noteq> [] then ns \<in> set (nsSlice (fl_watchNamespaces fl))
           else ns \<notin> set (nsSlice (fl_excludeNamespaces fl))) \<and>
    (case se_DefaultNamespaces s of
       None \<Rightarrow> nsSlice (fl_watchNamespaces fl) = []
     | Some l \<Rightarrow> l \<noteq> [] \<and> sorted l \<and> distinct l \<and> set l = set (nsSlice (fl_watchNamespaces fl))) \<and>
    (let scoped = (nsSlice (fl_watchNamespaces fl) \<noteq> [] \<or> nsSlice (fl_excludeNamespaces fl) \<noteq> []) in
       rc_ProcessClusterSecretStore (se_ES s) = (fl_processClusterSecretStore fl \<and> \<not> scoped) \<and>
       se_TriggerClusterStores s = (fl_processClusterSecretStore fl \<and> \<not> scoped) \<and>
       (se_CSS s \<noteq> None) = (fl_processClusterSecretStore fl \<and> \<not> scoped) \<and>
       (se_CES s \<noteq> None) = (fl_processClusterExternalSecret fl \<and> \<not> scoped))"
proof -
  let ?w = "snd (namespaceScope (fl_watchNamespaces fl) (fl_excludeNamespaces fl))"
  note s = startup_settings [OF assms]
  note get = scope_get [of "fl_watchNamespaces fl" "fl_excludeNamespaces fl"]
  note ok = scope_ok [of "fl_watchNamespaces fl" "fl_excludeNamespaces fl"]
  have set: "set (whitelisted ?w) = set (nsSlice (fl_watchNamespaces fl))"
    using s(2) by (auto simp: set_whitelisted [OF ok] get split: if_splits)
  then have nil: "whitelisted ?w = [] \<longleftrightarrow> nsSlice (fl_watchNamespaces fl) = []" by (metis set_empty)
  have watch: "IsNamespaceWatched ?w ns = (if nsSlice (fl_watchNamespaces fl) \<noteq> [] then ns \<in> set (nsSlice (fl_watchNamespaces fl))
      else ns \<notin> set (nsSlice (fl_excludeNamespaces fl)))"
    unfolding watchLoop_scope [OF ok] nil set by (simp add: get)
  show ?thesis
    unfolding s(1) settingsOf_def Let_def scope_len
    using watch set nil whitelisted_order [OF ok] by (simp add: shouldWatch_def esReconciler_def)
qed

lemma strings_demo: "nsSlice ''team-a, team-b,'' = [''team-a'', ''team-b'']"
  by (simp add: nsSlice_def TrimSpace_def TrimChar_def isSpace_def)

theorem scope_in_force_witness:
  "\<exists>s. result (startup (defaultFlags\<lparr>fl_watchNamespaces := ''team-a, team-b,''\<rparr>)) sampleProc = Inr s \<and>
     shouldWatch (se_ES s) ''team-b'' \<and> \<not> shouldWatch (se_ES s) ''prod'' \<and> se_CSS s = None \<and> se_CES s = None"
proof -
  let ?fl = "defaultFlags\<lparr>fl_watchNamespaces := ''team-a, team-b,''\<rparr>"
  have "fst (namespaceScope (fl_watchNamespaces ?fl) (fl_excludeNamespaces ?fl)) = []"
    by (simp add: namespaceScope_eq defaultFlags_def)
  then obtain w where w: "namespaceScope (fl_watchNamespaces ?fl) (fl_excludeNamespaces ?fl) = ([], w)" by (metis prod.collapse)
  obtain s where s: "result (startup ?fl) sampleProc = Inr s" unfolding startup_result w by simp
  have f: "fl_watchNamespaces ?fl = ''team-a, team-b,''" "fl_excludeNamespaces ?fl = []" by (simp_all add: defaultFlags_def)
  show ?thesis
    using s scope_in_force [OF s, of "''team-b''"] scope_in_force [OF s, of "''prod''"]
    unfolding f strings_demo nsSlice_nil Let_def by (intro exI [of _ s]) simp
qed

section \<open>The process that starts\<close>

definition initialProc :: proc where
  "initialProc = \<lparr>tr = [], providerMap = gm_empty, envInitFailure = None, compositeKeysByES = gm_empty, cssDisabledWarned = []\<rparr>"

lemma startup_providerMap:
  "providerMap (final (startup fl) initialProc) =
     [(ProviderKMSName, kms_NewProvider (providerOptions fl)), (ProviderOOSName, oos_NewProvider (providerOptions fl))]"
  by (simp add: startup_final registerProviders_def SupportProvider_def RegisterProvider_def run_simps initialProc_def
      gm_empty_def gm_put_def kms_NewProvider_def oos_NewProvider_def ProviderKMSName_def ProviderOOSName_def)

text \<open>The process starts well-formed: after start-up, whatever the flags, both providers are registered,
  each under its own name with the options of the command line, and their client pools are well-formed
  and empty.\<close>

theorem startup_providers:
  "providersAt (final (startup fl) initialProc) (kms_NewProvider (providerOptions fl)) (oos_NewProvider (providerOptions fl)) \<and>
   clientAt (kms_NewProvider (providerOptions fl)) (final (startup fl) initialProc) k = Inl (not_registered k) \<and>
   clientAt (oos_NewProvider (providerOptions fl)) (final (startup fl) initialProc) k = Inl (not_registered k)"
  unfolding providersAt_def table_ok_def startup_providerMap
  by (auto simp: gm_get_def startup_providerMap clientAt_def poolOf_def kms_NewProvider_def oos_NewProvider_def NewManager_def
      kms_GetClient_def oos_GetClient_def not_registered_def pool_ok_NewManager ProviderKMSName_def ProviderOOSName_def
      pool_ok_def gm_empty_def gm_ok_def split: if_splits)

end
