(* ===== verification/Dispatch.thy ===== *)
theory Dispatch
  imports Scope
begin

text \<open>
  Whom an event of the API server wakes: the \<open>SetupWithManager\<close> of the six controllers and their registration in
  \<open>cmd/manager/main.go\<close>. A watch has a filter and a handler; what the handler lets through becomes
  a turn of the controller, a whole \<open>Reconcile\<close> of the object named. The library's two handlers are
  arguments: for an update, one enqueues the object, the other maps objects to requests.
\<close>

section \<open>Handlers\<close>

text \<open>Which of the two objects of an update a handler looks at. For the other events there is one object.\<close>

datatype side = Old | New

record handlers =
  hd_ForObject :: "side list"     \<comment> \<open>\<open>EnqueueRequestForObject\<close>, installed by \<open>For\<close>\<close>
  hd_FromMapFunc :: "side list"   \<comment> \<open>\<open>EnqueueRequestsFromMapFunc\<close>, installed by \<open>Watches\<close>\<close>

definition delivered :: "side list \<Rightarrow> 'o watch_event \<Rightarrow> 'o list" where
  "delivered sides ev = (case ev of
      Created x \<Rightarrow> [x]
    | Deleted x \<Rightarrow> [x]
    | Generic x \<Rightarrow> [x]
    | Updated _ oldObj newObj \<Rightarrow> map (\<lambda>s. case s of Old \<Rightarrow> oldObj | New \<Rightarrow> newObj) sides)"

text \<open>As documented: \<open>EnqueueRequestForObject\<close> enqueues the new object, \<open>EnqueueRequestsFromMapFunc\<close> maps both.\<close>

definition documentedHandlers :: "handlers \<Rightarrow> bool" where
  "documentedHandlers h \<longleftrightarrow> hd_ForObject h = [New] \<and> set (hd_FromMapFunc h) = {Old, New}"

section \<open>Turns\<close>

text \<open>A turn: the controller and the object. The controllers of the cluster-scoped kinds have turns only
  when start-up registered them.\<close>

datatype turn =
    ExternalSecretTurn string string | SecretStoreTurn string string | ClusterSecretStoreTurn string
  | ClusterExternalSecretTurn string | SecretTurn string string | ServiceAccountTurn string string

datatype api_event =
    EsEvent "ExternalSecret watch_event"
  | SsEvent "SecretStore watch_event"
  | CssEvent "ClusterSecretStore watch_event"
  | CesEvent "ClusterExternalSecret watch_event"
  | NsEvent "Namespace watch_event"
  | SecretEvent "Secret watch_event"
  | SaEvent "ServiceAccount watch_event"

text \<open>A watch with \<open>For\<close>, and one with \<open>Watches\<close> and a map function.\<close>

definition watchFor :: "handlers \<Rightarrow> ('o watch_event \<Rightarrow> bool) \<Rightarrow> ('o \<Rightarrow> turn) \<Rightarrow> 'o watch_event \<Rightarrow> turn list io" where
  "watchFor h admitted request ev = ret (if admitted ev then map request (delivered (hd_ForObject h) ev) else [])"

definition watches ::
    "handlers \<Rightarrow> ('o watch_event \<Rightarrow> bool) \<Rightarrow> ('o \<Rightarrow> ('r list) io) \<Rightarrow> ('r \<Rightarrow> turn) \<Rightarrow> 'o watch_event \<Rightarrow> turn list io" where
  "watches h admitted mapFunc request ev =
     (if admitted ev
      then forM (delivered (hd_FromMapFunc h) ev) [] (\<lambda>ts x. do { reqs \<leftarrow> mapFunc x; ret (ts @ map request reqs) })
      else ret [])"

section \<open>The controllers\<close>

definition es_SetupWithManager :: "env \<Rightarrow> handlers \<Rightarrow> ExternalSecretReconciler \<Rightarrow> api_event \<Rightarrow> turn list io" where
  "es_SetupWithManager E h r ev = (case ev of
      EsEvent e \<Rightarrow> watchFor h (esEventAdmitted r) (\<lambda>x. ExternalSecretTurn (es_Namespace x) (es_Name x)) e
    | SsEvent e \<Rightarrow> watches h SecretStoreWatchPredicate (mapStoreToExternalSecrets E r) (case_prod ExternalSecretTurn) e
    | CssEvent e \<Rightarrow> watches h ClusterSecretStoreWatchPredicate (mapClusterStoreToExternalSecrets E r) (case_prod ExternalSecretTurn) e
    | _ \<Rightarrow> ret [])"

definition ss_SetupWithManager :: "handlers \<Rightarrow> api_event \<Rightarrow> turn list io" where
  "ss_SetupWithManager h ev = (case ev of
      SsEvent e \<Rightarrow> watchFor h SecretStorePredicate (\<lambda>x. SecretStoreTurn (m_Namespace (ss_meta x)) (m_Name (ss_meta x))) e
    | _ \<Rightarrow> ret [])"

definition css_SetupWithManager :: "handlers \<Rightarrow> api_event \<Rightarrow> turn list io" where
  "css_SetupWithManager h ev = (case ev of
      CssEvent e \<Rightarrow> watchFor h ClusterSecretStorePredicate (\<lambda>x. ClusterSecretStoreTurn (m_Name (css_meta x))) e
    | _ \<Rightarrow> ret [])"

definition ces_SetupWithManager :: "env \<Rightarrow> handlers \<Rightarrow> api_event \<Rightarrow> turn list io" where
  "ces_SetupWithManager E h ev = (case ev of
      CesEvent e \<Rightarrow> watchFor h ClusterExternalSecretPredicate (\<lambda>x. ClusterExternalSecretTurn (m_Name (ces_meta x))) e
    | NsEvent e \<Rightarrow> watches h NamespaceWatchPredicate (mapNamespaceToCES E) ClusterExternalSecretTurn e
    | _ \<Rightarrow> ret [])"

definition secret_SetupWithManager :: "handlers \<Rightarrow> api_event \<Rightarrow> turn list io" where
  "secret_SetupWithManager h ev = (case ev of
      SecretEvent e \<Rightarrow> watchFor h secretEventAdmitted (\<lambda>x. SecretTurn (m_Namespace (sec_meta x)) (m_Name (sec_meta x))) e
    | _ \<Rightarrow> ret [])"

definition sa_SetupWithManager :: "handlers \<Rightarrow> api_event \<Rightarrow> turn list io" where
  "sa_SetupWithManager h ev = (case ev of
      SaEvent e \<Rightarrow> watchFor h serviceAccountEventAdmitted
        (\<lambda>x. ServiceAccountTurn (m_Namespace (sacc_meta x)) (m_Name (sacc_meta x))) e
    | _ \<Rightarrow> ret [])"

text \<open>The controllers \<open>main\<close> registers, under the settings of start-up.\<close>

definition controllers :: "env \<Rightarrow> handlers \<Rightarrow> settings \<Rightarrow> (api_event \<Rightarrow> turn list io) list" where
  "controllers E h s =
     [es_SetupWithManager E h (se_ES s), ss_SetupWithManager h] @
     (case se_CSS s of Some _ \<Rightarrow> [css_SetupWithManager h] | None \<Rightarrow> []) @
     (case se_CES s of Some _ \<Rightarrow> [ces_SetupWithManager E h] | None \<Rightarrow> []) @
     [secret_SetupWithManager h, sa_SetupWithManager h]"

definition dispatch :: "env \<Rightarrow> handlers \<Rightarrow> settings \<Rightarrow> api_event \<Rightarrow> turn list io" where
  "dispatch E h s ev = forM (controllers E h s) [] (\<lambda>ts setup. do { new \<leftarrow> setup ev; ret (ts @ new) })"

section \<open>Facts\<close>

lemmas setup_defs = es_SetupWithManager_def ss_SetupWithManager_def css_SetupWithManager_def ces_SetupWithManager_def
  secret_SetupWithManager_def sa_SetupWithManager_def

text \<open>Filters and maps only read, so the answers of a steady environment do not depend on the state.\<close>

lemma delivered_For [simp]: "documentedHandlers h \<Longrightarrow> delivered (hd_ForObject h) (Updated b x y) = [y]"
  by (simp add: documentedHandlers_def delivered_def)

lemma set_delivered_From: "documentedHandlers h \<Longrightarrow> set (delivered (hd_FromMapFunc h) (Updated b x y)) = {x, y}"
  by (auto simp: documentedHandlers_def delivered_def)

lemma delivered_other [simp]: "delivered sides (Created x) = [x]" "delivered sides (Deleted x) = [x]" "delivered sides (Generic x) = [x]"
  by (simp_all add: delivered_def)

lemma result_watchFor [simp]:
  "result (watchFor h P f ev) p = (if P ev then map f (delivered (hd_ForObject h) ev) else [])" "final (watchFor h P f ev) p = p"
  by (simp_all add: watchFor_def run_simps)

lemma set_result_forM:
  assumes "\<And>x p. x \<in> set xs \<Longrightarrow> set (result (m x) p) = R x"
  shows "set (result (forM xs acc (\<lambda>ts x. do { reqs \<leftarrow> m x; ret (ts @ map f reqs) })) p) = set acc \<union> (\<Union>x \<in> set xs. f ` R x)"
  using assms
proof (induction xs arbitrary: acc p)
  case (Cons x xs)
  then show ?case by (simp add: run_simps Un_assoc)
qed (simp add: run_simps)

lemma set_result_watches:
  assumes "\<And>x p. set (result (m x) p) = R x"
  shows "set (result (watches h P m f ev) p) = (if P ev then (\<Union>x \<in> set (delivered (hd_FromMapFunc h) ev). f ` R x) else {})"
  using set_result_forM [of _ m R "[]" f] assms by (simp add: watches_def run_simps)

lemma set_result_dispatch:
  assumes "\<And>q. set (result (es_SetupWithManager E h (se_ES s) ev) q) = A"
    and "\<And>q. set (result (ces_SetupWithManager E h ev) q) = B"
  shows "set (result (dispatch E h s ev) p) = A \<union> set (result (ss_SetupWithManager h ev) p) \<union>
    (if se_CSS s = None then {} else set (result (css_SetupWithManager h ev) p)) \<union> (if se_CES s = None then {} else B) \<union>
    set (result (secret_SetupWithManager h ev) p) \<union> set (result (sa_SetupWithManager h ev) p)"
proof -
  define S1 S2 S3 S4 where "S1 = set (result (ss_SetupWithManager h ev) p)" and "S2 = set (result (css_SetupWithManager h ev) p)"
    and "S3 = set (result (secret_SetupWithManager h ev) p)" and "S4 = set (result (sa_SetupWithManager h ev) p)"
  have "set (result (ss_SetupWithManager h ev) q) = S1" "set (result (css_SetupWithManager h ev) q) = S2"
    "set (result (secret_SetupWithManager h ev) q) = S3" "set (result (sa_SetupWithManager h ev) q) = S4" for q
    by (cases ev; simp add: setup_defs run_simps S1_def S2_def S3_def S4_def)+
  then show ?thesis
    using assms by (cases "se_CSS s"; cases "se_CES s") (simp_all add: dispatch_def controllers_def run_simps Un_ac)
qed

section \<open>The rebuild protocol\<close>

text \<open>The consumers of a SecretStore among the ExternalSecrets of the cluster: those in watched namespaces with a
  source that references it.\<close>

definition consumersOf :: "ExternalSecretReconciler \<Rightarrow> ExternalSecret list \<Rightarrow> SecretStore \<Rightarrow> turn set" where
  "consumersOf r objects st = {ExternalSecretTurn (es_Namespace es) (es_Name es) | es. es \<in> set objects \<and> shouldWatch r (es_Namespace es) \<and>
     (\<exists>ref \<in> storeRefs es. refKind ref = ''SecretStore'' \<and> refNamespace ref (es_Namespace es) = m_Namespace (ss_meta st) \<and>
        ssr_Name ref = m_Name (ss_meta st))}"

lemma SsEvent_turns:
  assumes "documentedHandlers h" "m_Namespace (ss_meta a) = m_Namespace (ss_meta b)" "m_Name (ss_meta a) = m_Name (ss_meta b)"
    and "\<And>t k. e_ListESByStore E t k = Inr (filter (\<lambda>es. k \<in> set (storeRefIndexKeys es)) objects)"
    and "clean_name (m_Namespace (ss_meta b))"
    and "\<forall>es \<in> set objects. \<forall>ref \<in> storeRefs es. clean_name (refNamespace ref (es_Namespace es))"
  shows "set (result (dispatch E h s (SsEvent (Updated sameObject a b))) p) =
    (if SecretStoreWatchPredicate (Updated sameObject a b) then consumersOf (se_ES s) objects b else {}) \<union>
    (if SecretStorePredicate (Updated sameObject a b) then {SecretStoreTurn (m_Namespace (ss_meta b)) (m_Name (ss_meta b))} else {})"
proof -
  let ?ev = "Updated sameObject a b"
  define R where "R st = set (result (mapStoreToExternalSecrets E (se_ES s) st) p)" for st
  have R: "set (result (mapStoreToExternalSecrets E (se_ES s) st) q) = R st" for st q
    by (simp add: R_def mapStoreToExternalSecrets_def result_enqueue assms(4))
  have names: "R a = R b" using assms(2,3) by (simp add: R_def mapStoreToExternalSecrets_def)
  have cons: "case_prod ExternalSecretTurn ` R b = consumersOf (se_ES s) objects b"
    unfolding R_def conjunct1 [OF store_event_wakes_consumers [OF assms(4,5,6), where p = p and r = "se_ES s"]] consumersOf_def by (auto simp: image_iff)
  have es: "set (result (es_SetupWithManager E h (se_ES s) (SsEvent ?ev)) q) =
      (if SecretStoreWatchPredicate ?ev then consumersOf (se_ES s) objects b else {})" for q
    using set_result_watches [of "mapStoreToExternalSecrets E (se_ES s)" R, OF R] by (simp add: es_SetupWithManager_def set_delivered_From [OF assms(1)] names cons)
  have ces: "set (result (ces_SetupWithManager E h (SsEvent ?ev)) q) = {}" for q
    by (simp add: ces_SetupWithManager_def run_simps)
  show ?thesis
    using assms(1) by (simp add: set_result_dispatch [OF es ces] setup_defs run_simps)
qed

lemma protocol_signals:
  assumes "m_DeletionTimestamp (ss_meta x) = None" "gm_ok (m_Annotations (ss_meta x))"
    and "triggerOf (SS x) = []" "v \<noteq> []" "SS y = withTrigger v (SS x)"
    and "recordsRebuild (SS y) st" "SS w = setStatus st (SS y)" "SS z = withoutTrigger (SS w)"
  shows "SecretStorePredicate (Updated sameObject x y) \<and> \<not> SecretStoreWatchPredicate (Updated sameObject x y) \<and>
    \<not> SecretStorePredicate (Updated sameObject y w) \<and> SecretStoreWatchPredicate (Updated sameObject y w) \<and>
    \<not> SecretStorePredicate (Updated sameObject w z) \<and> \<not> SecretStoreWatchPredicate (Updated sameObject w z) \<and>
    triggerOf (SS z) = []"
    and "m_Namespace (ss_meta y) = m_Namespace (ss_meta x)" "m_Name (ss_meta y) = m_Name (ss_meta x)"
    and "m_Namespace (ss_meta w) = m_Namespace (ss_meta x)" "m_Name (ss_meta w) = m_Name (ss_meta x)"
    and "m_Namespace (ss_meta z) = m_Namespace (ss_meta x)" "m_Name (ss_meta z) = m_Name (ss_meta x)"
proof -
  have y: "y = x\<lparr>ss_meta := (ss_meta x)\<lparr>m_Annotations := gm_put (m_Annotations (ss_meta x)) TriggerReconcileAnnotation v\<rparr>\<rparr>"
    using assms(5) by (simp add: withTrigger_def setMeta_def)
  have w: "w = y\<lparr>ss_Status := st\<rparr>" using assms(7) by (simp add: setStatus_def)
  have z: "z = w\<lparr>ss_meta := (ss_meta w)\<lparr>m_Annotations := gm_del (m_Annotations (ss_meta w)) TriggerReconcileAnnotation\<rparr>\<rparr>"
    using assms(8) by (simp add: withoutTrigger_def setMeta_def)
  have t: "triggerOf (SS y) = v" "triggerOf (SS w) = v" by (simp_all add: y w triggerOf_def st_meta_def gm_str_def)
  have tz: "triggerOf (SS z) = []"
    using assms(2) unfolding assms(8) by (intro triggerOf_withoutTrigger) (simp add: y w st_meta_def gm_ok_put)
  show "SecretStorePredicate (Updated sameObject x y) \<and> \<not> SecretStoreWatchPredicate (Updated sameObject x y) \<and>
    \<not> SecretStorePredicate (Updated sameObject y w) \<and> SecretStoreWatchPredicate (Updated sameObject y w) \<and>
    \<not> SecretStorePredicate (Updated sameObject w z) \<and> \<not> SecretStoreWatchPredicate (Updated sameObject w z) \<and>
    triggerOf (SS z) = []"
    using assms(1,3,4,6) t tz
    by (simp add: SecretStorePredicate_def SecretStoreWatchPredicate_def storeUpdateAdmitted_def storeUpdateRelevant_def
        pointersDiffer_def st_meta_def y w z recordsRebuild_def st_Status_def)
qed (use assms(5,7,8) in \<open>simp_all add: withTrigger_def withoutTrigger_def setMeta_def setStatus_def\<close>)

text \<open>C5. From a changed credential to its users, each step wakes exactly the party that acts next. A change of a
  Secret's data gives the Secret controller its turn and nobody else. A SecretStore that is not being deleted then goes
  from \<open>x\<close> to \<open>y\<close> by a trigger, to \<open>w\<close> by the status of the rebuild, to \<open>z\<close> when the trigger is cleared: the
  trigger gives a turn to the store controller alone, the recorded rebuild one to each ExternalSecret in a
  watched namespace that uses the store and to nothing else, and clearing the trigger to nobody. So
  the protocol neither stalls nor starts itself again. The handlers are as documented, and a list by index answers
  with the objects that carry the key.\<close>

theorem change_wakes_in_turn:
  assumes "documentedHandlers h"
    and "\<And>t k. e_ListESByStore E t k = Inr (filter (\<lambda>es. k \<in> set (storeRefIndexKeys es)) objects)"
    and "clean_name (m_Namespace (ss_meta x))"
    and "\<forall>es \<in> set objects. \<forall>ref \<in> storeRefs es. clean_name (refNamespace ref (es_Namespace es))"
    and "\<not> gm_eq (sec_Data a) (sec_Data b)"
    and "m_DeletionTimestamp (ss_meta x) = None" "gm_ok (m_Annotations (ss_meta x))"
    and "triggerOf (SS x) = []" "v \<noteq> []" "SS y = withTrigger v (SS x)"
    and "recordsRebuild (SS y) st" "SS w = setStatus st (SS y)" "SS z = withoutTrigger (SS w)"
  shows "set (result (dispatch E h s (SecretEvent (Updated sameObject a b))) p) = {SecretTurn (m_Namespace (sec_meta b)) (m_Name (sec_meta b))} \<and>
    set (result (dispatch E h s (SsEvent (Updated sameObject x y))) p) = {SecretStoreTurn (m_Namespace (ss_meta x)) (m_Name (ss_meta x))} \<and>
    set (result (dispatch E h s (SsEvent (Updated sameObject y w))) p) = consumersOf (se_ES s) objects x \<and>
    set (result (dispatch E h s (SsEvent (Updated sameObject w z))) p) = {}"
proof -
  note signals = protocol_signals [OF assms(6-13)]
  have es: "set (result (es_SetupWithManager E h (se_ES s) (SecretEvent (Updated sameObject a b))) q) = {}"
    and ces: "set (result (ces_SetupWithManager E h (SecretEvent (Updated sameObject a b))) q) = {}" for q
    by (simp_all add: setup_defs run_simps)
  have "set (result (dispatch E h s (SecretEvent (Updated sameObject a b))) p) = {SecretTurn (m_Namespace (sec_meta b)) (m_Name (sec_meta b))}"
    using assms(1,5) by (simp add: set_result_dispatch [OF es ces] setup_defs run_simps secretEventAdmitted_def)
  moreover have "consumersOf r objects y = consumersOf r objects x" "consumersOf r objects w = consumersOf r objects x" for r
    by (simp_all add: consumersOf_def signals)
  ultimately show ?thesis
    using conjunct1 [OF signals(1)] signals(1) [of sameObject] assms(3)
    by (simp add: SsEvent_turns [OF assms(1) _ _ assms(2) _ assms(4)] signals(2-))
qed

definition rebuiltStatus :: SecretStoreStatus where
  "rebuiltStatus = \<lparr>st_Conditions = [newCondition ConditionTrue ReasonStoreValid [] 0], st_Capabilities = [], st_ClientGeneration = 1\<rparr>"

definition triggeredStore :: SecretStore where
  "triggeredStore = demoStore\<lparr>ss_meta := (ss_meta demoStore)\<lparr>m_Annotations := [(TriggerReconcileAnnotation, ''7'')]\<rparr>\<rparr>"

definition demoHandlers :: handlers where
  "demoHandlers = \<lparr>hd_ForObject = [New], hd_FromMapFunc = [Old, New]\<rparr>"

definition demoSettings :: settings where
  "demoSettings = settingsOf defaultFlags gm_empty"

definition demoCredential :: "bytes \<Rightarrow> Secret" where
  "demoCredential v = \<lparr>sec_meta = noMeta\<lparr>m_Name := ''ak'', m_Namespace := ''a''\<rparr>, sec_Data = [(''id'', v)], sec_Type = []\<rparr>"

lemma demoSettings_facts:
  "shouldWatch (se_ES demoSettings) ns" "se_CSS demoSettings \<noteq> None" "se_CES demoSettings \<noteq> None"
  by (simp_all add: demoSettings_def settingsOf_def defaultFlags_def esReconciler_def shouldWatch_def IsNamespaceWatched_def
      gm_empty_def gm_get_def gm_len_def Let_def)

lemma demoHandlers_documented: "documentedHandlers demoHandlers"
  by (auto simp: documentedHandlers_def demoHandlers_def)

definition demoIndex :: env where
  "demoIndex = sampleEnv\<lparr>e_ListESByStore := \<lambda>_ k. Inr (filter (\<lambda>es. k \<in> set (storeRefIndexKeys es)) [demoUser])\<rparr>"

theorem change_wakes_in_turn_witness:
  "set (result (dispatch demoIndex demoHandlers demoSettings (SecretEvent (Updated False (demoCredential ''old'') (demoCredential ''new'')))) sampleProc) =
     {SecretTurn ''a'' ''ak''} \<and>
   set (result (dispatch demoIndex demoHandlers demoSettings (SsEvent (Updated False triggeredStore (triggeredStore\<lparr>ss_Status := rebuiltStatus\<rparr>)))) sampleProc) =
     {ExternalSecretTurn ''a'' ''x''}"
proof -
  have i: "e_ListESByStore demoIndex t k = Inr (filter (\<lambda>es. k \<in> set (storeRefIndexKeys es)) [demoUser])" for t k
    by (simp add: demoIndex_def)
  have r: "storeRefs demoUser = {demoRef}"
    by (auto simp: storeRefs_def demoUser_def extracts_def List.map_filter_def emptyExternalSecret_def)
  have n: "es_Namespace demoUser = ''a''" "es_Name demoUser = ''x''" by (simp_all add: demoUser_def)
  have c: "clean_name (m_Namespace (ss_meta demoStore))"
    "\<forall>es \<in> set [demoUser]. \<forall>ref \<in> storeRefs es. clean_name (refNamespace ref (es_Namespace es))"
    by (simp_all add: r n demoStore_def clean_name_def refNamespace_def demoRef_def)
  have a: "\<not> gm_eq (sec_Data (demoCredential ''old'')) (sec_Data (demoCredential ''new''))"
    by (simp add: demoCredential_def gm_eq_def gm_get_def)
  have d: "m_DeletionTimestamp (ss_meta demoStore) = None" "gm_ok (m_Annotations (ss_meta demoStore))" "triggerOf (SS demoStore) = []"
      "m_Annotations (ss_meta demoStore) = gm_empty"
    by (simp_all add: demoStore_def noMeta_def triggerOf_def st_meta_def gm_str_def gm_ok_def gm_empty_def gm_get_def)
  from d(4) have t: "SS triggeredStore = withTrigger ''7'' (SS demoStore)"
    by (simp add: triggeredStore_def withTrigger_def setMeta_def gm_put_def gm_empty_def)
  have u: "recordsRebuild (SS triggeredStore) rebuiltStatus"
    by (simp add: recordsRebuild_def triggeredStore_def demoStore_def rebuiltStatus_def newCondition_def st_meta_def st_Status_def noMeta_def)
  have s: "SS (triggeredStore\<lparr>ss_Status := rebuiltStatus\<rparr>) = setStatus rebuiltStatus (SS triggeredStore)" by (simp add: setStatus_def)
  have z: "SS (demoStore\<lparr>ss_Status := rebuiltStatus\<rparr>) = withoutTrigger (SS (triggeredStore\<lparr>ss_Status := rebuiltStatus\<rparr>))"
    by (simp add: withoutTrigger_def setMeta_def triggeredStore_def gm_del_def demoStore_def noMeta_def gm_empty_def)
  have users: "consumersOf (se_ES demoSettings) [demoUser] demoStore = {ExternalSecretTurn ''a'' ''x''}"
    by (auto simp: consumersOf_def demoSettings_facts r n demoStore_def refKind_def refNamespace_def demoRef_def)
  show ?thesis
    using change_wakes_in_turn [OF demoHandlers_documented i c a d(1-3) _ t u s z, of demoSettings False sampleProc] users
    by (simp add: demoCredential_def)
qed

section \<open>Writes that wake nobody\<close>

lemma set_result_quiet:
  assumes "\<And>q. set (result (es_SetupWithManager E h (se_ES s) ev) q) = {}" "\<And>q. set (result (ces_SetupWithManager E h ev) q) = {}"
    and "result (ss_SetupWithManager h ev) p = []" "result (css_SetupWithManager h ev) p = []"
    and "result (secret_SetupWithManager h ev) p = []" "result (sa_SetupWithManager h ev) p = []"
  shows "result (dispatch E h s ev) p = []"
  using set_result_dispatch [of E h s ev "{}" "{}" p, OF assms(1,2)] assms(3-) by (simp split: if_splits)

text \<open>An update that leaves specification and generation as they were, on an object that is not being deleted; for
  a store, the trigger annotation and the count of rebuilds too.\<close>

definition sameGeneration :: "ObjectMeta \<Rightarrow> ObjectMeta \<Rightarrow> bool" where
  "sameGeneration a b \<longleftrightarrow> m_Generation b = m_Generation a \<and> m_DeletionTimestamp a = None \<and> m_DeletionTimestamp b = None"

definition quietES :: "ExternalSecret \<Rightarrow> ExternalSecret \<Rightarrow> bool" where
  "quietES a b \<longleftrightarrow> es_Spec b = es_Spec a \<and> sameGeneration (es_meta a) (es_meta b)"

definition quietStore :: "store \<Rightarrow> store \<Rightarrow> bool" where
  "quietStore a b \<longleftrightarrow> sameGeneration (st_meta a) (st_meta b) \<and> triggerOf b = triggerOf a \<and>
     st_ClientGeneration (st_Status b) = st_ClientGeneration (st_Status a) \<and>
     (case (a, b) of (SS x, SS y) \<Rightarrow> ss_Spec y = ss_Spec x | (CSS x, CSS y) \<Rightarrow> css_Spec y = css_Spec x | _ \<Rightarrow> False)"

text \<open>C20. Status writes do not feed back. An update of an ExternalSecret or of a store that leaves the
  specification, the generation and, for a store, the trigger annotation and the count of rebuilds as they were, on an
  object that is not being deleted, gives no controller a turn: whatever status the rounds write, they
  do not wake themselves. A changed status of a ClusterExternalSecret does wake its controller, and
  nobody else.\<close>

theorem status_writes_wake_nobody:
  assumes "documentedHandlers h" "quietES es es'" "quietStore (SS st) (SS st')" "quietStore (CSS cst) (CSS cst')"
    and "ces_Status ces' \<noteq> ces_Status ces"
  shows "result (dispatch E h s (EsEvent (Updated sameObject es es'))) p = [] \<and>
    result (dispatch E h s (SsEvent (Updated sameObject st st'))) p = [] \<and>
    result (dispatch E h s (CssEvent (Updated sameObject cst cst'))) p = [] \<and>
    set (result (dispatch E h s (CesEvent (Updated sameObject ces ces'))) p) =
      (if se_CES s = None then {} else {ClusterExternalSecretTurn (m_Name (ces_meta ces'))})"
proof (intro conjI)
  show "result (dispatch E h s (EsEvent (Updated sameObject es es'))) p = []"
    using assms(2) by (intro set_result_quiet)
      (simp_all add: setup_defs run_simps esEventAdmitted_def ExternalSecretsPredicate_def pointersDiffer_def quietES_def sameGeneration_def)
  show "result (dispatch E h s (SsEvent (Updated sameObject st st'))) p = []"
    using assms(3) by (intro set_result_quiet)
      (simp_all add: setup_defs run_simps watches_def SecretStoreWatchPredicate_def SecretStorePredicate_def storeUpdateRelevant_def
        storeUpdateAdmitted_def pointersDiffer_def st_meta_def st_Status_def quietStore_def sameGeneration_def)
  show "result (dispatch E h s (CssEvent (Updated sameObject cst cst'))) p = []"
    using assms(4) by (intro set_result_quiet)
      (simp_all add: setup_defs run_simps watches_def ClusterSecretStoreWatchPredicate_def ClusterSecretStorePredicate_def
        storeUpdateRelevant_def storeUpdateAdmitted_def pointersDiffer_def st_meta_def st_Status_def quietStore_def sameGeneration_def)
  have es: "set (result (es_SetupWithManager E h (se_ES s) (CesEvent (Updated sameObject ces ces'))) q) = {}" for q
    by (simp add: setup_defs run_simps)
  have ces: "set (result (ces_SetupWithManager E h (CesEvent (Updated sameObject ces ces'))) q) = {ClusterExternalSecretTurn (m_Name (ces_meta ces'))}" for q
    using assms(1,5) by (auto simp: setup_defs run_simps ClusterExternalSecretPredicate_def)
  show "set (result (dispatch E h s (CesEvent (Updated sameObject ces ces'))) p) =
      (if se_CES s = None then {} else {ClusterExternalSecretTurn (m_Name (ces_meta ces'))})"
    by (simp add: set_result_dispatch [OF es ces] setup_defs run_simps)
qed

definition demoClusterStore :: ClusterSecretStore where
  "demoClusterStore = \<lparr>css_meta = noMeta\<lparr>m_Name := ''c''\<rparr>, css_Spec = \<lparr>css_KMS = None, css_OOS = None, css_Conditions = []\<rparr>,
     css_Status = ss_Status demoStore\<rparr>"

theorem status_writes_wake_nobody_witness:
  "result (dispatch sampleEnv demoHandlers demoSettings (SsEvent (Updated False demoStore (demoStore\<lparr>ss_Status := (ss_Status demoStore)\<lparr>st_Capabilities := ''x''\<rparr>\<rparr>)))) sampleProc = [] \<and>
   set (result (dispatch sampleEnv demoHandlers demoSettings (CesEvent (Updated False demoCes
     (demoCes\<lparr>ces_Status := (ces_Status demoCes)\<lparr>cst_ExternalSecretName := ''y''\<rparr>\<rparr>)))) sampleProc) = {ClusterExternalSecretTurn (m_Name (ces_meta demoCes))}"
proof -
  have e: "quietES demoUser demoUser" by (simp add: quietES_def sameGeneration_def demoUser_def noMeta_def)
  have s: "quietStore (SS demoStore) (SS (demoStore\<lparr>ss_Status := (ss_Status demoStore)\<lparr>st_Capabilities := ''x''\<rparr>\<rparr>))"
    by (simp add: quietStore_def sameGeneration_def demoStore_def noMeta_def st_meta_def st_Status_def triggerOf_def)
  have c: "quietStore (CSS demoClusterStore) (CSS demoClusterStore)"
    by (simp add: quietStore_def sameGeneration_def demoClusterStore_def noMeta_def st_meta_def)
  have d: "ces_Status (demoCes\<lparr>ces_Status := (ces_Status demoCes)\<lparr>cst_ExternalSecretName := ''y''\<rparr>\<rparr>) \<noteq> ces_Status demoCes"
    by (simp add: demoCes_def)
  show ?thesis
    using status_writes_wake_nobody [OF demoHandlers_documented e s c d, of sampleEnv demoSettings False sampleProc]
    by (simp add: demoSettings_facts)
qed

section \<open>Namespaces\<close>

text \<open>A namespace that changes wakes the ClusterExternalSecrets concerned. When its labels change, those that
  selected it before get their turn as well as those that select it now, so what was provisioned
  there is cleaned up; a new or deleted namespace wakes those that select it; and without a
  ClusterExternalSecret controller, nothing happens.\<close>

theorem namespace_change_wakes_selectors:
  assumes "documentedHandlers h" "\<And>t. e_ListCES E t = Inr items"
    and "\<not> gm_eq (m_Labels (ns_meta old)) (m_Labels (ns_meta new))"
  shows "set (result (dispatch E h s (NsEvent (Updated sameObject old new))) p) =
      (if se_CES s = None then {}
       else {ClusterExternalSecretTurn (m_Name (ces_meta c)) | c. c \<in> set items \<and> (selected E c old \<or> selected E c new)}) \<and>
    set (result (dispatch E h s (NsEvent (Created new))) p) = set (result (dispatch E h s (NsEvent (Deleted new))) p) \<and>
    set (result (dispatch E h s (NsEvent (Deleted new))) p) =
      (if se_CES s = None then {} else {ClusterExternalSecretTurn (m_Name (ces_meta c)) | c. c \<in> set items \<and> selected E c new})"
proof -
  have R: "set (result (mapNamespaceToCES E x) q) = {m_Name (ces_meta c) | c. c \<in> set items \<and> selected E c x}" for x q
    by (auto simp: mapNamespaceToCES_def listCES_def run_simps assms(2))
  have es: "set (result (es_SetupWithManager E h (se_ES s) (NsEvent ev)) q) = {}" for ev q
    by (simp add: setup_defs run_simps)
  have ces: "set (result (ces_SetupWithManager E h (NsEvent ev)) q) =
      (if NamespaceWatchPredicate ev then (\<Union>x \<in> set (delivered (hd_FromMapFunc h) ev).
        ClusterExternalSecretTurn ` {m_Name (ces_meta c) | c. c \<in> set items \<and> selected E c x}) else {})" for ev q
    using set_result_watches [of "mapNamespaceToCES E", OF R] by (simp add: ces_SetupWithManager_def)
  have all: "set (result (dispatch E h s (NsEvent ev)) p) = (if se_CES s = None then {} else
      if NamespaceWatchPredicate ev then (\<Union>x \<in> set (delivered (hd_FromMapFunc h) ev).
        ClusterExternalSecretTurn ` {m_Name (ces_meta c) | c. c \<in> set items \<and> selected E c x}) else {})" for ev
    by (simp add: set_result_dispatch [OF es ces] setup_defs run_simps)
  have turns: "ClusterExternalSecretTurn ` {m_Name (ces_meta c) | c. c \<in> set items \<and> P c} =
      {ClusterExternalSecretTurn (m_Name (ces_meta c)) | c. c \<in> set items \<and> P c}" for P
    by auto
  show ?thesis
    unfolding all using assms(3) set_delivered_From [OF assms(1), of sameObject old new]
    by (simp add: NamespaceWatchPredicate_def turns) blast
qed

definition labelled :: "string \<Rightarrow> Namespace" where
  "labelled v = \<lparr>ns_meta = noMeta\<lparr>m_Name := ''team'', m_Labels := [(''tier'', v)]\<rparr>, ns_Phase = []\<rparr>"

theorem namespace_change_wakes_selectors_witness:
  "set (result (dispatch (sampleEnv\<lparr>e_ListCES := \<lambda>_. Inr [demoCes]\<rparr>) demoHandlers demoSettings (NsEvent (Updated False (labelled ''x'') (labelled ''y'')))) sampleProc) =
     {ClusterExternalSecretTurn (m_Name (ces_meta demoCes))}"
proof -
  let ?E = "sampleEnv\<lparr>e_ListCES := \<lambda>_. Inr [demoCes]\<rparr>"
  have l: "e_ListCES ?E t = Inr [demoCes]" for t by simp
  have d: "\<not> gm_eq (m_Labels (ns_meta (labelled ''x''))) (m_Labels (ns_meta (labelled ''y'')))"
    by (simp add: labelled_def gm_eq_def gm_get_def)
  have "selected ?E demoCes n" for n
    by (simp add: selected_def demoCes_def IsNamespaceAllowedForClusterExternalSecret_def)
  with namespace_change_wakes_selectors [OF demoHandlers_documented l d, of demoSettings False sampleProc] show ?thesis
    by (simp add: demoSettings_facts)
qed

section \<open>Excluded namespaces\<close>

lemma result_forM_from:
  assumes "t \<in> set (result (forM xs acc (\<lambda>ts x. do { new \<leftarrow> m x; ret (ts @ map f new) })) p)"
  shows "t \<in> set acc \<or> (\<exists>x \<in> set xs. \<exists>q. t \<in> f ` set (result (m x) q))"
  using assms
proof (induction xs arbitrary: acc p)
  case (Cons x xs)
  then have "t \<in> set (result (forM xs (acc @ map f (result (m x) p)) (\<lambda>ts x. do { new \<leftarrow> m x; ret (ts @ map f new) })) (final (m x) p))"
    by (simp add: run_simps)
  from Cons.IH [OF this] show ?case by auto
qed (simp add: run_simps)

lemma dispatch_from:
  assumes "t \<in> set (result (dispatch E h s ev) p)"
  shows "\<exists>c \<in> set (controllers E h s). \<exists>q. t \<in> set (result (c ev) q)"
  using result_forM_from [of t "controllers E h s" "[]" "\<lambda>c. c ev" id p] assms by (simp add: dispatch_def)

lemma watches_from:
  assumes "t \<in> set (result (watches h P m f ev) p)"
  shows "\<exists>x q. t \<in> f ` set (result (m x) q)"
  using assms result_forM_from [of t "delivered (hd_FromMapFunc h) ev" "[]" m f p] by (auto simp: watches_def run_simps split: if_splits)

lemma mapped_are_watched:
  "(ns, n) \<in> set (result (mapStoreToExternalSecrets E r st) q) \<Longrightarrow> shouldWatch r ns"
  "(ns, n) \<in> set (result (mapClusterStoreToExternalSecrets E r css) q) \<Longrightarrow> shouldWatch r ns"
  by (auto simp: mapStoreToExternalSecrets_def mapClusterStoreToExternalSecrets_def result_enqueue split: sum.splits)

text \<open>C35. Events pass an ExternalSecret of an excluded namespace by while it exists. No event but its final
  removal from the cluster, neither one of the object itself nor one of a store it uses, gives it a
  turn: not even the update that announces its deletion, when its finalizer would have to be removed. An object
  that got its finalizer before its namespace was excluded can therefore not be deleted any more: the
  event that passes the filter is sent only after the finalizers are gone.\<close>

theorem excluded_namespace_gets_no_turn:
  assumes "documentedHandlers h" "gm_get (rc_WatchNamespaces (se_ES s)) ns = Some False" "\<And>es. ev \<noteq> EsEvent (Deleted es)"
  shows "ExternalSecretTurn ns n \<notin> set (result (dispatch E h s ev) p)"
proof
  assume "ExternalSecretTurn ns n \<in> set (result (dispatch E h s ev) p)"
  then obtain c q where c: "c \<in> set (controllers E h s)" and t: "ExternalSecretTurn ns n \<in> set (result (c ev) q)"
    using dispatch_from by blast
  have unwatched: "\<not> shouldWatch (se_ES s) ns" using assms(2) watchLoop_include [of "rc_WatchNamespaces (se_ES s)"] watchLoop_exclude [of "rc_WatchNamespaces (se_ES s)"]
    by (cases "\<exists>kv \<in> set (rc_WatchNamespaces (se_ES s)). snd kv") (simp_all add: shouldWatch_def IsNamespaceWatched_def)
  have es: "ExternalSecretTurn ns n \<in> set (result (es_SetupWithManager E h (se_ES s) ev) q)"
    using c t by (cases ev)
      (auto simp: controllers_def setup_defs run_simps split: option.splits if_splits dest!: watches_from)
  have out: "\<not> esEventAdmitted (se_ES s) e" if "es_Namespace (case e of Created x \<Rightarrow> x | Updated _ _ x \<Rightarrow> x | Generic x \<Rightarrow> x | Deleted x \<Rightarrow> x) = ns"
      "\<And>es. e \<noteq> Deleted es" for e
  proof -
    have "(ns, False) \<in> set (rc_WatchNamespaces (se_ES s))" using assms(2) by (auto simp: gm_get_def dest: map_of_SomeD)
    then have "ns \<in> set (excludedOf (rc_WatchNamespaces (se_ES s)) [])" by (simp add: set_excludedOf)
    then show ?thesis
      using that by (cases e) (auto simp: esEventAdmitted_def namespaceExcludePredicate_def allowedNamespace_def)
  qed
  show False
  proof (cases ev)
    case (EsEvent e)
    then have "esEventAdmitted (se_ES s) e" "es_Namespace (case e of Created x \<Rightarrow> x | Updated _ _ x \<Rightarrow> x | Generic x \<Rightarrow> x | Deleted x \<Rightarrow> x) = ns"
      using es assms(1) by (cases e; auto simp: es_SetupWithManager_def split: if_splits)+
    then show False using out [of e] assms(3) EsEvent by blast
  next
    case (SsEvent e)
    then show False using es mapped_are_watched(1) unwatched
      by (auto simp: es_SetupWithManager_def dest!: watches_from)
  next
    case (CssEvent e)
    then show False using es mapped_are_watched(2) unwatched
      by (auto simp: es_SetupWithManager_def dest!: watches_from)
  qed (use es in \<open>simp_all add: es_SetupWithManager_def run_simps\<close>)
qed

theorem excluded_namespace_gets_no_turn_witness:
  "ExternalSecretTurn ''a'' ''x'' \<notin> set (result (dispatch demoIndex demoHandlers
     (demoSettings\<lparr>se_ES := (se_ES demoSettings)\<lparr>rc_WatchNamespaces := [(''a'', False)]\<rparr>\<rparr>)
     (EsEvent (Updated False demoUser (demoUser\<lparr>es_meta := (es_meta demoUser)\<lparr>m_DeletionTimestamp := Some 1\<rparr>\<rparr>)))) sampleProc)"
  by (rule excluded_namespace_gets_no_turn [OF demoHandlers_documented]) (simp_all add: gm_get_def)

end
