(* ===== verification/Process.thy ===== *)
theory Process
  imports Dispatch
begin

text \<open>
  The running process: its controllers take turns, each turn a whole \<open>Reconcile\<close> of one of the
  objects of its kind, and the watches map events to turns, in any order, from the state start-up leaves. The invariant of the provider table holds in
  every state so reached, by rule induction, and a process under a namespace scope leaves the
  cluster-scoped kinds alone. The turns of the theorems about single rounds start from such states.
\<close>

section \<open>Every round respects the provider table\<close>

named_theorems keeps_intros "steps that respect the provider table"

declare table.rules [keeps_intros] keeps_pool_ops [keeps_intros]

lemma keeps_clients: "keeps clientsKept m \<Longrightarrow> keeps tableKept m"
  by (simp add: keeps_def clientsKept_def)

lemmas keeps_build [keeps_intros] =
  keeps_clients [OF clients_GetAuthCred] keeps_clients [OF clients_BuildAuthConfig] keeps_clients [OF clients_NewClient]
  keeps_clients [OF clients_NewClientByENV]

text \<open>The tables beside the provider table are free.\<close>

lemma tableKept_other:
  "providerMap q = providerMap p \<Longrightarrow> tableKept p q"
  by (simp add: tableKept_def table_ok_def)

lemma keeps_modify_other [keeps_intros]: "(\<And>p. providerMap (f p) = providerMap p) \<Longrightarrow> keeps tableKept (modify f)"
  by (rule table.modify) (simp add: tableKept_other)

lemma keeps_GetClient [keeps_intros]: "keeps tableKept (GetClient pv k)" "keeps tableKept (GetProviderByName n)"
  unfolding GetClient_def GetProviderByName_def getManager_def by (intro keeps_intros)+

lemma keeps_EnsureENVClient [keeps_intros]: "keeps tableKept (EnsureENVClient E)"
  unfolding EnsureENVClient_def initEnvClient_def timeNow_def by (intro keeps_intros; simp)

lemma keeps_access [keeps_intros]:
  "keeps tableKept (validateSecretStoreAccess E r ref ns)" "keeps tableKept (getSecretStore E r ref ns)"
  "keeps tableKept (ensureStoreClientFresh E r ref ns k)" "keeps tableKept (newKubeClient E r)"
  unfolding validateSecretStoreAccess_def getSecretStore_def ensureStoreClientFresh_def newKubeClient_def
    allowedForCSS_def warnCSSControllerDisabledOnce_def api_defs
  by (intro keeps_intros; simp)+

lemma keeps_getOrCreateClient [keeps_intros]: "keeps tableKept (getOrCreateClient E r pv cn ref ns ep)"
  unfolding getOrCreateClient_def cachedClient_def envClient_def storeClient_def Let_def
  by (intro keeps_intros)

lemma keeps_getExternalData [keeps_intros]:
  "keeps tableKept (GetExternalSecret E c d)" "keeps tableKept (GetExternalSecretWithExtract E c dp)"
proof -
  have d: "keeps tableKept (getExternalData E c d)" for d
    unfolding getExternalData_def kms_getExternalData_def oos_getExternalData_def sdkFetch_def
    by (cases c; simp only: SecretClient.case; intro keeps_intros)
  show "keeps tableKept (GetExternalSecret E c d)" "keeps tableKept (GetExternalSecretWithExtract E c dp)"
    unfolding GetExternalSecret_def GetExternalSecretWithExtract_def by (intro keeps_intros d)+
qed

lemma keeps_fetch [keeps_intros]:
  "keeps tableKept (getExternalSecret E r pv ds ns)" "keeps tableKept (getExternalSecretWithExtract E r pv dps ns)"
  unfolding getExternalSecret_def getExternalSecretWithExtract_def fetchData_def fetchExtract_def
  by (intro keeps_intros)+

lemma keeps_cleanup [keeps_intros]:
  "keeps tableKept (cleanupEndpointClients E es)" "keeps tableKept (reconcileStaleCompositeClients E es)"
  unfolding cleanupEndpointClients_def reconcileStaleCompositeClients_def deleteUnreferencedCompositeClients_def
    deleteKeys_def snapshotCompositeKeys_def storeCompositeKeys_def forgetCompositeKeys_def api_defs Let_def
  by (intro keeps_intros; simp)+

lemma keeps_status [keeps_intros]:
  "keeps tableKept (updateResourceManagementStatus E es k err)" "keeps tableKept (recordCSSControllerDisabledStatus E es ns)"
  "keeps tableKept (updateExternalSecretStatus E r es de ee sm ds xs b f)"
  unfolding updateResourceManagementStatus_def recordCSSControllerDisabledStatus_def updateExternalSecretStatus_def
    writeResults_def api_defs Let_def
  by (intro keeps_intros)+

lemma keeps_secret_ops [keeps_intros]: "keeps tableKept (HandleSecretOperation E c es d mt)"
  unfolding secret_write_defs api_defs by (intro keeps_intros)

lemma keeps_templates [keeps_intros]: "keeps tableKept (ProcessAllTemplates E es raw)"
  unfolding ProcessAllTemplates_def templateFromStage_def processTemplateFromByTarget_def processConfigMapTemplate_def
    processSecretTemplate_def processTemplateFromRef_def api_defs Let_def
  by (intro keeps_intros)

lemma keeps_judgeAndWrite [keeps_intros]: "keeps tableKept (judgeAndWrite E r es rd)"
  unfolding judgeAndWrite_def getCurrentData_def failWith_def cssNotice_def templateStage_def renderWarnings_def
    writeStage_def updateSecret_def api_defs Let_def
  by (intro keeps_intros)

lemma keeps_sync [keeps_intros]: "keeps tableKept (syncIfNeedUpdate E r es)"
  unfolding syncIfNeedUpdate_def syncWith_def fetchSources_def failWith_def limiterWait_def api_defs Let_def
  by (intro keeps_intros)

lemma keeps_Reconcile: "keeps tableKept (Reconcile E r ns n)"
  unfolding Reconcile_def reconcileLive_def handleDeletion_def finalizeExternalSecret_def isNamespaceTerminating_def
    addFinalizer_def api_defs Let_def
  by (intro keeps_intros)

lemma keeps_client_case [keeps_intros]:
  "(\<And>c. keeps R (f c)) \<Longrightarrow> (\<And>c. keeps R (g c)) \<Longrightarrow> keeps R h \<Longrightarrow>
   keeps R (case x of KMSClient c \<Rightarrow> f c | OOSClient c \<Rightarrow> g c | NilClient \<Rightarrow> h)"
  by (cases x) simp_all

lemma keeps_store [keeps_intros]:
  "keeps tableKept (recreateClient E r n k q s)" "keeps tableKept (handleStoreDeletion E s n k q)"
  "keeps tableKept (needRecreateClient s n k q)" "keeps tableKept (clearTrigger E r s ns n t)"
proof -
  have made: "keeps tableKept (createKMSClient E s kc pv)" "keeps tableKept (createOOSClient E s kc pv)" for kc pv
    unfolding createKMSClient_def createOOSClient_def
    by (intro keeps_intros)+
  have del: "keeps tableKept (deleteBoth k' q' n)" for k' q' unfolding deleteBoth_def by (intro keeps_intros)
  show "keeps tableKept (recreateClient E r n k q s)"
    unfolding recreateClient_def by (cases k; cases q) (auto intro!: keeps_intros made del keeps_clients [OF clients_store_ops(3)] split: bool.split)
  show "keeps tableKept (handleStoreDeletion E s n k q)"
    unfolding handleStoreDeletion_def by (intro keeps_intros del keeps_clients [OF clients_store_ops(1)])
  show "keeps tableKept (needRecreateClient s n k q)"
    unfolding needRecreateClient_def hasClient_def by (intro keeps_intros)
  show "keeps tableKept (clearTrigger E r s ns n t)"
    unfolding clearTrigger_def patchStore_def by (intro keeps_intros keeps_clients [OF clients_store_ops(2)])
qed

lemma keeps_reconcileFetched: "keeps tableKept (reconcileFetched E r v nm ns n got)"
  unfolding reconcileFetched_def reconcileStore_def reconcileValid_def addStoreFinalizer_def updateStatusWithError_def
    updateStatusWithReady_def updateStatusWithReadyAndGeneration_def Let_def
  by (intro keeps_intros clients_store_ops [THEN keeps_clients])

lemma keeps_store_rounds: "keeps tableKept (SecretStore_Reconcile E r ns n)" "keeps tableKept (ClusterSecretStore_Reconcile E r ns n)"
  unfolding SecretStore_Reconcile_def ClusterSecretStore_Reconcile_def api_defs
  by (intro keeps_intros keeps_reconcileFetched)+

lemma keeps_trigger_rounds: "keeps tableKept (Secret_Reconcile E b ns n)" "keeps tableKept (ServiceAccount_Reconcile E b ns n)"
  unfolding Secret_Reconcile_def ServiceAccount_Reconcile_def triggerStores_def triggerStore_def PatchTriggerAnnotation_def
    timeNow_def patchStore_def api_defs
  by (intro keeps_intros)+

lemma keeps_Reconcile_ces: "keeps tableKept (Reconcile_ces E r n)"
proof -
  have val: "keeps tableKept (validateSecretStoreAccess_ces E r c ns)" for c ns
    unfolding validateSecretStoreAccess_ces_def validateDataSourceSecretStoreAccess_def firstFailure_def allowedForCSS_def api_defs Let_def
    by (intro keeps_intros)
  have del: "keeps tableKept (deleteExternalSecret E c ns)" for c ns
    unfolding deleteExternalSecret_def api_defs by (intro keeps_intros)
  have prov: "keeps tableKept (reconcileExternalSecrets E r c st)" for c st
    unfolding reconcileExternalSecrets_def handleMatchingNamespaces_def handleNamespace_def handleNoMatchingNamespaces_def
      createOrUpdateExternalSecret_def cleanupOrphanedExternalSecrets_def getMatchingNamespaces_def firstFailure_def updateStatusIfNeeded_def
      api_defs Let_def
    by (intro keeps_intros val del)
  have sel: "keeps tableKept (getMatchingNamespaces E c)" for c
    unfolding getMatchingNamespaces_def api_defs by (intro keeps_intros)
  show ?thesis
    unfolding Reconcile_ces_def reconcileCes_def handleDeletion_ces_def finalizeClusterExternalSecret_def addFinalizer_ces_def
      updateStatusWithError_ces_def updateStatusWithFailure_def updateStatusWithReady_ces_def updateStatusIfNeeded_def
      setCondition_ces_def firstFailure_def timeNow_def api_defs Let_def
    by (intro keeps_intros prov del sel)
qed

lemma keeps_dispatch: "keeps tableKept (dispatch E h s ev)"
proof -
  have forM: "keeps tableKept (forM xs b f)" if "\<And>b x. x \<in> set xs \<Longrightarrow> keeps tableKept (f b x)" for xs b and f :: "turn list \<Rightarrow> 'a \<Rightarrow> turn list io"
    using that by (induction xs arbitrary: b) (auto intro: keeps_intros)
  have watch: "keeps tableKept (watchFor h P req e)" "(\<And>x. keeps tableKept (m x)) \<Longrightarrow> keeps tableKept (watches h P m req' e)" for P req m req' e
    unfolding watchFor_def watches_def by (intro keeps_intros)+
  have mapped: "keeps tableKept (mapStoreToExternalSecrets E r st)" "keeps tableKept (mapClusterStoreToExternalSecrets E r cs)"
    "keeps tableKept (mapNamespaceToCES E x)" for r st cs x
    unfolding mapStoreToExternalSecrets_def mapClusterStoreToExternalSecrets_def enqueueReferencingExternalSecrets_def mapNamespaceToCES_def api_defs
    by (intro keeps_intros)+
  have "keeps tableKept (c ev)" if "c \<in> set (controllers E h s)" for c
    using that by (cases ev) (auto simp: controllers_def setup_defs intro!: watch mapped keeps_intros split: option.splits)
  then show ?thesis unfolding dispatch_def by (intro forM) (auto intro: keeps_intros)
qed

section \<open>Reachable states\<close>

definition afterTurn :: "env \<Rightarrow> settings \<Rightarrow> turn \<Rightarrow> proc \<Rightarrow> proc" where
  "afterTurn E0 s t p = (let E = withSettings s E0 in case t of
      ExternalSecretTurn ns n \<Rightarrow> final (Reconcile E (se_ES s) ns n) p
    | SecretStoreTurn ns n \<Rightarrow> final (SecretStore_Reconcile E (se_SS s) ns n) p
    | ClusterSecretStoreTurn n \<Rightarrow>
        (case se_CSS s of Some r \<Rightarrow> final (ClusterSecretStore_Reconcile E r [] n) p | None \<Rightarrow> p)
    | ClusterExternalSecretTurn n \<Rightarrow> (case se_CES s of Some r \<Rightarrow> final (Reconcile_ces E r n) p | None \<Rightarrow> p)
    | SecretTurn ns n \<Rightarrow> final (Secret_Reconcile E (se_TriggerClusterStores s) ns n) p
    | ServiceAccountTurn ns n \<Rightarrow> final (ServiceAccount_Reconcile E (se_TriggerClusterStores s) ns n) p)"

inductive reachable :: "env \<Rightarrow> flags \<Rightarrow> settings \<Rightarrow> proc \<Rightarrow> bool" for E fl s where
  started: "result (startup fl) initialProc = Inr s \<Longrightarrow> reachable E fl s (final (startup fl) initialProc)"
| turned: "reachable E fl s p \<Longrightarrow> reachable E fl s (afterTurn E s t p)"
| woken: "reachable E fl s p \<Longrightarrow> reachable E fl s (final (dispatch (withSettings s E) h s ev) p)"

lemma reachable_settings: "reachable E fl s p \<Longrightarrow> result (startup fl) initialProc = Inr s"
  by (induction rule: reachable.induct) simp_all

lemma afterTurn_keeps: "tableKept p (afterTurn E s t p)"
  unfolding afterTurn_def Let_def
  by (cases t)
    (simp_all add: table.refl keepsD [OF keeps_Reconcile] keepsD [OF keeps_store_rounds(1)] keepsD [OF keeps_store_rounds(2)]
      keepsD [OF keeps_trigger_rounds(1)] keepsD [OF keeps_trigger_rounds(2)] keepsD [OF keeps_Reconcile_ces] split: option.split)

lemma providersAt_tableKept:
  assumes "providersAt p k q" "tableKept p p'"
  shows "\<exists>k' q'. providersAt p' k' q' \<and> identityOf k' = identityOf k \<and> identityOf q' = identityOf q"
proof -
  have id: "map_option identityOf (gm_get (providerMap p') n) = map_option identityOf (gm_get (providerMap p) n)" for n
    using assms(2) by (simp add: tableKept_def)
  obtain k' q' where kq: "gm_get (providerMap p') ProviderKMSName = Some k'" "identityOf k' = identityOf k"
      "gm_get (providerMap p') ProviderOOSName = Some q'" "identityOf q' = identityOf q"
    using id [of ProviderKMSName] id [of ProviderOOSName] assms(1) unfolding providersAt_def by auto
  have "pv_kind a = pv_kind b" if "identityOf a = identityOf b" for a b
    using arg_cong [OF that, of pv_kind] by (simp add: identityOf_def)
  then have "pv_kind k' = KMS" "pv_kind q' = OOS" using kq assms(1) unfolding providersAt_def by metis+
  then show ?thesis using kq assms by (auto simp: providersAt_def tableKept_def)
qed

lemma reachable_providers:
  assumes "reachable E fl s p"
  shows "\<exists>k q. providersAt p k q \<and> identityOf k = identityOf (kms_NewProvider (providerOptions fl)) \<and>
    identityOf q = identityOf (oos_NewProvider (providerOptions fl))"
  using assms
proof (induction rule: reachable.induct)
  case started
  then show ?case
    by (intro exI [of _ "kms_NewProvider (providerOptions fl)"] exI [of _ "oos_NewProvider (providerOptions fl)"])
      (auto simp: providersAt_def table_ok_def startup_providerMap gm_get_def kms_NewProvider_def oos_NewProvider_def
        pool_ok_NewManager ProviderKMSName_def ProviderOOSName_def split: if_splits)
next
  case (turned p t)
  then obtain k q where kq: "providersAt p k q" "identityOf k = identityOf (kms_NewProvider (providerOptions fl))"
    "identityOf q = identityOf (oos_NewProvider (providerOptions fl))" by blast
  show ?case using providersAt_tableKept [OF kq(1) afterTurn_keeps] kq(2,3) by metis
next
  case (woken p h ev)
  then obtain k q where kq: "providersAt p k q" "identityOf k = identityOf (kms_NewProvider (providerOptions fl))"
    "identityOf q = identityOf (oos_NewProvider (providerOptions fl))" by blast
  show ?case using providersAt_tableKept [OF kq(1) keepsD [OF keeps_dispatch]] kq(2,3) by metis
qed

text \<open>C9. The provider table is an invariant of the process: in every state the operator can reach, from any
  flags it starts with and whatever the API server, the clouds and the clock answer, the two providers of
  start-up are registered under their names, with the options of the command line, and every pool is well-formed: its
  lock exists, its maps have no duplicate keys, and every registered client is of the kind of its pool
  and carries an SDK client.\<close>

theorem provider_table_invariant:
  assumes "reachable E fl s p"
  shows "\<exists>k q. providersAt p k q \<and> identityOf k = identityOf (kms_NewProvider (providerOptions fl)) \<and>
    identityOf q = identityOf (oos_NewProvider (providerOptions fl))"
  by (rule reachable_providers [OF assms])

lemma demo_reachable: "reachable E defaultFlags (settingsOf defaultFlags gm_empty) (final (startup defaultFlags) initialProc)"
  by (rule reachable.started)
    (simp add: startup_result namespaceScope_def defaultFlags_def)

theorem provider_table_invariant_witness:
  "\<exists>k q. providersAt (afterTurn sampleEnv (settingsOf defaultFlags gm_empty) (SecretTurn ''a'' ''b'') (final (startup defaultFlags) initialProc)) k q \<and>
     identityOf k = identityOf (kms_NewProvider (providerOptions defaultFlags)) \<and>
     identityOf q = identityOf (oos_NewProvider (providerOptions defaultFlags))"
  by (rule provider_table_invariant [OF reachable.turned [OF demo_reachable]])

section \<open>A scoped process\<close>

text \<open>Events on ClusterExternalSecrets and what they provision, and writes of ClusterSecretStores.\<close>

fun clusterScoped :: "event \<Rightarrow> bool" where
  "clusterScoped (GetCES _) = True"
| "clusterScoped ListCES = True"
| "clusterScoped (UpdateCES _ _) = True"
| "clusterScoped (UpdateCESStatus _ _) = True"
| "clusterScoped (ApplyES _ _ _) = True"
| "clusterScoped (DeleteES _ _ _) = True"
| "clusterScoped (UpdateStore (CSS _) _) = True"
| "clusterScoped (UpdateStoreStatus (CSS _) _) = True"
| "clusterScoped (PatchStore (CSS _) _ _) = True"
| "clusterScoped _ = False"

lemma reconcile_not_cluster: "reconcile_event e \<Longrightarrow> \<not> clusterScoped e"
  by (cases e) simp_all

lemma build_not_cluster: "build_event e \<Longrightarrow> \<not> clusterScoped e"
  by (cases e) simp_all

lemma storeRead_not_cluster: "storeRead e \<Longrightarrow> \<not> clusterScoped e"
  by (cases e) simp_all

definition namespaced :: "store \<Rightarrow> bool" where
  "namespaced s \<longleftrightarrow> (\<exists>x. s = SS x)"

lemma namespaced_simps [simp]:
  "namespaced (SS x)" "\<not> namespaced (CSS y)" "namespaced (setMeta f s) = namespaced s" "namespaced (setStatus st s) = namespaced s"
  "namespaced (withoutTrigger s) = namespaced s"
  by (auto simp: namespaced_def setMeta_def setStatus_def withoutTrigger_def split: store.splits)

lemma namespaced_not_cluster [simp]:
  "namespaced s \<Longrightarrow> \<not> clusterScoped (UpdateStore s b)" "namespaced s \<Longrightarrow> \<not> clusterScoped (UpdateStoreStatus s b)"
  "namespaced s \<Longrightarrow> \<not> clusterScoped (PatchStore s t b)"
  by (auto simp: namespaced_def)

lemma getStore_namespaced:
  "namespaced s \<Longrightarrow> result (getStore E s ns n) p = Inr s' \<Longrightarrow> namespaced s'"
  by (auto simp: getStore_def namespaced_def run_simps api_defs split: sum.splits)

text \<open>Reading the store again, then going on with a store of the same kind.\<close>

lemma emits_getStore_then:
  assumes "namespaced s" "\<And>e. emits (\<lambda>e. \<not> clusterScoped e) (f (Inl e))"
    and "\<And>s'. namespaced s' \<Longrightarrow> emits (\<lambda>e. \<not> clusterScoped e) (f (Inr s'))"
  shows "emits (\<lambda>e. \<not> clusterScoped e) (State_Monad.bind (getStore E s ns n) f)"
proof (rule emits_bind_result)
  show "emits (\<lambda>e. \<not> clusterScoped e) (getStore E s ns n)" by (intro emits_intros) (simp add: storeRead_not_cluster)
  fix p
  show "emits (\<lambda>e. \<not> clusterScoped e) (f (result (getStore E s ns n) p))"
    using assms getStore_namespaced [OF assms(1), of E ns n p]
    by (cases "result (getStore E s ns n) p") simp_all
qed

lemma namespaced_updateStatus:
  assumes "namespaced s"
  shows "emits (\<lambda>e. \<not> clusterScoped e) (updateStatus E s c b)"
  unfolding updateStatus_def timeNow_def updateStoreStatus_api_def Let_def
  by (intro emits_bind emits_if emits_call emits_getStore_then emits_ret assms emits_sum; simp)

lemma namespaced_reconcileFetched:
  assumes "\<And>s. got = Inr s \<Longrightarrow> namespaced s"
  shows "emits (\<lambda>e. \<not> clusterScoped e) (reconcileFetched E r v nm ns n got)"
proof -
  have ctrig: "emits (\<lambda>e. \<not> clusterScoped e) (clearTrigger E r s ns n t)" if "namespaced s" for s t
    unfolding clearTrigger_def patchStore_def
    by (rule emits_getStore_then [OF that]; simp only: sum.case; intro emits_intros; simp)
  have valid: "emits (\<lambda>e. \<not> clusterScoped e) (reconcileStore E r v s ns n cn k q)" if "namespaced s" for s cn k q
    unfolding reconcileStore_def reconcileValid_def updateStatusWithError_def updateStatusWithReady_def
      updateStatusWithReadyAndGeneration_def
    by (intro emits_intros ctrig that namespaced_updateStatus; simp add: build_not_cluster that)
  have del: "emits (\<lambda>e. \<not> clusterScoped e) (handleStoreDeletion E s cn k q)" if "namespaced s" for s cn k q
    unfolding handleStoreDeletion_def updateStore_def by (intro emits_intros; simp add: that)
  have main: "emits (\<lambda>e. \<not> clusterScoped e) (reconcileFetched E r v nm ns n (Inr s))" if "namespaced s" for s
    unfolding reconcileFetched_def sum.case addStoreFinalizer_def GetProviderByName_def updateStore_def Let_def bind_bind
    by (intro emits_bind emits_if emits_read emits_call emits_option emits_ret emits_getStore_then emits_sum del valid that;
        simp add: that)
  show ?thesis using main assms by (cases got) (simp_all add: reconcileFetched_def emits_ret)
qed

lemma store_round_not_cluster: "emits (\<lambda>e. \<not> clusterScoped e) (SecretStore_Reconcile E r ns n)"
  unfolding SecretStore_Reconcile_def api_defs
  by (rule emits_bind) (auto intro!: emits_intros namespaced_reconcileFetched split: sum.splits)

lemma trigger_round_not_cluster:
  "emits (\<lambda>e. \<not> clusterScoped e) (Secret_Reconcile E False ns n)" "emits (\<lambda>e. \<not> clusterScoped e) (ServiceAccount_Reconcile E False ns n)"
proof -
  have trig: "emits (\<lambda>e. \<not> clusterScoped e) (triggerStores E f False)" for f
    unfolding triggerStores_def triggerStore_def PatchTriggerAnnotation_def timeNow_def patchStore_def listSecretStores_def
    by (intro emits_bind emits_call emits_sum emits_forE emits_if emits_option emits_ret) auto
  show "emits (\<lambda>e. \<not> clusterScoped e) (Secret_Reconcile E False ns n)" "emits (\<lambda>e. \<not> clusterScoped e) (ServiceAccount_Reconcile E False ns n)"
    unfolding Secret_Reconcile_def ServiceAccount_Reconcile_def getSecret_def getServiceAccount_def by (intro emits_intros trig; simp)+
qed

lemma emits_final: "emits P m \<Longrightarrow> list_all P (tr p) \<Longrightarrow> list_all P (tr (final m p))"
  by (auto simp: emits_def post_def) (metis list_all_append)

lemma dispatch_not_cluster:
  assumes "se_CES s = None"
  shows "emits (\<lambda>e. \<not> clusterScoped e) (dispatch E h s ev)"
proof -
  have watch: "emits (\<lambda>e. \<not> clusterScoped e) (watchFor h P req e)"
    "(\<And>x. emits (\<lambda>e. \<not> clusterScoped e) (m x)) \<Longrightarrow> emits (\<lambda>e. \<not> clusterScoped e) (watches h P m req' e)" for P req m req' e
    unfolding watchFor_def watches_def by (intro emits_intros; assumption?)+
  have mapped: "emits (\<lambda>e. \<not> clusterScoped e) (mapStoreToExternalSecrets E r st)" "emits (\<lambda>e. \<not> clusterScoped e) (mapClusterStoreToExternalSecrets E r cs)" for r st cs
    unfolding mapStoreToExternalSecrets_def mapClusterStoreToExternalSecrets_def enqueueReferencingExternalSecrets_def api_defs
    by (intro emits_intros; simp)+
  have "emits (\<lambda>e. \<not> clusterScoped e) (c ev)" if "c \<in> set (controllers E h s)" for c
    using that assms by (cases ev) (auto simp: controllers_def setup_defs intro!: watch mapped emits_intros split: option.splits)
  then show ?thesis unfolding dispatch_def by (intro emits_forM) (auto intro!: emits_intros)
qed

text \<open>C17. A scoped operator leaves the cluster-scoped kinds alone: started with any namespace in its watch or
  exclude list, in no reachable state has it read, listed or written a ClusterExternalSecret, provisioned or
  deleted an ExternalSecret on behalf of one, or written a ClusterSecretStore (its spec, its status or its
  trigger annotation), whatever the flags of the two controllers say.\<close>

theorem scoped_process_spares_cluster_kinds:
  assumes "reachable E fl s p"
    and "nsSlice (fl_watchNamespaces fl) \<noteq> [] \<or> nsSlice (fl_excludeNamespaces fl) \<noteq> []"
  shows "list_all (\<lambda>e. \<not> clusterScoped e) (tr p)"
  using assms(1)
proof (induction rule: reachable.induct)
  case started
  then show ?case
    by (simp add: startup_final registerProviders_def SupportProvider_def RegisterProvider_def run_simps initialProc_def Let_def)
next
  case (turned p t)
  let ?E = "withSettings s E"
  have off: "se_CSS s = None" "se_CES s = None" "\<not> se_TriggerClusterStores s"
    using startup_cluster_off [OF reachable_settings [OF turned(1)] assms(2)] by simp_all
  show ?case
    unfolding afterTurn_def Let_def
    by (cases t) (use off turned.IH in \<open>auto intro!: emits_final store_round_not_cluster trigger_round_not_cluster
      emits_Reconcile reconcile_not_cluster\<close>)
next
  case (woken p h ev)
  have "se_CES s = None" using startup_cluster_off [OF reachable_settings [OF woken(1)] assms(2)] by simp
  then show ?case by (intro emits_final dispatch_not_cluster woken.IH)
qed

theorem scoped_process_spares_cluster_kinds_witness:
  "list_all (\<lambda>e. \<not> clusterScoped e)
     (tr (afterTurn sampleEnv (settingsOf (defaultFlags\<lparr>fl_excludeNamespaces := ''team-a, team-b,''\<rparr>) [(''team-a'', False), (''team-b'', False)])
        (SecretStoreTurn ''a'' ''s'') (final (startup (defaultFlags\<lparr>fl_excludeNamespaces := ''team-a, team-b,''\<rparr>)) initialProc)))"
proof -
  let ?fl = "defaultFlags\<lparr>fl_excludeNamespaces := ''team-a, team-b,''\<rparr>"
  have w: "namespaceScope (fl_watchNamespaces ?fl) (fl_excludeNamespaces ?fl) = ([], [(''team-a'', False), (''team-b'', False)])"
    by (simp add: namespaceScope_def defaultFlags_def strings_demo Let_def gm_put_def gm_get_def gm_empty_def)
  have "reachable sampleEnv ?fl (settingsOf ?fl [(''team-a'', False), (''team-b'', False)]) (final (startup ?fl) initialProc)"
    by (rule reachable.started) (simp only: startup_result w Let_def prod.case simp_thms if_False)
  from scoped_process_spares_cluster_kinds [OF reachable.turned [OF this]] show ?thesis
    using strings_demo by (simp add: defaultFlags_def)
qed

section \<open>No panic\<close>

definition answers :: "'a option io \<Rightarrow> bool" where
  "answers m \<longleftrightarrow> (\<forall>p. result m p \<noteq> None)"

lemma answers_intros:
  "answers (ret (Some a))"
  "(\<And>a. answers (f a)) \<Longrightarrow> answers (State_Monad.bind m f)"
  "answers g \<Longrightarrow> answers h \<Longrightarrow> answers (if b then g else h)"
  "(\<And>e. answers (fl e)) \<Longrightarrow> (\<And>a. answers (fr a)) \<Longrightarrow> answers (case x of Inl e \<Rightarrow> fl e | Inr a \<Rightarrow> fr a)"
  "answers fn \<Longrightarrow> (\<And>a. answers (fs a)) \<Longrightarrow> answers (case y of None \<Rightarrow> fn | Some a \<Rightarrow> fs a)"
  by (auto simp: answers_def run_simps split: sum.split option.split)

lemma answers_bind_result: "(\<And>p. answers (f (result m p))) \<Longrightarrow> answers (State_Monad.bind m f)"
  by (simp add: answers_def run_simps)

lemma deleteBoth_answers: "result (deleteBoth (Some k) (Some q) n) p"
  by (simp add: deleteBoth_def run_simps)

lemma answers_deletion: "answers (handleStoreDeletion E s n (Some k) (Some q))"
  unfolding handleStoreDeletion_def
  by (rule answers_bind_result) (simp only: deleteBoth_answers simp_thms if_False, intro answers_intros)

lemma answers_recreate: "answers (recreateClient E r n (Some k) (Some q) s)"
  unfolding recreateClient_def
  by (rule answers_bind_result) (simp only: deleteBoth_answers prod.case option.case bool.case if_True, intro answers_intros)

lemma answers_reconcileStore: "answers (reconcileStore E r v s ns n cn (Some k) (Some q))"
proof -
  have rec: "answers (State_Monad.bind (recreateClient E r cn (Some k) (Some q) s) f)" if "\<And>a. answers (f (Some a))" for f :: "unit res option \<Rightarrow> (int \<times> goerror option) option io"
  proof (rule answers_bind_result)
    fix p
    obtain a where "result (recreateClient E r cn (Some k) (Some q) s) p = Some a"
      using answers_recreate unfolding answers_def by blast
    then show "answers (f (result (recreateClient E r cn (Some k) (Some q) s) p))" using that by simp
  qed
  show ?thesis
    unfolding reconcileStore_def reconcileValid_def Let_def
    by (rule rec | simp only: option.case | rule answers_intros)+
qed

lemma reconcileFetched_answers:
  assumes "providersAt p k q"
  shows "result (reconcileFetched E r v nm ns n got) p \<noteq> None"
proof (cases got)
  case (Inl e)
  then show ?thesis by (simp add: reconcileFetched_def run_simps)
next
  case (Inr s)
  let ?rest = "\<lambda>k q. if m_DeletionTimestamp (st_meta s) \<noteq> None then handleStoreDeletion E s (nm s) k q
     else if \<not> Contains (m_Finalizers (st_meta s)) secretFinalizer then do {
       err \<leftarrow> addStoreFinalizer E s;
       case err of
         Some e \<Rightarrow> ret (Some (sc_ReconciliationPeriod r, Some e))
       | None \<Rightarrow> do {
           again \<leftarrow> getStore E s ns n;
           case again of
             Inl e \<Rightarrow> ret (Some (sc_ReconciliationPeriod r, Some e))
           | Inr s' \<Rightarrow> reconcileStore E r v s' ns n (nm s) k q
         }
     }
     else reconcileStore E r v s ns n (nm s) k q"
  have "result (reconcileFetched E r v nm ns n got) p = result (?rest (Some k) (Some q)) p"
    using assms by (simp only: Inr reconcileFetched_def sum.case Let_def GetProviderByName_def providersAt_def run_simps)
  moreover have "answers (?rest (Some k) (Some q))"
    by (intro answers_intros answers_deletion answers_reconcileStore)
  ultimately show ?thesis unfolding answers_def by metis
qed

text \<open>C31. No turn of a store controller panics: \<open>None\<close> is the nil dereference of a provider that is not
  registered; in every reachable state of the process a round of either store controller, for any
  object and whatever the API server answers, ends with a result.\<close>

theorem store_rounds_never_panic:
  assumes "reachable E fl s p"
  shows "result (SecretStore_Reconcile (withSettings s E) (se_SS s) ns n) p \<noteq> None \<and>
    (case se_CSS s of Some r \<Rightarrow> result (ClusterSecretStore_Reconcile (withSettings s E) r [] n) p \<noteq> None | None \<Rightarrow> True)"
proof -
  obtain k q where "providersAt p k q" using reachable_providers [OF assms] by blast
  then have at: "providersAt (p\<lparr>tr := t\<rparr>) k q" for t by (simp add: providersAt_def)
  show ?thesis
    unfolding SecretStore_Reconcile_def ClusterSecretStore_Reconcile_def api_defs run_simps
    using reconcileFetched_answers [OF at] by (simp split: option.split)
qed

theorem store_rounds_never_panic_witness:
  "result (SecretStore_Reconcile (withSettings (settingsOf defaultFlags gm_empty) sampleEnv)
     (se_SS (settingsOf defaultFlags gm_empty)) ''a'' ''s'') (final (startup defaultFlags) initialProc) \<noteq> None"
  using store_rounds_never_panic [OF demo_reachable [of sampleEnv], of "''a''" "''s''"] by simp

end
