(* ===== verification/Shared_Laws.thy ===== *)
theory Shared_Laws
  imports Secret_Data Sync_Status
begin

text \<open>
  The laws of the operations every component shares: the bounded retry of a fetch and its waits, the
  admission of namespaces by cluster-scoped resources, the default OIDC provider ARN, the client
  pools as a map, and the comparison that decides whether a status is written.
\<close>

section \<open>Retries\<close>

definition transient :: "'a res \<Rightarrow> bool" where
  "transient r \<longleftrightarrow> (\<exists>e. r = Inl e \<and> JudgeNeedRetry (Some e))"

lemma retryLoop_stops:
  "retryLoop attempt left fn done = (n, r) \<Longrightarrow> transient (fn n) \<Longrightarrow> n < attempt + left \<Longrightarrow> done n \<noteq> None"
proof (induction attempt left fn "done" rule: retryLoop.induct)
  case (1 attempt left fn "done")
  from "1.prems" show ?case
    by (subst (asm) retryLoop.simps)
      (use "1.IH" in \<open>auto simp: transient_def split: sum.splits nat.splits option.splits if_splits\<close>)
qed

text \<open>A fetch is retried a bounded number of times and only for transient errors: it makes one to three
  calls whatever the service answers; every call but the last failed with a transient error; it returns
  the answer of its last call, or, when the context ended during a wait, the context's error with the
  last transient error as text; and it gives up early on a transient error only for that reason.\<close>

theorem fetch_retries_bounded:
  "case FetchWithRetry waitDone fn of (n, r) \<Rightarrow>
     1 \<le> n \<and> n \<le> 3 \<and> (\<forall>m \<in> {1..<n}. transient (fn m)) \<and>
     (r = fn n \<or> (\<exists>c e. waitDone n = Some c \<and> fn n = Inl e \<and>
        r = Inl \<lparr>err_msg = err_msg c @ '': last transient error: '' @ err_msg e, err_chain = err_chain c\<rparr>)) \<and>
     (transient (fn n) \<longrightarrow> n = 3 \<or> waitDone n \<noteq> None)"
proof -
  obtain n r where nr: "retryLoop 1 2 fn waitDone = (n, r)" by fastforce
  have run: "FetchWithRetry waitDone fn = (n, r)"
    using nr by (simp add: FetchWithRetry_def RetryOnTransient_def defaultFetchMaxAttempts_def numeral_2_eq_2)
  have "transient (fn m)" if "m \<in> {1..<n}" for m
    using retryLoop_transient [of 1 m 2 fn waitDone, unfolded nr fst_conv] that by (simp add: transient_def)
  moreover have "1 \<le> n \<and> n \<le> 3" using retryLoop_bound [of 1 2 fn waitDone, unfolded nr fst_conv] by simp
  moreover have "transient (fn n) \<longrightarrow> n = 3 \<or> waitDone n \<noteq> None"
    using retryLoop_stops [OF nr] \<open>1 \<le> n \<and> n \<le> 3\<close> by force
  ultimately show ?thesis unfolding run prod.case using retryLoop_result [OF nr] by blast
qed

definition throttled :: goerror where
  "throttled = \<lparr>err_msg = ''throttled'', err_chain = [SDKError None (Some 429)]\<rparr>"

theorem fetch_retries_bounded_witness:
  "fst (FetchWithRetry (\<lambda>_. None) (\<lambda>_. Inl throttled :: unit res)) = 3"
proof -
  have "transient (Inl throttled :: unit res)" by (simp add: transient_def throttled_def JudgeNeedRetry_def)
  then show ?thesis
    using fetch_retries_bounded [where waitDone = "\<lambda>_. None" and fn = "\<lambda>_. Inl throttled :: unit res"]
    by (cases "FetchWithRetry (\<lambda>_. None) (\<lambda>_. Inl throttled :: unit res)") simp
qed



section \<open>Admission\<close>

text \<open>A ClusterSecretStore with conditions fails closed: whatever selectors and patterns are invalid, it
  admits no namespace that cannot be read, and none that matches neither the selector nor the list nor a
  pattern of any condition; and when all of them are valid it admits every namespace that does.\<close>

theorem cluster_store_admission:
  assumes "css_Conditions (css_Spec css) \<noteq> []"
  shows "(IsNamespaceAllowedForClusterSecretStore regex selector css ns got \<longrightarrow>
      (\<exists>n. got = Inr n \<and> list_ex (condition_matches regex selector ns (m_Labels (ns_meta n))) (css_Conditions (css_Spec css)))) \<and>
    (list_all (condition_valid regex selector) (css_Conditions (css_Spec css)) \<longrightarrow>
      IsNamespaceAllowedForClusterSecretStore regex selector css ns got =
      (\<exists>n. got = Inr n \<and> list_ex (condition_matches regex selector ns (m_Labels (ns_meta n))) (css_Conditions (css_Spec css))))"
  using assms conditionLoop_sound [of regex selector ns _ "css_Conditions (css_Spec css)"]
    conditionLoop_valid [of "css_Conditions (css_Spec css)" regex selector ns]
  by (auto simp: IsNamespaceAllowedForClusterSecretStore_def list_all_iff list_ex_iff split: sum.split)

definition listedStore :: ClusterSecretStore where
  "listedStore = \<lparr>css_meta = noMeta, css_Spec = \<lparr>css_KMS = None, css_OOS = None,
     css_Conditions = [\<lparr>nc_NamespaceSelector = None, nc_Namespaces = [''team''], nc_NamespaceRegexes = []\<rparr>]\<rparr>,
     css_Status = \<lparr>st_Conditions = [], st_Capabilities = [], st_ClientGeneration = 0\<rparr>\<rparr>"

theorem cluster_store_admission_witness:
  "IsNamespaceAllowedForClusterSecretStore (e_regex sampleEnv) (e_selector sampleEnv) listedStore ''team'' (Inr \<lparr>ns_meta = noMeta, ns_Phase = []\<rparr>) \<and>
   \<not> IsNamespaceAllowedForClusterSecretStore (e_regex sampleEnv) (e_selector sampleEnv) listedStore ''prod'' (Inr \<lparr>ns_meta = noMeta, ns_Phase = []\<rparr>)"
  using cluster_store_admission [of listedStore "e_regex sampleEnv" "e_selector sampleEnv" "''team''" "Inr \<lparr>ns_meta = noMeta, ns_Phase = []\<rparr>"]
    cluster_store_admission [of listedStore "e_regex sampleEnv" "e_selector sampleEnv" "''prod''" "Inr \<lparr>ns_meta = noMeta, ns_Phase = []\<rparr>"]
  by (simp add: listedStore_def condition_valid_def condition_matches_def selects_def)

section \<open>The default provider ARN\<close>

text \<open>C39. The default OIDC provider ARN survives the round trip through text: the account id of the command
  line, a decimal text, parses to the number it was printed from, and the ARN made of that number and
  a cluster id without a slash is one the validation of provider ARNs accepts.\<close>

theorem default_arn_roundtrip:
  assumes "0 \<le> uid" "uid < 2 ^ 63" "CHR ''/'' \<notin> set clusterId"
  shows "ParseInt64 (string_of_int uid) = Some uid \<and>
    IsValidOidcProviderArn (GenerateDefaultOidcProviderArn clusterId (the (ParseInt64 (string_of_int uid))))"
  using assms ParseInt64_string_of_int [of uid] default_arn_valid [of uid clusterId] by simp

theorem default_arn_roundtrip_witness:
  "IsValidOidcProviderArn (GenerateDefaultOidcProviderArn ''c1'' (the (ParseInt64 (string_of_int 1234567890))))"
  by (rule default_arn_roundtrip [THEN conjunct2]) simp_all

section \<open>The pools as maps\<close>

definition kmsMap :: "Manager \<Rightarrow> string \<Rightarrow> SecretClient option" where
  "kmsMap m k = (case kms_GetClient m k of Inl _ \<Rightarrow> None | Inr c \<Rightarrow> Some c)"

text \<open>The KMS client pool refines a partial map from keys to clients: a new pool is the empty map,
  registering a client updates it at the key, with the client renamed to its key, deleting removes the
  key, and deleting a prefix removes exactly the plain key and its endpoint variants. Every operation
  keeps the pool well-formed.\<close>

theorem kms_pool_refines_map:
  assumes "pool_ok m" "kms_client c"
  shows "kmsMap (NewManager region) = Map.empty \<and>
    kmsMap (kms_Register m k c) = (kmsMap m)(k \<mapsto> rename_client k c) \<and>
    kmsMap (fst (kms_Delete m k)) = (kmsMap m)(k := None) \<and>
    kmsMap (fst (kms_DeletePrefixed m k)) = kmsMap m |` {k'. \<not> key_family k k'} \<and>
    pool_ok (kms_Register m k c) \<and> pool_ok (fst (kms_Delete m k)) \<and> pool_ok (fst (kms_DeletePrefixed m k))"
  using kms.get_register [OF assms] kms.get_delete [OF assms(1)] kms.get_delete_prefixed [OF assms(1)]
    kms.ok_register [OF assms(1)] kms.ok_delete [OF assms(1)] kms.ok_delete_prefixed [OF assms(1)]
  by (auto simp: kmsMap_def fun_eq_iff restrict_map_def kms_GetClient_pool pool_ok_NewManager)
    (simp_all add: NewManager_def)

theorem kms_pool_refines_map_witness:
  "kmsMap (kms_Register (NewManager ''cn'') ''k'' (KMSClient (Some \<lparr>cl_clientName = [], cl_sdk = Some 1\<rparr>))) ''k''
     = Some (KMSClient (Some \<lparr>cl_clientName = ''k'', cl_sdk = Some 1\<rparr>))"
  using kms_pool_refines_map [of "NewManager ''cn''" "KMSClient (Some \<lparr>cl_clientName = [], cl_sdk = Some 1\<rparr>)" _ "''k''"]
  by (simp add: pool_ok_NewManager kms_client_def)

section \<open>Status comparison\<close>

text \<open>C37. The comparison that decides whether a status is written is equality of multisets: the fresh results
  count as changed exactly when the stored and the fresh results, without their times, differ as
  multisets; neither the order nor the times of the results cause a write.\<close>

theorem status_changed_iff_multisets_differ:
  "dataSyncResultsChanged old fresh \<longleftrightarrow>
     image_mset dataSyncResultFingerprintOf (mset old) \<noteq> image_mset dataSyncResultFingerprintOf (mset fresh)"
  by (simp add: dataSyncResultsChanged_mset)

end
