(* ===== verification/Refreshers.thy ===== *)
theory Refreshers
  imports Store_Protocol
begin

text \<open>
  The credential refreshers of the pools (\<open>RamProvider\<close> of \<open>provider_manager.go\<close>) against the clients
  they serve: which refreshers the retirement of a family of keys stops, and what a failed construction of
  a client (\<open>newClientWithAuth\<close> of \<open>kms/client_provider.go\<close>) leaves behind.
\<close>

section \<open>The refresher of a key\<close>

definition refresherAt :: "provider \<Rightarrow> proc \<Rightarrow> string \<Rightarrow> nat option" where
  "refresherAt pv p k = (case gm_get (mg_RamProvider (poolOf pv p)) k of Some s \<Rightarrow> s | None \<Rightarrow> None)"

definition served :: "provider \<Rightarrow> proc \<Rightarrow> string \<Rightarrow> bool" where
  "served pv p k \<longleftrightarrow> \<not> isl (clientAt pv p k)"

lemma Delete_ram:
  assumes "pool_ok m"
  shows "gm_get (mg_RamProvider (fst (kms_Delete m k))) k' = (if k' = k then None else gm_get (mg_RamProvider m) k')"
    and "gm_get (mg_RamProvider (fst (oos_Delete m k))) k' = (if k' = k then None else gm_get (mg_RamProvider m) k')"
  using assms by (auto simp: kms_Delete_def oos_Delete_def StopProvider_def pool_ok_def split: option.split)

lemma deleteAll_ram:
  assumes "\<And>m k. pool_ok m \<Longrightarrow> pool_ok (fst (del m k))"
    and "\<And>m k k'. pool_ok m \<Longrightarrow> gm_get (mg_RamProvider (fst (del m k))) k' = (if k' = k then None else gm_get (mg_RamProvider m) k')"
    and "pool_ok m"
  shows "gm_get (mg_RamProvider (fst (deleteAll del m ks))) k = (if k \<in> set ks then None else gm_get (mg_RamProvider m) k)"
  using assms(3) by (induction ks arbitrary: m) (simp_all add: assms(1,2) del: deleteAll.simps(2))

lemma served_pool:
  assumes "table_ok p"
  shows "served pv p k \<longleftrightarrow> gm_get (case pv_kind pv of KMS \<Rightarrow> mg_KmsClientMap (poolOf pv p) | OOS \<Rightarrow> mg_OosClientMap (poolOf pv p)) k \<noteq> None"
  using pool_ok_poolOf [OF assms, of pv]
  by (cases "pv_kind pv")
    (simp_all add: served_def clientAt_def kms_GetClient_pool oos_GetClient_pool split: option.split)

text \<open>Retiring a family stops exactly the refreshers of the keys that have a client.\<close>

lemma refresherAt_DeletePrefixed:
  assumes "table_ok p" "inTable pv p"
  shows "refresherAt pv (final (DeletePrefixed pv n) p) k =
    (if key_family n k \<and> served pv p k then None else refresherAt pv p k)"
proof -
  note pool = pool_ok_poolOf [OF assms(1), of pv]
  have "gm_get (mg_RamProvider (fst (kms_DeletePrefixed (poolOf pv p) n))) k =
      (if k \<in> set (staleKeys (mg_KmsClientMap (poolOf pv p)) n) then None else gm_get (mg_RamProvider (poolOf pv p)) k)"
    "gm_get (mg_RamProvider (fst (oos_DeletePrefixed (poolOf pv p) n))) k =
      (if k \<in> set (staleKeys (mg_OosClientMap (poolOf pv p)) n) then None else gm_get (mg_RamProvider (poolOf pv p)) k)"
    unfolding kms_DeletePrefixed_def oos_DeletePrefixed_def
    by (rule deleteAll_ram; auto simp: Delete_ram pool)+
  then show ?thesis
    by (cases "pv_kind pv") (auto simp: refresherAt_def DeletePrefixed_def poolOf_onManager assms(2)
        served_pool [OF assms(1)] staleKeys_iff)
qed

section \<open>Refreshers without a client\<close>

lemma refresherAt_tr [simp]: "refresherAt pv (p\<lparr>tr := t\<rparr>) k = refresherAt pv p k"
  by (simp add: refresherAt_def)

lemma GetAuthCred_refresher:
  assumes "table_ok p" "inTable pv p" "result (GetAuthCred E a region w (pv_name pv)) p = Inr cred"
  shows "refresherAt pv (final (GetAuthCred E a region w (pv_name pv)) p) (ac_ClientName a) = Some cred"
proof -
  let ?b = "NormalizeSessionNames a"
  let ?chain = "authChain E ?b region"
  let ?q = "final ?chain p"
  have "keeps clientsKept ?chain"
    unfolding authChain_def createOIDCProvider_def getIdentityToken_def NewTokenOIDCProvider_def api_defs Let_def
    by (intro clients.rules)
  then have kept: "clientsKept p ?q" by (rule keepsD)
  have q: "pool_ok (poolOf pv ?q)" "inTable pv ?q"
    using clientsKept_facts [OF kept] assms(1,2) by (simp_all add: pool_ok_poolOf)
  obtain ps where ps: "result ?chain p = Inr ps"
    using assms(3) by (cases "result ?chain p") (simp_all add: GetAuthCred_def Let_def run_simps)
  then show ?thesis
    using assms(3) q
    by (auto simp: GetAuthCred_def Let_def run_simps refresherAt_def poolOf_onManager inTable_def RegisterRamProvider_def pool_ok_def)
qed

text \<open>C36. A rejected KMS endpoint leaks a credential refresher. When the credential of a client is built but
  the endpoint is not an allowed KMS host, \<open>newClientWithAuth\<close> returns an error and no client is
  served under the key; yet the refresher stays registered, and retiring any family of keys,
  the key's own included, leaves it running, because the retirement walks the clients.\<close>

theorem rejected_endpoint_leaks_refresher:
  assumes "table_ok p" "inTable pv p" "pv_kind pv = KMS"
    and "\<not> served pv p (ac_ClientName a)" "endpoint \<noteq> []" "\<not> allowedKmsHost (TrimSpace endpoint)"
    and "result (GetAuthCred E a (pv_region pv) (pv_maxConcurrent pv) (pv_name pv)) p = Inr cred"
    and "q = final (kms_newClientWithAuth E pv (ac_ClientName a) a endpoint) p"
  shows "isl (result (kms_newClientWithAuth E pv (ac_ClientName a) a endpoint) p) \<and> \<not> served pv q (ac_ClientName a) \<and>
    refresherAt pv q (ac_ClientName a) = Some cred \<and>
    refresherAt pv (final (DeletePrefixed pv n) q) (ac_ClientName a) = Some cred"
proof -
  let ?auth = "GetAuthCred E a (pv_region pv) (pv_maxConcurrent pv) (pv_name pv)"
  obtain e where e: "validateKmsEndpoint endpoint = Some e"
    using assms(6) by (simp add: validateKmsEndpoint_def kmsEndpointRe_iff)
  have run: "result (kms_newClientWithAuth E pv (ac_ClientName a) a endpoint) p = Inl e" "q = final ?auth p"
    using assms(5,7) e by (simp_all add: assms(8) kms_newClientWithAuth_def run_simps Let_def)
  have kept: "clientsKept p q" unfolding run(2) by (rule keepsD [OF clients_GetAuthCred])
  then have "table_ok q" "inTable pv q" "\<not> served pv q (ac_ClientName a)"
    using clientsKept_facts [OF kept] clientsKept_clientAt [OF kept] assms(1,2,4) by (simp_all add: served_def)
  moreover have "refresherAt pv q (ac_ClientName a) = Some cred"
    unfolding run(2) by (rule GetAuthCred_refresher [OF assms(1,2,7)])
  ultimately show ?thesis using run(1) by (simp add: refresherAt_DeletePrefixed)
qed

definition metadataSettings :: AuthConfig where
  "metadataSettings = emptyAuthConfig\<lparr>ac_ClientName := ''namespace/a/s#169.254.169.254''\<rparr>"

theorem rejected_endpoint_leaks_refresher_witness:
  "\<exists>cred. refresherAt (kms_NewProvider bareOptions)
     (final (DeletePrefixed (kms_NewProvider bareOptions) ''namespace/a/s'')
       (final (kms_newClientWithAuth workerEnv (kms_NewProvider bareOptions) ''namespace/a/s#169.254.169.254'' metadataSettings ''169.254.169.254'') demoProviders))
     ''namespace/a/s#169.254.169.254'' = Some cred"
proof -
  let ?k = "kms_NewProvider bareOptions"
  have t: "table_ok demoProviders" "inTable ?k demoProviders"
    using demoProviders_ok by (auto simp: providersAt_def inTable_def gm_has_def kms_NewProvider_def)
  have u: "\<not> served ?k demoProviders (ac_ClientName metadataSettings)"
    by (simp add: served_def clientAt_def kms_NewProvider_def poolOf_def demoProviders_def gm_get_def gm_empty_def NewManager_def kms_GetClient_def)
  have h: "\<not> allowedKmsHost (TrimSpace ''169.254.169.254'')"
    unfolding kmsEndpointRe_iff [symmetric] by code_simp
  have a: "ac_ServiceAccountName metadataSettings = []" "ac_RoleArn metadataSettings = []" "ac_AccessKey metadataSettings = []"
    by (simp_all add: metadataSettings_def emptyAuthConfig_def)
  obtain cred where c: "result (GetAuthCred workerEnv metadataSettings (pv_region ?k) (pv_maxConcurrent ?k) (pv_name ?k)) demoProviders = Inr cred"
    using demo_chain [OF a] by blast
  show ?thesis
    using rejected_endpoint_leaks_refresher [OF t _ u _ h c, of _ "''namespace/a/s''"]
    by (simp add: metadataSettings_def kms_NewProvider_def)
qed

end
