(* ===== verification/Pool_Steps.thy ===== *)
theory Pool_Steps
  imports Refreshers "HOL-Library.Multiset"
begin

text \<open>
  The pools under concurrent use. The controllers run in goroutines and call the same \<open>Manager\<close>: its
  client map is a \<open>sync.Map\<close>, its refresher map is guarded by \<open>RamLock\<close>, and a displaced refresher is
  stopped outside the lock (\<open>kms/client_manager.go\<close>, \<open>oos/client_manager.go\<close>, \<open>provider_manager.go\<close>).
  A call is the list of its atomic actions, a thread the actions it still has to do, and a step does
  one action of any thread. Bounded waiting for \<open>Stop\<close> is left out: the call of \<open>Stop\<close> is the action.
\<close>

section \<open>Actions and threads\<close>

text \<open>The atomic actions: \<open>Store\<close> and \<open>Delete\<close> of the map, the two critical sections, the call of \<open>Stop\<close>, and
  a \<open>Range\<close> over the client map in progress. \<open>sync.Map\<close> promises of \<open>Range\<close> that every key present and
  untouched throughout is visited, and no key twice; a key stored or deleted meanwhile may be visited or
  not. \<open>Ranging\<close> carries the keys still owed, and those visited. A visit only notes the key, so one that
  reflects an earlier moment of the \<open>Range\<close>, as the library allows, is a visit at that moment.\<close>

datatype action =
    StoreClient string SecretClient
  | DropClient string
  | TakeRefresher string
  | SwapRefresher string "nat option"
  | StopInstance nat
  | RangeStart string
  | Ranging string "string list" "string list"

definition clientMap :: "pkind \<Rightarrow> Manager \<Rightarrow> SecretClient gomap" where
  "clientMap kind m = (case kind of KMS \<Rightarrow> mg_KmsClientMap m | OOS \<Rightarrow> mg_OosClientMap m)"

definition dropClient :: "pkind \<Rightarrow> string \<Rightarrow> Manager \<Rightarrow> Manager" where
  "dropClient kind k m = (case kind of
      KMS \<Rightarrow> m\<lparr>mg_KmsClientMap := gm_del (mg_KmsClientMap m) k\<rparr>
    | OOS \<Rightarrow> m\<lparr>mg_OosClientMap := gm_del (mg_OosClientMap m) k\<rparr>)"

definition putClient :: "pkind \<Rightarrow> string \<Rightarrow> SecretClient \<Rightarrow> Manager \<Rightarrow> Manager" where
  "putClient kind k c m = (case kind of KMS \<Rightarrow> kms_Register m k c | OOS \<Rightarrow> oos_Register m k c)"

text \<open>An action other than \<open>Range\<close>: the pool after it, the refreshers the thread has yet to stop, and the
  refreshers it stopped.\<close>

fun act :: "pkind \<Rightarrow> action \<Rightarrow> Manager \<Rightarrow> Manager \<times> nat list \<times> nat list" where
  "act kind (StoreClient k c) m = (putClient kind k c m, [], [])"
| "act kind (DropClient k) m = (dropClient kind k m, [], [])"
| "act kind (TakeRefresher k) m = (fst (StopProvider k m), snd (StopProvider k m), [])"
| "act kind (SwapRefresher k s) m = (fst (RegisterRamProvider k s m), snd (RegisterRamProvider k s m), [])"
| "act kind (StopInstance s) m = (m, [], [s])"
| "act kind _ m = (m, [], [])"

text \<open>A store or a deletion of a key releases every \<open>Range\<close> in progress from the key.\<close>

fun touched :: "action \<Rightarrow> string option" where
  "touched (StoreClient k c) = Some k"
| "touched (DropClient k) = Some k"
| "touched _ = None"

fun release :: "string option \<Rightarrow> action \<Rightarrow> action" where
  "release (Some k) (Ranging n owed seen) = Ranging n (filter (\<lambda>x. x \<noteq> k) owed) seen"
| "release _ a = a"

fun ranges :: "action \<Rightarrow> bool" where
  "ranges (RangeStart n) = True"
| "ranges (Ranging n owed seen) = True"
| "ranges _ = False"

section \<open>The calls\<close>

definition deleteCall :: "string \<Rightarrow> action list" where
  "deleteCall k = [DropClient k, TakeRefresher k]"

definition deletePrefixedCall :: "string \<Rightarrow> action list" where
  "deletePrefixedCall n = [RangeStart n]"

definition deletesOf :: "string \<Rightarrow> string list \<Rightarrow> action list" where
  "deletesOf n seen = concat (map deleteCall (filter (key_family n) seen))"

definition registerCall :: "string \<Rightarrow> SecretClient \<Rightarrow> action list" where
  "registerCall k c = [StoreClient k c]"

definition registerRamCall :: "string \<Rightarrow> nat option \<Rightarrow> action list" where
  "registerRamCall k s = [SwapRefresher k s]"

text \<open>What two rounds do to the pool when they succeed: a consumer builds a client on a cache miss
  (\<open>getOrCreateClient\<close>), a store controller rebuilds its client (\<open>recreateClient\<close>).\<close>

definition createClientCall :: "string \<Rightarrow> SecretClient \<Rightarrow> nat \<Rightarrow> action list" where
  "createClientCall k c s = registerRamCall k (Some s) @ registerCall k c"

definition rebuildClientCall :: "string \<Rightarrow> SecretClient \<Rightarrow> nat \<Rightarrow> action list" where
  "rebuildClientCall n c s = deletePrefixedCall n @ createClientCall n c s"

section \<open>Steps\<close>

record conc =
  cn_pool :: Manager
  cn_threads :: "action list list"
  cn_stopped :: "nat list"

text \<open>Thread \<open>i\<close> goes on with \<open>as\<close>.\<close>

definition goesOn :: "nat \<Rightarrow> action list \<Rightarrow> action list list \<Rightarrow> action list list" where
  "goesOn i as ts = ts[i := as]"

inductive pool_step :: "pkind \<Rightarrow> conc \<Rightarrow> conc \<Rightarrow> bool" for kind where
  action: "\<lbrakk>i < length (cn_threads s); cn_threads s ! i = a # rest; \<not> ranges a; act kind a (cn_pool s) = (m, todo, stops)\<rbrakk> \<Longrightarrow>
     pool_step kind s \<lparr>cn_pool = m,
       cn_threads = map (map (release (touched a))) (goesOn i (map StopInstance todo @ rest) (cn_threads s)),
       cn_stopped = stops @ cn_stopped s\<rparr>"
| start: "\<lbrakk>i < length (cn_threads s); cn_threads s ! i = RangeStart n # rest\<rbrakk> \<Longrightarrow>
     pool_step kind s (s\<lparr>cn_threads := goesOn i (Ranging n (gm_keys (clientMap kind (cn_pool s))) [] # rest) (cn_threads s)\<rparr>)"
| visit: "\<lbrakk>i < length (cn_threads s); cn_threads s ! i = Ranging n owed seen # rest;
     k \<in> set (gm_keys (clientMap kind (cn_pool s))); k \<notin> set seen\<rbrakk> \<Longrightarrow>
     pool_step kind s (s\<lparr>cn_threads := goesOn i (Ranging n owed (seen @ [k]) # rest) (cn_threads s)\<rparr>)"
| finish: "\<lbrakk>i < length (cn_threads s); cn_threads s ! i = Ranging n owed seen # rest; set owed \<subseteq> set seen\<rbrakk> \<Longrightarrow>
     pool_step kind s (s\<lparr>cn_threads := goesOn i (deletesOf n seen @ rest) (cn_threads s)\<rparr>)"

inductive_cases pool_stepE: "pool_step kind s s'"

abbreviation pool_steps :: "pkind \<Rightarrow> conc \<Rightarrow> conc \<Rightarrow> bool" where
  "pool_steps kind \<equiv> (pool_step kind)\<^sup>*\<^sup>*"

definition quiescent :: "conc \<Rightarrow> bool" where
  "quiescent s \<longleftrightarrow> (\<forall>t \<in> set (cn_threads s). t = [])"

section \<open>Conservation of refreshers\<close>

text \<open>The refreshers an action holds: those it will register, and those it will stop.\<close>

fun held :: "action \<Rightarrow> nat multiset" where
  "held (SwapRefresher k s) = (case s of None \<Rightarrow> {#} | Some x \<Rightarrow> {#x#})"
| "held (StopInstance s) = {#s#}"
| "held _ = {#}"

definition holds :: "action list \<Rightarrow> nat multiset" where
  "holds as = sum_list (map held as)"

definition inPool :: "Manager \<Rightarrow> nat multiset" where
  "inPool m = sum_list (map (\<lambda>kv. case snd kv of None \<Rightarrow> {#} | Some x \<Rightarrow> {#x#}) (mg_RamProvider m))"

text \<open>Every refresher somewhere: registered, in the hands of a thread, or stopped.\<close>

definition whereabouts :: "conc \<Rightarrow> nat multiset" where
  "whereabouts s = inPool (cn_pool s) + sum_list (map holds (cn_threads s)) + mset (cn_stopped s)"

lemma holds_simps [simp]: "holds [] = {#}" "holds (a # as) = held a + holds as" "holds (as @ bs) = holds as + holds bs"
  by (simp_all add: holds_def)

lemma holds_stops [simp]: "holds (map StopInstance xs) = mset xs"
  by (induction xs) simp_all

lemma held_release [simp]: "held (release o1 a) = held a"
  by (cases o1; cases a) simp_all

lemma holds_release [simp]: "holds (map (release o1) as) = holds as"
  by (induction as) simp_all

lemma holds_deletes [simp]: "holds (deletesOf n seen) = {#}"
  by (induction seen) (simp_all add: deletesOf_def deleteCall_def)

lemma sum_goesOn:
  assumes "i < length ts"
  shows "sum_list (map f (goesOn i as ts)) + f (ts ! i) = sum_list (map f ts) + (f as :: nat multiset)"
  using assms
proof (induction ts arbitrary: i)
  case (Cons t ts)
  then show ?case by (cases i) (auto simp: goesOn_def ac_simps)
qed simp

lemma sum_goesOn_same:
  assumes "i < length ts" "f as = (f (ts ! i) :: nat multiset)"
  shows "sum_list (map f (goesOn i as ts)) = sum_list (map f ts)"
  using sum_goesOn [OF assms(1), of f as] assms(2) by simp

definition holder :: "nat option \<Rightarrow> nat multiset" where
  "holder s = (case s of None \<Rightarrow> {#} | Some x \<Rightarrow> {#x#})"

definition ramHolds :: "nat option gomap \<Rightarrow> nat multiset" where
  "ramHolds ram = sum_list (map (\<lambda>kv. holder (snd kv)) ram)"

lemma inPool_ram: "inPool m = ramHolds (mg_RamProvider m)"
  by (simp add: inPool_def ramHolds_def holder_def)

lemma mset_stopped: "mset (stopped r) = (case r of None \<Rightarrow> {#} | Some s \<Rightarrow> holder s)"
  by (simp add: stopped_def holder_def split: option.split)

lemma ramHolds_put:
  "ramHolds (gm_put ram k s) + mset (stopped (gm_get ram k)) = ramHolds ram + holder s"
  by (induction ram) (auto simp: ramHolds_def gm_put_def gm_get_def mset_stopped ac_simps)

lemma ramHolds_del:
  assumes "gm_ok ram"
  shows "ramHolds (gm_del ram k) + mset (stopped (gm_get ram k)) = ramHolds ram"
  using assms
proof (induction ram)
  case (Cons kv ram)
  show ?case
  proof (cases "fst kv = k")
    case True
    then have "k \<notin> fst ` set ram" using Cons.prems by (auto simp: gm_ok_def)
    then have "AList.delete k ram = ram" by (simp add: delete_id)
    then show ?thesis using True by (cases kv) (simp add: ramHolds_def gm_del_def gm_get_def mset_stopped ac_simps)
  next
    case False
    then show ?thesis using Cons by (cases kv) (simp add: ramHolds_def gm_del_def gm_get_def gm_ok_def ac_simps)
  qed
qed (simp add: ramHolds_def gm_del_def gm_get_def mset_stopped)

lemma putClient_pool [simp]:
  "mg_RamProvider (putClient kind k c m) = mg_RamProvider m"
  "mg_RamProvider (dropClient kind k m) = mg_RamProvider m"
  by (simp_all add: putClient_def dropClient_def kms_Register_eq oos_Register_eq split: pkind.split)

lemma pool_ok_act: "pool_ok m \<Longrightarrow> pool_ok (fst (act kind a m))"
  by (cases a) (auto simp: putClient_def dropClient_def pool_ok_def pool_ok_Register RegisterRamProvider_def StopProvider_def
      kms_Register_eq oos_Register_eq split: pkind.split option.split)

text \<open>An action moves refreshers and neither makes nor loses one.\<close>

lemma act_conserves:
  assumes "pool_ok m" "\<not> ranges a"
  shows "inPool (fst (act kind a m)) + mset (fst (snd (act kind a m))) + mset (snd (snd (act kind a m))) = inPool m + held a"
proof -
  have ok: "mg_RamLock m" "gm_ok (mg_RamProvider m)" using assms(1) by (simp_all add: pool_ok_def)
  show ?thesis
  proof (cases a)
    case (TakeRefresher k)
    then show ?thesis using ok ramHolds_del [OF ok(2), of k]
      by (cases "gm_get (mg_RamProvider m) k") (simp_all add: inPool_ram StopProvider_def mset_stopped)
  next
    case (SwapRefresher k s)
    then show ?thesis using ok ramHolds_put [of "mg_RamProvider m" k s]
      by (simp add: inPool_ram RegisterRamProvider_def holder_def)
  qed (use assms(2) in \<open>simp_all add: inPool_ram\<close>)
qed

lemma pool_step_invariant:
  assumes "pool_step kind s s'" "pool_ok (cn_pool s)"
  shows "pool_ok (cn_pool s') \<and> whereabouts s' = whereabouts s"
  using assms(1)
proof cases
  case (action i a rest m todo stops)
  have m: "m = fst (act kind a (cn_pool s))" "todo = fst (snd (act kind a (cn_pool s)))" "stops = snd (snd (act kind a (cn_pool s)))"
    using action(5) by simp_all
  have "sum_list (map holds (goesOn i (map StopInstance todo @ rest) (cn_threads s))) + held a = sum_list (map holds (cn_threads s)) + mset todo"
    using sum_goesOn [OF action(2), of holds "map StopInstance todo @ rest"] action(3) by (simp add: ac_simps)
  moreover have "inPool m + mset todo + mset stops = inPool (cn_pool s) + held a"
    using act_conserves [OF assms(2) action(4)] m by simp
  ultimately have "inPool m + sum_list (map holds (goesOn i (map StopInstance todo @ rest) (cn_threads s))) + mset stops + (held a + mset todo) =
      inPool (cn_pool s) + sum_list (map holds (cn_threads s)) + (held a + mset todo)"
    by (metis (no_types, lifting) add.assoc add.commute)
  then have "inPool m + sum_list (map holds (goesOn i (map StopInstance todo @ rest) (cn_threads s))) + mset stops =
      inPool (cn_pool s) + sum_list (map holds (cn_threads s))" by simp
  then show ?thesis
    using pool_ok_act [OF assms(2)] m(1) unfolding action(1)
    by (simp add: whereabouts_def o_def ac_simps)
next
  case (start i n rest)
  show ?thesis using assms(2) start(3) by (simp add: start(1) whereabouts_def sum_goesOn_same [OF start(2)])
next
  case (visit i n owed seen rest k)
  show ?thesis using assms(2) visit(3) by (simp add: visit(1) whereabouts_def sum_goesOn_same [OF visit(2)])
next
  case (finish i n owed seen rest)
  show ?thesis using assms(2) finish(3) by (simp add: finish(1) whereabouts_def sum_goesOn_same [OF finish(2)])
qed

lemma pool_steps_invariant:
  "pool_steps kind s s' \<Longrightarrow> pool_ok (cn_pool s) \<Longrightarrow> pool_ok (cn_pool s') \<and> whereabouts s' = whereabouts s"
  by (induction rule: rtranclp_induct) (use pool_step_invariant in \<open>metis+\<close>)

section \<open>Every schedule ends\<close>

text \<open>The keys that are, or may yet be, in the client map.\<close>

fun storesKey :: "action \<Rightarrow> string set" where
  "storesKey (StoreClient k c) = {k}"
| "storesKey _ = {}"

definition storedBy :: "action list list \<Rightarrow> string set" where
  "storedBy ts = \<Union>(storesKey ` \<Union>(set ` set ts))"

definition keysInPlay :: "pkind \<Rightarrow> conc \<Rightarrow> string set" where
  "keysInPlay kind s = set (gm_keys (clientMap kind (cn_pool s))) \<union> storedBy (cn_threads s)"

text \<open>The actions a thread may still do: every key in play is visited at most once by a \<open>Range\<close>, and
  each visited key costs at most the two actions of \<open>Delete\<close> and one \<open>Stop\<close>.\<close>

fun effort :: "string set \<Rightarrow> action \<Rightarrow> nat" where
  "effort U (RangeStart n) = 4 * card U + 2"
| "effort U (Ranging n owed seen) = 4 * card (U - set seen) + 3 * length seen + 1"
| "effort U (TakeRefresher k) = 2"
| "effort U (SwapRefresher k s) = 2"
| "effort U _ = 1"

definition threadEffort :: "string set \<Rightarrow> action list \<Rightarrow> nat" where
  "threadEffort U as = sum_list (map (effort U) as)"

definition totalEffort :: "string set \<Rightarrow> action list list \<Rightarrow> nat" where
  "totalEffort U ts = sum_list (map (threadEffort U) ts)"

lemma finite_storesKey [simp]: "finite (storesKey a)"
  by (cases a) simp_all

lemma finite_keysInPlay [simp]: "finite (keysInPlay kind s)"
  by (simp add: keysInPlay_def storedBy_def)

lemma effort_mono: "finite U \<Longrightarrow> V \<subseteq> U \<Longrightarrow> effort V a \<le> effort U a"
  by (cases a) (auto intro!: card_mono mult_le_mono2 add_le_mono)

lemma totalEffort_mono: "finite U \<Longrightarrow> V \<subseteq> U \<Longrightarrow> totalEffort V ts \<le> totalEffort U ts"
  unfolding totalEffort_def threadEffort_def by (intro sum_list_mono effort_mono)

lemma effort_release [simp]: "effort U (release o1 a) = effort U a"
  by (cases o1; cases a) simp_all

lemma storesKey_release [simp]: "storesKey (release o1 a) = storesKey a"
  by (cases o1; cases a) simp_all

lemma threadEffort_release [simp]: "threadEffort U (map (release o1) as) = threadEffort U as"
  by (simp add: threadEffort_def o_def)

lemma totalEffort_release [simp]: "totalEffort U (map (map (release o1)) ts) = totalEffort U ts"
  by (simp add: totalEffort_def o_def)

lemma threadEffort_simps [simp]:
  "threadEffort U [] = 0" "threadEffort U (a # as) = effort U a + threadEffort U as"
  "threadEffort U (as @ bs) = threadEffort U as + threadEffort U bs"
  by (simp_all add: threadEffort_def)

lemma threadEffort_stops [simp]: "threadEffort U (map StopInstance xs) = length xs"
  by (induction xs) simp_all

lemma threadEffort_deletes: "threadEffort U (deletesOf n seen) \<le> 3 * length seen"
  by (induction seen) (simp_all add: deletesOf_def deleteCall_def)

lemma totalEffort_less:
  assumes "i < length ts" "threadEffort U as < threadEffort U (ts ! i)"
  shows "totalEffort U (goesOn i as ts) < totalEffort U ts"
  using assms
proof (induction ts arbitrary: i)
  case (Cons t ts)
  then show ?case by (cases i) (auto simp: goesOn_def totalEffort_def)
qed simp

lemma length_stopped: "length (stopped r) < 2"
  by (simp add: stopped_def split: option.split)

lemma act_effort: "\<not> ranges a \<Longrightarrow> length (fst (snd (act kind a m))) < effort U a"
  by (cases a) (auto simp: RegisterRamProvider_def StopProvider_def length_stopped split: option.split)

lemma set_gm_keys: "set (gm_keys (gm_put m k v)) = insert k (set (gm_keys m))" "set (gm_keys (gm_del m k)) = set (gm_keys m) - {k}"
  unfolding gm_keys_def gm_put_def gm_del_def delete_keys by (auto simp: update_keys)

lemma keys_act:
  assumes "\<not> ranges a"
  shows "set (gm_keys (clientMap kind (fst (act kind a m)))) \<subseteq> set (gm_keys (clientMap kind m)) \<union> storesKey a"
  using assms
  by (cases a)
    (auto simp: clientMap_def putClient_def dropClient_def kms_Register_eq oos_Register_eq RegisterRamProvider_def StopProvider_def
      set_gm_keys split: pkind.split option.split if_splits)

lemma storedBy_simps [simp]:
  "storedBy [[]] = {}" "storedBy [a # as] = storesKey a \<union> storedBy [as]" "storedBy [as @ bs] = storedBy [as] \<union> storedBy [bs]"
  "storedBy [map StopInstance xs] = {}" "storedBy (map (map (release o1)) ts) = storedBy ts"
  by (auto simp: storedBy_def)

lemma storedBy_deletes [simp]: "storedBy [deletesOf n seen] = {}"
  by (auto simp: storedBy_def deletesOf_def deleteCall_def)

lemma storedBy_thread: "i < length ts \<Longrightarrow> storedBy [ts ! i] \<subseteq> storedBy ts"
  using nth_mem [of i ts] by (fastforce simp: storedBy_def)

lemma storedBy_goesOn: "storedBy (goesOn i as ts) \<subseteq> storedBy [as] \<union> storedBy ts"
  using set_update_subset_insert [of ts i as] unfolding goesOn_def storedBy_def by fastforce

lemma keysInPlay_step:
  assumes "pool_step kind s s'"
  shows "keysInPlay kind s' \<subseteq> keysInPlay kind s"
  using assms
proof cases
  case (action i a rest m todo stops)
  have "m = fst (act kind a (cn_pool s))" using action(5) by simp
  then have "set (gm_keys (clientMap kind m)) \<subseteq> set (gm_keys (clientMap kind (cn_pool s))) \<union> storesKey a"
    using keys_act [OF action(4)] by simp
  then show ?thesis
    using storedBy_thread [OF action(2)] storedBy_goesOn [of i "map StopInstance todo @ rest" "cn_threads s"]
    by (auto simp: action(1,3) keysInPlay_def)
next
  case (start i n rest)
  then show ?thesis using storedBy_thread [OF start(2)] storedBy_goesOn [of i "Ranging n (gm_keys (clientMap kind (cn_pool s))) [] # rest" "cn_threads s"]
    by (auto simp: keysInPlay_def)
next
  case (visit i n owed seen rest k)
  then show ?thesis using storedBy_thread [OF visit(2)] storedBy_goesOn [of i "Ranging n owed (seen @ [k]) # rest" "cn_threads s"]
    by (auto simp: keysInPlay_def)
next
  case (finish i n owed seen rest)
  then show ?thesis using storedBy_thread [OF finish(2)] storedBy_goesOn [of i "deletesOf n seen @ rest" "cn_threads s"]
    by (auto simp: keysInPlay_def)
qed

lemma step_less:
  assumes "pool_step kind s s'"
  shows "totalEffort (keysInPlay kind s') (cn_threads s') < totalEffort (keysInPlay kind s) (cn_threads s)"
proof -
  let ?U = "keysInPlay kind s"
  have "totalEffort ?U (cn_threads s') < totalEffort ?U (cn_threads s)"
    using assms
  proof cases
    case (action i a rest m todo stops)
    have "length todo < effort ?U a" using act_effort [OF action(4), of kind "cn_pool s" ?U] action(5) by simp
    then show ?thesis using totalEffort_less [OF action(2), of ?U "map StopInstance todo @ rest"] action(1,3) by simp
  next
    case (start i n rest)
    then show ?thesis using totalEffort_less [OF start(2), of ?U] by simp
  next
    case (visit i n owed seen rest k)
    then have "k \<in> ?U - set seen" by (simp add: keysInPlay_def)
    then have "card (?U - set (seen @ [k])) < card (?U - set seen)" by (intro psubset_card_mono) auto
    then show ?thesis using totalEffort_less [OF visit(2), of ?U] visit(1,3) by simp
  next
    case (finish i n owed seen rest)
    show ?thesis using totalEffort_less [OF finish(2), of ?U "deletesOf n seen @ rest"] finish(1,3) threadEffort_deletes [of ?U n seen] by simp
  qed
  then show ?thesis
    using totalEffort_mono [OF finite_keysInPlay keysInPlay_step [OF assms], of "cn_threads s'"] by simp
qed

lemma wf_pool_step: "wf {(s', s). pool_step kind s s'}"
  by (rule wf_subset [OF wf_measure [of "\<lambda>s. totalEffort (keysInPlay kind s) (cn_threads s)"]]) (use step_less in auto)

section \<open>No thread is stuck\<close>

text \<open>The keys a \<open>Range\<close> owes are in the map.\<close>

fun payable :: "string set \<Rightarrow> action \<Rightarrow> bool" where
  "payable K (Ranging n owed seen) = (set owed \<subseteq> K)"
| "payable K _ = True"

definition allPayable :: "pkind \<Rightarrow> conc \<Rightarrow> bool" where
  "allPayable kind s \<longleftrightarrow> list_all (list_all (payable (set (gm_keys (clientMap kind (cn_pool s)))))) (cn_threads s)"

lemma goesOn_all:
  assumes "list_all (list_all P) ts"
  shows "i < length ts \<Longrightarrow> list_all P (ts ! i)" and "list_all P as \<Longrightarrow> list_all (list_all P) (goesOn i as ts)"
  using assms set_update_subset_insert [of ts i as] by (auto simp: list_all_iff goesOn_def)

lemma act_keeps_keys:
  assumes "\<not> ranges a" "k \<in> set (gm_keys (clientMap kind m))" "touched a \<noteq> Some k"
  shows "k \<in> set (gm_keys (clientMap kind (fst (act kind a m))))"
  using assms
  by (cases a)
    (auto simp: clientMap_def putClient_def dropClient_def kms_Register_eq oos_Register_eq RegisterRamProvider_def StopProvider_def
      set_gm_keys split: pkind.splits option.split)

lemma payable_act:
  assumes "\<not> ranges a" "payable (set (gm_keys (clientMap kind m))) b"
  shows "payable (set (gm_keys (clientMap kind (fst (act kind a m))))) (release (touched a) b)"
  using assms act_keeps_keys [OF assms(1)] by (cases b; cases "touched a") fastforce+

lemma payable_new [simp]: "list_all (payable K) (map StopInstance xs)" "list_all (payable K) (deletesOf n seen)"
  by (auto simp: list_all_iff deletesOf_def deleteCall_def)

lemma allPayable_step:
  assumes "pool_step kind s s'" "allPayable kind s"
  shows "allPayable kind s'"
proof -
  let ?P = "payable (set (gm_keys (clientMap kind (cn_pool s))))"
  have all: "list_all (list_all ?P) (cn_threads s)" using assms(2) by (simp add: allPayable_def)
  note on = goesOn_all [OF all]
  show ?thesis
    using assms(1)
  proof cases
    case (action i a rest m todo stops)
    have m: "m = fst (act kind a (cn_pool s))" using action(5) by simp
    have "list_all (list_all ?P) (goesOn i (map StopInstance todo @ rest) (cn_threads s))"
      using on(1) [OF action(2)] by (intro on(2)) (simp add: action(3))
    then show ?thesis
      using payable_act [OF action(4)] by (auto simp: allPayable_def action(1) m list_all_iff)
  next
    case (start i n rest)
    then show ?thesis using on(1) [OF start(2)] by (simp add: allPayable_def on(2))
  next
    case (visit i n owed seen rest k)
    then show ?thesis using on(1) [OF visit(2)] by (simp add: allPayable_def on(2))
  next
    case (finish i n owed seen rest)
    then show ?thesis using on(1) [OF finish(2)] by (simp add: allPayable_def on(2))
  qed
qed

lemma pool_progress:
  assumes "allPayable kind s" "\<not> quiescent s"
  shows "\<exists>s'. pool_step kind s s'"
proof -
  obtain i where i: "i < length (cn_threads s)" "cn_threads s ! i \<noteq> []"
    using assms(2) by (auto simp: quiescent_def in_set_conv_nth)
  then obtain a rest where a: "cn_threads s ! i = a # rest" by (cases "cn_threads s ! i") auto
  show ?thesis
  proof (cases "ranges a")
    case False
    then show ?thesis using pool_step.action [OF i(1) a False] by (metis surj_pair)
  next
    case True
    show ?thesis
    proof (cases a)
      case (RangeStart n)
      then show ?thesis using pool_step.start [OF i(1)] a by blast
    next
      case (Ranging n owed seen)
      note r = a [unfolded Ranging]
      have "set owed \<subseteq> set (gm_keys (clientMap kind (cn_pool s)))"
        using goesOn_all(1) [OF _ i(1)] assms(1) r by (fastforce simp: allPayable_def)
      then show ?thesis
        using pool_step.finish [OF i(1) r] pool_step.visit [OF i(1) r] by (cases "set owed \<subseteq> set seen") blast+
    qed (use True in simp_all)
  qed
qed

lemma quiesces:
  assumes "allPayable kind s"
  shows "\<exists>s'. pool_steps kind s s' \<and> quiescent s'"
  using wf_pool_step [of kind] assms
proof (induction s rule: wf_induct_rule)
  case (less s)
  show ?case
  proof (cases "quiescent s")
    case False
    then obtain s1 where s1: "pool_step kind s s1" using pool_progress less.prems by blast
    then show ?thesis using less.IH [of s1] allPayable_step [OF s1 less.prems] by (auto intro: converse_rtranclp_into_rtranclp)
  qed blast
qed

section \<open>What the pool guarantees under concurrency\<close>

definition registered :: "Manager \<Rightarrow> nat set" where
  "registered m = {x. \<exists>k. gm_get (mg_RamProvider m) k = Some (Some x)}"

lemma ramHolds_Cons: "ramHolds ((k, s) # ram) = holder s + ramHolds ram"
  by (simp add: ramHolds_def)

lemma holder_set [simp]: "set_mset (holder s) = set_option s"
  by (cases s) (simp_all add: holder_def)

lemma registered_inPool:
  assumes "pool_ok m"
  shows "set_mset (inPool m) = registered m"
proof -
  have "set_mset (ramHolds ram) = {x. \<exists>k. gm_get ram k = Some (Some x)}" if "gm_ok ram" for ram
    using that
  proof (induction ram)
    case (Cons kv ram)
    obtain k r where kv: "kv = (k, r)" by fastforce
    have "gm_get ram k = None" using Cons.prems by (simp add: kv gm_ok_def gm_get_def map_of_eq_None_iff)
    then show ?case
      using Cons by (cases r) (auto simp: kv ramHolds_Cons gm_ok_def gm_get_def)
  qed (simp add: ramHolds_def gm_get_def)
  then show ?thesis using assms by (simp add: inPool_ram registered_def pool_ok_def)
qed

lemma quiescent_holds: "quiescent s \<Longrightarrow> sum_list (map holds (cn_threads s)) = {#}"
proof -
  have "sum_list (map holds ts) = {#}" if "list_all (\<lambda>t. t = []) ts" for ts
    using that by (induction ts) simp_all
  then show "quiescent s \<Longrightarrow> sum_list (map holds (cn_threads s)) = {#}" by (simp add: quiescent_def list_all_iff)
qed

lemma count_le_1:
  assumes "\<And>x. count M x + count (mset xs) x \<le> 1"
  shows "distinct xs" and "set xs \<inter> set_mset M = {}"
proof -
  have one: "count (mset xs) x = 1 \<and> count M x = 0" if "x \<in> set xs" for x
  proof -
    have "count (mset xs) x > 0" using that by simp
    then show ?thesis using assms [of x] by linarith
  qed
  then show "distinct xs" unfolding distinct_count_atmost_1 by simp
  show "set xs \<inter> set_mset M = {}" using one by (simp add: disjoint_iff not_in_iff)
qed

text \<open>C10. No interleaving loses a credential refresher, stops it twice or stops one that still serves.
  Whatever calls overlap on a pool, and in whatever order their actions fall: if every refresher starts out in one
  place, then at every moment none has been stopped twice and none that is registered has been stopped;
  once every call has returned, each refresher there ever was is either registered or stopped.\<close>

theorem refreshers_accounted:
  assumes "pool_steps kind s s'" "pool_ok (cn_pool s)" "\<And>x. count (whereabouts s) x \<le> 1"
  shows "distinct (cn_stopped s') \<and> set (cn_stopped s') \<inter> registered (cn_pool s') = {} \<and>
    (quiescent s' \<longrightarrow> set (cn_stopped s') \<union> registered (cn_pool s') = set_mset (whereabouts s))"
proof -
  have ok: "pool_ok (cn_pool s')" and same: "whereabouts s' = whereabouts s"
    using pool_steps_invariant [OF assms(1,2)] by simp_all
  have one: "count (inPool (cn_pool s')) x + count (mset (cn_stopped s')) x \<le> 1" for x
  proof -
    have "count (whereabouts s') x \<le> 1" using assms(3) by (simp add: same)
    then show ?thesis by (simp add: whereabouts_def)
  qed
  have "distinct (cn_stopped s')" and "set (cn_stopped s') \<inter> registered (cn_pool s') = {}"
    using count_le_1 [OF one] by (simp_all add: registered_inPool [OF ok])
  moreover have "quiescent s' \<Longrightarrow> set (cn_stopped s') \<union> registered (cn_pool s') = set_mset (whereabouts s)"
  proof -
    assume "quiescent s'"
    then have "set_mset (whereabouts s') = registered (cn_pool s') \<union> set (cn_stopped s')"
      by (simp add: whereabouts_def quiescent_holds registered_inPool [OF ok])
    then show ?thesis by (simp add: same Un_commute)
  qed
  ultimately show ?thesis by blast
qed

text \<open>Calls on a fresh pool: \<open>threads\<close> all about to start.\<close>

definition starting :: "Manager \<Rightarrow> action list list \<Rightarrow> conc" where
  "starting m ts = \<lparr>cn_pool = m, cn_threads = ts, cn_stopped = []\<rparr>"

text \<open>The schedule that runs one action of thread \<open>i\<close>, for actions other than \<open>Range\<close>.\<close>

lemma act_step:
  assumes "i < length ts" "ts ! i = a # rest" "\<not> ranges a"
  shows "pool_step kind \<lparr>cn_pool = m, cn_threads = ts, cn_stopped = st\<rparr>
    \<lparr>cn_pool = fst (act kind a m),
     cn_threads = map (map (release (touched a))) (goesOn i (map StopInstance (fst (snd (act kind a m))) @ rest) ts),
     cn_stopped = snd (snd (act kind a m)) @ st\<rparr>"
  using pool_step.action [of i "\<lparr>cn_pool = m, cn_threads = ts, cn_stopped = st\<rparr>" a rest kind] assms by simp

theorem refreshers_accounted_witness:
  "\<exists>s'. pool_steps KMS (starting (NewManager ''cn-hangzhou'') [registerRamCall ''k'' (Some 7), registerRamCall ''k'' (Some 8)]) s' \<and>
     distinct (cn_stopped s') \<and> set (cn_stopped s') \<union> registered (cn_pool s') = {7, 8}"
proof -
  let ?s = "starting (NewManager ''cn-hangzhou'') [registerRamCall ''k'' (Some 7), registerRamCall ''k'' (Some 8)]"
  have w: "whereabouts ?s = {#7, 8#}"
    by (simp add: whereabouts_def starting_def NewManager_def gm_empty_def inPool_def registerRamCall_def)
  obtain s' where s': "pool_steps KMS ?s s'" "quiescent s'"
    using quiesces [of KMS ?s] by (auto simp: allPayable_def starting_def registerRamCall_def)
  have "pool_ok (cn_pool ?s)" by (simp add: starting_def pool_ok_NewManager)
  then have "distinct (cn_stopped s') \<and> set (cn_stopped s') \<inter> registered (cn_pool s') = {} \<and>
    (quiescent s' \<longrightarrow> set (cn_stopped s') \<union> registered (cn_pool s') = set_mset (whereabouts ?s))"
    by (rule refreshers_accounted [OF s'(1)]) (simp add: w)
  then show ?thesis using s' by (auto simp: w)
qed

section \<open>Retirement under concurrency\<close>

definition pending :: "(action \<Rightarrow> bool) \<Rightarrow> action list list \<Rightarrow> bool" where
  "pending P ts \<longleftrightarrow> list_ex (list_ex P) ts"

text \<open>The actions that put something under the key, those that will retire the client of the key when the family of
  \<open>n\<close> is deleted, and those that take its refresher.\<close>

fun makes :: "string \<Rightarrow> action \<Rightarrow> bool" where
  "makes k (StoreClient k' c) = (k' = k)"
| "makes k (SwapRefresher k' s) = (k' = k)"
| "makes k _ = False"

fun retires :: "string \<Rightarrow> string \<Rightarrow> action \<Rightarrow> bool" where
  "retires n k (RangeStart n') = (n' = n)"
| "retires n k (Ranging n' owed seen) = (n' = n \<and> (k \<in> set owed \<or> k \<in> set seen))"
| "retires n k (DropClient k') = (k' = k)"
| "retires n k _ = False"

fun takes :: "string \<Rightarrow> action \<Rightarrow> bool" where
  "takes k (TakeRefresher k') = (k' = k)"
| "takes k _ = False"

text \<open>\<open>Delete\<close> drops the client, then stops its refresher.\<close>

fun paired :: "action list \<Rightarrow> bool" where
  "paired [] = True"
| "paired (a # as) = ((case a of DropClient k \<Rightarrow> list_ex (takes k) as | _ \<Rightarrow> True) \<and> paired as)"

definition retiring :: "bool \<Rightarrow> string \<Rightarrow> string \<Rightarrow> pkind \<Rightarrow> conc \<Rightarrow> bool" where
  "retiring c n k kind s \<longleftrightarrow> pool_ok (cn_pool s) \<and> list_all paired (cn_threads s) \<and> \<not> pending (makes k) (cn_threads s) \<and>
     (k \<in> set (gm_keys (clientMap kind (cn_pool s))) \<longrightarrow> pending (retires n k) (cn_threads s)) \<and>
     (c \<longrightarrow> pending (takes k) (cn_threads s) \<or> gm_get (mg_RamProvider (cn_pool s)) k = None \<or>
        k \<in> set (gm_keys (clientMap kind (cn_pool s))))"

lemma pending_goesOn:
  assumes "i < length ts" "ts ! i = a # rest" "list_ex P (a # rest) \<Longrightarrow> list_ex P as" "pending P ts"
  shows "pending P (goesOn i as ts)"
  using assms
proof (induction ts arbitrary: i)
  case (Cons t ts)
  then show ?case by (cases i) (auto simp: pending_def goesOn_def)
qed simp

lemma not_pending_goesOn:
  assumes "i < length ts" "\<not> list_ex P as" "\<not> pending P ts"
  shows "\<not> pending P (goesOn i as ts)"
  using assms
proof (induction ts arbitrary: i)
  case (Cons t ts)
  then show ?case by (cases i) (auto simp: pending_def goesOn_def)
qed simp

lemma pending_here: "i < length ts \<Longrightarrow> list_ex P as \<Longrightarrow> pending P (goesOn i as ts)"
  by (auto simp: pending_def goesOn_def list_ex_iff set_update_memI)

lemma pending_head: "i < length ts \<Longrightarrow> ts ! i = a # rest \<Longrightarrow> list_ex P (a # rest) \<Longrightarrow> pending P ts"
  unfolding pending_def by (metis list_ex_iff nth_mem)

lemma release_simps [simp]:
  "makes k (release o1 a) = makes k a" "takes k (release o1 a) = takes k a"
  "o1 \<noteq> Some k \<Longrightarrow> retires n k (release o1 a) = retires n k a"
  by (cases o1; cases a; auto)+

lemma pending_release [simp]:
  "pending (makes k) (map (map (release o1)) ts) = pending (makes k) ts"
  "pending (takes k) (map (map (release o1)) ts) = pending (takes k) ts"
  "o1 \<noteq> Some k \<Longrightarrow> pending (retires n k) (map (map (release o1)) ts) = pending (retires n k) ts"
  by (simp_all add: pending_def list_ex_iff)

lemma list_ex_release [simp]: "list_ex (takes k) (map (release o1) as) = list_ex (takes k) as"
  by (simp add: list_ex_iff)

lemma paired_release [simp]: "paired (map (release o1) as) = paired as"
proof (induction as)
  case (Cons a as)
  then show ?case by (cases a; cases o1) simp_all
qed simp

lemma paired_append: "paired as \<Longrightarrow> paired bs \<Longrightarrow> paired (as @ bs)"
  by (induction as) (auto split: action.split)

lemma list_ex_stops [simp]:
  "\<not> list_ex (makes k) (map StopInstance xs)" "\<not> list_ex (takes k) (map StopInstance xs)" "paired (map StopInstance xs)"
  "\<not> list_ex (retires n k) (map StopInstance xs)"
  by (induction xs) simp_all

lemma list_ex_deletes:
  "\<not> list_ex (makes k) (deletesOf n seen)" "paired (deletesOf n seen)"
  "k \<in> set seen \<Longrightarrow> key_family n k \<Longrightarrow> list_ex (takes k) (deletesOf n seen) \<and> list_ex (retires n' k) (deletesOf n seen)"
  by (induction seen) (auto simp: deletesOf_def deleteCall_def)

lemma paired_goesOn:
  assumes "list_all paired ts" "i < length ts" "paired as"
  shows "list_all paired (goesOn i as ts)"
  using assms set_update_subset_insert [of ts i as] by (auto simp: list_all_iff goesOn_def)

lemma client_after_act:
  assumes "\<not> ranges a" "\<not> makes k a"
  shows "k \<in> set (gm_keys (clientMap kind (fst (act kind a m)))) \<longleftrightarrow> k \<in> set (gm_keys (clientMap kind m)) \<and> a \<noteq> DropClient k"
  using assms
  by (cases a)
    (auto simp: clientMap_def putClient_def dropClient_def kms_Register_eq oos_Register_eq RegisterRamProvider_def StopProvider_def
      set_gm_keys split: pkind.splits option.split)

lemma refresher_after_act:
  assumes "pool_ok m" "\<not> ranges a" "\<not> makes k a"
  shows "gm_get (mg_RamProvider (fst (act kind a m))) k = (if takes k a then None else gm_get (mg_RamProvider m) k)"
  using assms by (cases a) (auto simp: RegisterRamProvider_def StopProvider_def pool_ok_def split: option.split)

lemma not_pending_head: "\<not> pending P ts \<Longrightarrow> i < length ts \<Longrightarrow> ts ! i = a # rest \<Longrightarrow> \<not> P a \<and> \<not> list_ex P rest"
  using pending_head [of i ts a rest P] by auto

lemma paired_head: "list_all paired ts \<Longrightarrow> i < length ts \<Longrightarrow> ts ! i = a # rest \<Longrightarrow> paired (a # rest)"
  by (metis list_all_length)

lemma retiring_step:
  assumes "pool_step kind s s'" "retiring c n k kind s" "key_family n k"
  shows "retiring c n k kind s'"
proof -
  let ?K = "set (gm_keys (clientMap kind (cn_pool s)))" and ?ts = "cn_threads s"
  have ok: "pool_ok (cn_pool s)" and pair: "list_all paired ?ts" and nomake: "\<not> pending (makes k) ?ts"
    and ret: "k \<in> ?K \<Longrightarrow> pending (retires n k) ?ts"
    and tak: "c \<Longrightarrow> pending (takes k) ?ts \<or> gm_get (mg_RamProvider (cn_pool s)) k = None \<or> k \<in> ?K"
    using assms(2) by (auto simp: retiring_def)
  show ?thesis
    using assms(1)
  proof cases
    case (action i a rest m todo stops)
    note at = action(2,3)
    let ?as = "map StopInstance todo @ rest"
    have m: "m = fst (act kind a (cn_pool s))" using action(5) by simp
    have a: "\<not> makes k a" "\<not> list_ex (makes k) rest" using not_pending_head [OF nomake at] by simp_all
    have touch: "a = DropClient k" if "touched a = Some k" using that a(1) by (cases a) simp_all
    note client = client_after_act [OF action(4) a(1), of kind "cn_pool s"]
    note refresher = refresher_after_act [OF ok action(4) a(1), of kind]
    have p: "paired (a # rest)" by (rule paired_head [OF pair at])
    have "\<not> pending (makes k) (goesOn i ?as ?ts)"
      using a(2) by (intro not_pending_goesOn [OF action(2) _ nomake]) simp
    moreover have "list_all paired (goesOn i ?as ?ts)"
      using p by (intro paired_goesOn [OF pair action(2)] paired_append) simp_all
    moreover have "pending (retires n k) (map (map (release (touched a))) (goesOn i ?as ?ts))"
      if "k \<in> set (gm_keys (clientMap kind m))"
    proof -
      have "k \<in> ?K" "a \<noteq> DropClient k" using that client m by simp_all
      moreover have "\<not> retires n k a" using action(4) \<open>a \<noteq> DropClient k\<close> by (cases a) simp_all
      ultimately show ?thesis
        using touch pending_goesOn [OF at _ ret, of ?as] by (cases "touched a = Some k") simp_all
    qed
    moreover have "pending (takes k) (goesOn i ?as ?ts) \<or> gm_get (mg_RamProvider m) k = None \<or> k \<in> set (gm_keys (clientMap kind m))" if c
    proof (cases "takes k a \<or> a = DropClient k")
      case True
      then show ?thesis using refresher m p pending_here [OF action(2), of "takes k" ?as] by auto
    next
      case False
      then show ?thesis using tak [OF that] refresher client m pending_goesOn [OF at, of "takes k" ?as] by auto
    qed
    ultimately show ?thesis
      using pool_ok_act [OF ok, of kind a] unfolding action(1) by (simp add: retiring_def m list_all_iff)
  next
    case (start i n' rest)
    let ?as = "Ranging n' (gm_keys (clientMap kind (cn_pool s))) [] # rest"
    have "pending (retires n k) (goesOn i ?as ?ts)" if "k \<in> ?K"
      using that pending_goesOn [OF start(2,3) _ ret, of ?as] by auto
    then show ?thesis
      using ok tak not_pending_goesOn [OF start(2) _ nomake, of ?as] not_pending_head [OF nomake start(2,3)]
        paired_goesOn [OF pair start(2), of ?as] paired_head [OF pair start(2,3)] pending_goesOn [OF start(2,3), of "takes k" ?as]
      unfolding start(1) by (auto simp: retiring_def)
  next
    case (visit i n' owed seen rest k')
    let ?as = "Ranging n' owed (seen @ [k']) # rest"
    have "pending (retires n k) (goesOn i ?as ?ts)" if "k \<in> ?K"
      using that pending_goesOn [OF visit(2,3) _ ret, of ?as] by auto
    then show ?thesis
      using ok tak not_pending_goesOn [OF visit(2) _ nomake, of ?as] not_pending_head [OF nomake visit(2,3)]
        paired_goesOn [OF pair visit(2), of ?as] paired_head [OF pair visit(2,3)] pending_goesOn [OF visit(2,3), of "takes k" ?as]
      unfolding visit(1) by (auto simp: retiring_def)
  next
    case (finish i n' owed seen rest)
    let ?as = "deletesOf n' seen @ rest"
    have "pending (retires n k) (goesOn i ?as ?ts)" if "k \<in> ?K"
      using that finish(4) list_ex_deletes(3) [where k = k and seen = seen and n = n'] assms(3) pending_goesOn [OF finish(2,3) _ ret, of ?as] by auto
    then show ?thesis
      using ok tak not_pending_goesOn [OF finish(2) _ nomake, of ?as] not_pending_head [OF nomake finish(2,3)]
        paired_goesOn [OF pair finish(2), of ?as] paired_head [OF pair finish(2,3)] pending_goesOn [OF finish(2,3), of "takes k" ?as]
        list_ex_deletes(1) [where k = k and seen = seen and n = n'] paired_append [OF list_ex_deletes(2) [of n' seen], of rest]
      unfolding finish(1) by (auto simp: retiring_def)
  qed
qed

lemma retiring_steps: "pool_steps kind s s' \<Longrightarrow> retiring c n k kind s \<Longrightarrow> key_family n k \<Longrightarrow> retiring c n k kind s'"
  by (induction rule: rtranclp_induct) (use retiring_step in \<open>blast+\<close>)

lemma client_key: "gm_get m k = None \<longleftrightarrow> k \<notin> set (gm_keys m)"
  by (metis gm_has_def gm_has_keys)

lemma quiescent_pending: "quiescent s \<Longrightarrow> \<not> pending P (cn_threads s)"
  by (auto simp: quiescent_def pending_def list_ex_iff)

lemma pending_mono: "pending P ts \<Longrightarrow> (\<And>a. P a \<Longrightarrow> Q a) \<Longrightarrow> pending Q ts"
  unfolding pending_def list_ex_iff by metis

lemma family_retired_steps:
  assumes "pool_steps kind s s'" "quiescent s'" "pool_ok (cn_pool s)" "list_all paired (cn_threads s)"
    and "pending (\<lambda>a. a = RangeStart n) (cn_threads s)" "\<not> pending (makes k) (cn_threads s)" "key_family n k"
  shows "gm_get (clientMap kind (cn_pool s')) k = None \<and>
    (gm_get (clientMap kind (cn_pool s)) k \<noteq> None \<longrightarrow> gm_get (mg_RamProvider (cn_pool s')) k = None)"
proof -
  have "pending (retires n k) (cn_threads s)" using assms(5) by (rule pending_mono) simp
  then have "retiring (k \<in> set (gm_keys (clientMap kind (cn_pool s)))) n k kind s"
    using assms(3,4,6) by (simp add: retiring_def)
  from retiring_steps [OF assms(1) this assms(7)] show ?thesis
    using quiescent_pending [OF assms(2)] by (auto simp: retiring_def client_key)
qed

text \<open>C11. The retirement of a family of clients holds under concurrency. When a thread deletes the
  clients of a store (\<open>DeletePrefixed\<close>) and no other call builds under one of its keys meanwhile, then
  once all calls have returned, however the calls interleaved, no client is served under that key; and a
  key that served a client before has lost its refresher too.\<close>

theorem retirement_survives_interleaving:
  assumes "pool_steps kind s s'" "quiescent s'" "pool_ok (cn_pool s)" "list_all paired (cn_threads s)"
    and "pending (\<lambda>a. a = RangeStart n) (cn_threads s)" "\<not> pending (makes k) (cn_threads s)" "key_family n k"
  shows "gm_get (clientMap kind (cn_pool s')) k = None \<and>
    (gm_get (clientMap kind (cn_pool s)) k \<noteq> None \<longrightarrow> gm_get (mg_RamProvider (cn_pool s')) k = None)"
  by (rule family_retired_steps [OF assms])

definition demoClient :: "nat \<Rightarrow> SecretClient" where
  "demoClient i = KMSClient (Some \<lparr>cl_clientName = ''cluster/s'', cl_sdk = Some i\<rparr>)"

theorem retirement_survives_interleaving_witness:
  "\<exists>s'. pool_steps KMS (starting (kms_Register (NewManager ''cn-hangzhou'') ''cluster/s#ep'' (demoClient 5))
       [rebuildClientCall ''cluster/s'' (demoClient 2) 7, deleteCall ''cluster/s#ep'', createClientCall ''cluster/t'' (demoClient 3) 8]) s' \<and>
     gm_get (clientMap KMS (cn_pool s')) ''cluster/s#ep'' = None \<and> gm_get (mg_RamProvider (cn_pool s')) ''cluster/s#ep'' = None"
proof -
  let ?m = "kms_Register (NewManager ''cn-hangzhou'') ''cluster/s#ep'' (demoClient 5)"
  let ?s = "starting ?m [rebuildClientCall ''cluster/s'' (demoClient 2) 7, deleteCall ''cluster/s#ep'', createClientCall ''cluster/t'' (demoClient 3) 8]"
  note calls = starting_def rebuildClientCall_def createClientCall_def registerRamCall_def registerCall_def deleteCall_def deletePrefixedCall_def
  obtain s' where s': "pool_steps KMS ?s s'" "quiescent s'"
    using quiesces [of KMS ?s] by (auto simp: allPayable_def calls)
  have "gm_get (clientMap KMS (cn_pool s')) ''cluster/s#ep'' = None \<and>
    (gm_get (clientMap KMS (cn_pool ?s)) ''cluster/s#ep'' \<noteq> None \<longrightarrow> gm_get (mg_RamProvider (cn_pool s')) ''cluster/s#ep'' = None)"
    by (rule retirement_survives_interleaving [OF s', of "''cluster/s''"])
      (simp_all add: calls pool_ok_Register pool_ok_NewManager pending_def key_family_def HasPrefix_iff)
  moreover have "gm_get (clientMap KMS (cn_pool ?s)) ''cluster/s#ep'' \<noteq> None"
    by (simp add: starting_def clientMap_def kms_Register_def demoClient_def)
  ultimately show ?thesis using s' by blast
qed

section \<open>Other keys are undisturbed\<close>

text \<open>The actions that reach the client or the refresher of a key; a \<open>Range\<close> reaches a key of its family that has
  a client.\<close>

fun aims :: "bool \<Rightarrow> string \<Rightarrow> action \<Rightarrow> bool" where
  "aims b k (StoreClient k' c) = (k' = k)"
| "aims b k (DropClient k') = (k' = k)"
| "aims b k (TakeRefresher k') = (k' = k)"
| "aims b k (SwapRefresher k' s) = (k' = k)"
| "aims b k (StopInstance s) = False"
| "aims b k (RangeStart n) = (b \<and> key_family n k)"
| "aims b k (Ranging n owed seen) = (key_family n k \<and> (b \<or> k \<in> set seen))"

text \<open>What a key holds: its client and its refresher.\<close>

definition slot :: "pkind \<Rightarrow> string \<Rightarrow> Manager \<Rightarrow> SecretClient option \<times> nat option option" where
  "slot kind k m = (gm_get (clientMap kind m) k, gm_get (mg_RamProvider m) k)"

definition spared :: "string \<Rightarrow> pkind \<Rightarrow> conc \<Rightarrow> bool" where
  "spared k kind s \<longleftrightarrow> pool_ok (cn_pool s) \<and> \<not> pending (aims (gm_get (clientMap kind (cn_pool s)) k \<noteq> None) k) (cn_threads s)"

lemma slot_act:
  assumes "pool_ok m" "\<not> ranges a" "\<not> aims b k a"
  shows "slot kind k (fst (act kind a m)) = slot kind k m"
  using assms
  by (cases a)
    (auto simp: slot_def clientMap_def putClient_def dropClient_def kms_Register_eq oos_Register_eq RegisterRamProvider_def
      StopProvider_def pool_ok_def split: pkind.splits option.split)

lemma aims_release [simp]: "pending (aims b k) (map (map (release o1)) ts) = pending (aims b k) ts"
proof -
  have "aims b k (release o1 a) = aims b k a" for a by (cases o1; cases a) auto
  then show ?thesis by (simp add: pending_def list_ex_iff)
qed

lemma aims_new [simp]:
  "\<not> list_ex (aims b k) (map StopInstance xs)"
  "list_ex (aims b k) (deletesOf n seen) \<longleftrightarrow> key_family n k \<and> k \<in> set seen"
  by (auto simp: list_ex_iff deletesOf_def deleteCall_def)

lemma spared_step:
  assumes "pool_step kind s s'" "spared k kind s"
  shows "spared k kind s' \<and> slot kind k (cn_pool s') = slot kind k (cn_pool s)"
proof -
  let ?b = "gm_get (clientMap kind (cn_pool s)) k \<noteq> None"
  have ok: "pool_ok (cn_pool s)" and no: "\<not> pending (aims ?b k) (cn_threads s)"
    using assms(2) by (simp_all add: spared_def)
  note head = not_pending_head [OF no] and put = not_pending_goesOn [OF _ _ no]
  show ?thesis
    using assms(1)
  proof cases
    case (action i a rest m todo stops)
    have m: "m = fst (act kind a (cn_pool s))" using action(5) by simp
    have at: "slot kind k m = slot kind k (cn_pool s)"
      unfolding m using head [OF action(2,3)] by (intro slot_act [OF ok action(4), of ?b]) blast
    then have "gm_get (clientMap kind m) k = gm_get (clientMap kind (cn_pool s)) k" by (simp add: slot_def)
    then show ?thesis
      using at head [OF action(2,3)] put [OF action(2), of "map StopInstance todo @ rest"] pool_ok_act [OF ok, of kind a] m
      unfolding action(1) by (simp add: spared_def)
  next
    case (start i n rest)
    then show ?thesis using ok head [OF start(2,3)] put [OF start(2), of "Ranging n (gm_keys (clientMap kind (cn_pool s))) [] # rest"]
      by (auto simp: spared_def)
  next
    case (visit i n owed seen rest k')
    then have "key_family n k \<Longrightarrow> k' \<noteq> k" using head [OF visit(2,3)] by (auto simp: client_key)
    then show ?thesis using visit ok head [OF visit(2,3)] put [OF visit(2), of "Ranging n owed (seen @ [k']) # rest"]
      by (auto simp: spared_def)
  next
    case (finish i n owed seen rest)
    then show ?thesis using ok head [OF finish(2,3)] put [OF finish(2), of "deletesOf n seen @ rest"] by (simp add: spared_def)
  qed
qed

lemma spared_steps:
  "pool_steps kind s s' \<Longrightarrow> spared k kind s \<Longrightarrow> spared k kind s' \<and> slot kind k (cn_pool s') = slot kind k (cn_pool s)"
  by (induction rule: rtranclp_induct) (use spared_step in \<open>simp, metis\<close>)

section \<open>The atomic operations are the calls run alone\<close>

definition atomicDeletePrefixed :: "pkind \<Rightarrow> Manager \<Rightarrow> string \<Rightarrow> Manager \<times> nat list" where
  "atomicDeletePrefixed kind = (case kind of KMS \<Rightarrow> kms_DeletePrefixed | OOS \<Rightarrow> oos_DeletePrefixed)"

lemma inPool_lookups:
  assumes "pool_ok m" "pool_ok m'" "\<And>k. gm_get (mg_RamProvider m) k = gm_get (mg_RamProvider m') k"
  shows "inPool m = inPool m'"
proof -
  let ?r = "mg_RamProvider m" and ?r' = "mg_RamProvider m'"
  have d: "distinct (map fst ?r)" "distinct (map fst ?r')" using assms(1,2) by (simp_all add: pool_ok_def gm_ok_def)
  have "map_of ?r = map_of ?r'" using assms(3) by (simp add: fun_eq_iff gm_get_def)
  then have "set ?r = set ?r'" using d map_of_inject_set by metis
  moreover have "distinct ?r" "distinct ?r'" using d by (simp_all add: distinct_map)
  ultimately have "mset ?r = mset ?r'" by (simp add: set_eq_iff_mset_eq_distinct)
  then show ?thesis unfolding inPool_def sum_mset_sum_list [symmetric] mset_map by simp
qed

lemma StopProvider_conserves:
  assumes "pool_ok m"
  shows "inPool (fst (StopProvider k m)) + mset (snd (StopProvider k m)) = inPool m"
  using act_conserves [OF assms, of "TakeRefresher k"] by simp

lemma deleteAll_conserves:
  assumes "\<And>m k. pool_ok m \<Longrightarrow> pool_ok (fst (del m k)) \<and> inPool (fst (del m k)) + mset (snd (del m k)) = inPool m" "pool_ok m"
  shows "inPool (fst (deleteAll del m ks)) + mset (snd (deleteAll del m ks)) = inPool m"
  using assms(2)
proof (induction ks arbitrary: m)
  case (Cons k ks)
  have "inPool m = inPool (fst (del m k)) + mset (snd (del m k))" using assms(1) [OF Cons.prems] by simp
  also have "inPool (fst (del m k)) = inPool (fst (deleteAll del (fst (del m k)) ks)) + mset (snd (deleteAll del (fst (del m k)) ks))"
    using Cons.IH assms(1) [OF Cons.prems] by simp
  finally show ?case by (simp add: split_beta)
qed simp

lemma Delete_conserves:
  assumes "pool_ok m"
  shows "inPool (fst (kms_Delete m k)) + mset (snd (kms_Delete m k)) = inPool m"
    and "inPool (fst (oos_Delete m k)) + mset (snd (oos_Delete m k)) = inPool m"
proof -
  have "pool_ok (m\<lparr>mg_KmsClientMap := gm_del (mg_KmsClientMap m) k\<rparr>)" "pool_ok (m\<lparr>mg_OosClientMap := gm_del (mg_OosClientMap m) k\<rparr>)"
    using assms by (simp_all add: pool_ok_def)
  from this [THEN StopProvider_conserves, of k]
  show "inPool (fst (kms_Delete m k)) + mset (snd (kms_Delete m k)) = inPool m"
    "inPool (fst (oos_Delete m k)) + mset (snd (oos_Delete m k)) = inPool m"
    by (simp_all add: kms_Delete_def oos_Delete_def inPool_ram)
qed

lemma atomicDeletePrefixed_facts:
  assumes "pool_ok m"
  shows "pool_ok (fst (atomicDeletePrefixed kind m n))"
    and "slot kind k (fst (atomicDeletePrefixed kind m n)) =
      (if key_family n k \<and> gm_get (clientMap kind m) k \<noteq> None then (None, None) else slot kind k m)"
    and "inPool (fst (atomicDeletePrefixed kind m n)) + mset (snd (atomicDeletePrefixed kind m n)) = inPool m"
proof -
  have ram: "gm_get (mg_RamProvider (fst (deleteAll kms_Delete m ks))) k = (if k \<in> set ks then None else gm_get (mg_RamProvider m) k)"
    "gm_get (mg_RamProvider (fst (deleteAll oos_Delete m ks))) k = (if k \<in> set ks then None else gm_get (mg_RamProvider m) k)" for ks
    by (rule deleteAll_ram; auto simp: Delete_ram assms)+
  note defs = atomicDeletePrefixed_def kms_DeletePrefixed_def oos_DeletePrefixed_def
  show "pool_ok (fst (atomicDeletePrefixed kind m n))"
    using kms.ok_delete_prefixed [OF assms] oos.ok_delete_prefixed [OF assms] by (cases kind) (simp_all add: atomicDeletePrefixed_def)
  show "slot kind k (fst (atomicDeletePrefixed kind m n)) =
      (if key_family n k \<and> gm_get (clientMap kind m) k \<noteq> None then (None, None) else slot kind k m)"
    by (cases kind) (auto simp: slot_def clientMap_def defs deleteAll_kms_get deleteAll_oos_get assms ram staleKeys_iff)
  show "inPool (fst (atomicDeletePrefixed kind m n)) + mset (snd (atomicDeletePrefixed kind m n)) = inPool m"
    using deleteAll_conserves [OF _ assms, of kms_Delete] deleteAll_conserves [OF _ assms, of oos_Delete]
    by (cases kind) (auto simp: defs Delete_conserves)
qed

text \<open>C32. \<open>DeletePrefixed\<close> run by one thread, visiting the keys of the \<open>sync.Map\<close> in any order, does what the atomic operation of the model does: every key has the same client and the same
  refresher afterwards, and the same refreshers have been stopped.\<close>

theorem range_refines_DeletePrefixed:
  assumes "pool_steps kind (starting m [deletePrefixedCall n]) s'" "quiescent s'" "pool_ok m"
  shows "slot kind k (cn_pool s') = slot kind k (fst (atomicDeletePrefixed kind m n)) \<and>
    mset (cn_stopped s') = mset (snd (atomicDeletePrefixed kind m n))"
proof -
  let ?s = "starting m [deletePrefixedCall n]" and ?m = "fst (atomicDeletePrefixed kind m n)"
  have pool: "cn_pool ?s = m" "cn_threads ?s = [[RangeStart n]]" "cn_stopped ?s = []"
    by (simp_all add: starting_def deletePrefixedCall_def)
  have inv: "pool_ok (cn_pool s')" "whereabouts s' = whereabouts ?s"
    using pool_steps_invariant [OF assms(1)] assms(3) by (simp_all add: pool)
  have slots: "slot kind k (cn_pool s') = slot kind k ?m" for k
  proof (cases "key_family n k \<and> gm_get (clientMap kind m) k \<noteq> None")
    case True
    then show ?thesis
      using family_retired_steps [OF assms(1,2), of n k] assms(3)
      by (simp add: pool pending_def atomicDeletePrefixed_facts [OF assms(3)]) (simp add: slot_def)
  next
    case False
    then have "spared k kind ?s" using assms(3) by (auto simp: spared_def pool pending_def)
    then show ?thesis
      using spared_steps [OF assms(1)] False by (auto simp: atomicDeletePrefixed_facts [OF assms(3)] pool)
  qed
  have "inPool (cn_pool s') = inPool ?m"
    using slots by (intro inPool_lookups inv atomicDeletePrefixed_facts assms(3)) (simp add: slot_def)
  moreover have "inPool (cn_pool s') + mset (cn_stopped s') = inPool m"
    using inv(2) by (simp add: whereabouts_def quiescent_holds [OF assms(2)] pool)
  ultimately have "mset (cn_stopped s') = mset (snd (atomicDeletePrefixed kind m n))"
    using atomicDeletePrefixed_facts(3) [OF assms(3), of kind n] by (metis add_left_cancel)
  with slots show ?thesis by blast
qed

theorem range_refines_DeletePrefixed_witness:
  "\<exists>s'. pool_steps KMS (starting (kms_Register (NewManager ''cn-hangzhou'') ''cluster/s#ep'' (demoClient 5)) [deletePrefixedCall ''cluster/s'']) s' \<and>
     slot KMS ''cluster/s#ep'' (cn_pool s') = (None, None)"
proof -
  let ?m = "kms_Register (NewManager ''cn-hangzhou'') ''cluster/s#ep'' (demoClient 5)"
  let ?s = "starting ?m [deletePrefixedCall ''cluster/s'']"
  obtain s' where s': "pool_steps KMS ?s s'" "quiescent s'"
    using quiesces [of KMS ?s] by (auto simp: allPayable_def starting_def deletePrefixedCall_def)
  have ok: "pool_ok ?m" by (intro pool_ok_Register pool_ok_NewManager)
  have "key_family ''cluster/s'' ''cluster/s#ep''" "gm_get (clientMap KMS ?m) ''cluster/s#ep'' \<noteq> None"
    by (simp_all add: key_family_def HasPrefix_iff clientMap_def kms_Register_def demoClient_def)
  with range_refines_DeletePrefixed [OF s' ok, of "''cluster/s#ep''"] s'(1) show ?thesis
    by (auto simp: atomicDeletePrefixed_facts(2) [OF ok])
qed

section \<open>Every call returns\<close>

text \<open>The actions a call consists of, before it runs.\<close>

fun begun :: "action \<Rightarrow> bool" where
  "begun (Ranging n owed seen) = True"
| "begun _ = False"

lemma allPayable_steps: "pool_steps kind s s' \<Longrightarrow> allPayable kind s \<Longrightarrow> allPayable kind s'"
  by (induction rule: rtranclp_induct) (use allPayable_step in \<open>blast+\<close>)

lemma quiescent_no_step: "quiescent s \<Longrightarrow> \<not> pool_step kind s s'"
proof
  assume "quiescent s" "pool_step kind s s'"
  then have idle: "i < length (cn_threads s) \<Longrightarrow> cn_threads s ! i = []" for i by (simp add: quiescent_def)
  from \<open>pool_step kind s s'\<close> show False by (rule pool_stepE) (use idle in auto)
qed

lemma allPayable_starting:
  assumes "\<not> pending begun ts"
  shows "allPayable kind (starting m ts)"
proof -
  have "payable K a" if "\<not> begun a" for K a using that by (cases a) simp_all
  then show ?thesis using assms by (auto simp: allPayable_def starting_def pending_def list_all_iff list_ex_iff)
qed



section \<open>Two builds of the same client\<close>

text \<open>A \<open>Range\<close> can visit what it likes of the map before it finishes; here, everything.\<close>

lemma range_runs:
  assumes "set ks \<subseteq> set (gm_keys (clientMap kind m))" "i < length ts"
  shows "\<exists>seen'. set seen' = set seen \<union> set ks \<and>
    pool_steps kind \<lparr>cn_pool = m, cn_threads = goesOn i (Ranging n owed seen # rest) ts, cn_stopped = st\<rparr>
      \<lparr>cn_pool = m, cn_threads = goesOn i (Ranging n owed seen' # rest) ts, cn_stopped = st\<rparr>"
  using assms
proof (induction ks arbitrary: seen)
  case (Cons k ks)
  show ?case
  proof (cases "k \<in> set seen")
    case True
    then show ?thesis using Cons.IH [of seen] Cons.prems by (simp add: insert_absorb)
  next
    case False
    have "pool_step kind \<lparr>cn_pool = m, cn_threads = goesOn i (Ranging n owed seen # rest) ts, cn_stopped = st\<rparr>
      \<lparr>cn_pool = m, cn_threads = goesOn i (Ranging n owed (seen @ [k]) # rest) ts, cn_stopped = st\<rparr>"
      using pool_step.visit [of i "\<lparr>cn_pool = m, cn_threads = goesOn i (Ranging n owed seen # rest) ts, cn_stopped = st\<rparr>" n owed seen rest k kind]
        Cons.prems False by (simp add: goesOn_def)
    then show ?thesis
      using Cons.IH [of "seen @ [k]"] Cons.prems by (auto intro: converse_rtranclp_into_rtranclp)
  qed
qed auto

lemma range_call:
  assumes "i < length ts" "ts ! i = RangeStart n # rest"
  shows "\<exists>seen. set seen = set (gm_keys (clientMap kind m)) \<and>
    pool_steps kind \<lparr>cn_pool = m, cn_threads = ts, cn_stopped = st\<rparr>
      \<lparr>cn_pool = m, cn_threads = goesOn i (deletesOf n seen @ rest) ts, cn_stopped = st\<rparr>"
proof -
  let ?ks = "gm_keys (clientMap kind m)"
  let ?at = "\<lambda>as. \<lparr>cn_pool = m, cn_threads = goesOn i as ts, cn_stopped = st\<rparr>"
  have 1: "pool_step kind \<lparr>cn_pool = m, cn_threads = ts, cn_stopped = st\<rparr> (?at (Ranging n ?ks [] # rest))"
    using pool_step.start [of i "\<lparr>cn_pool = m, cn_threads = ts, cn_stopped = st\<rparr>" n rest kind] assms by simp
  obtain seen where seen: "set seen = set ?ks" and 2: "pool_steps kind (?at (Ranging n ?ks [] # rest)) (?at (Ranging n ?ks seen # rest))"
    using range_runs [of ?ks kind m i ts "[]" n ?ks rest st] assms(1) by auto
  have 3: "pool_step kind (?at (Ranging n ?ks seen # rest)) (?at (deletesOf n seen @ rest))"
    using pool_step.finish [of i "?at (Ranging n ?ks seen # rest)" n ?ks seen rest kind] assms(1) seen by (simp add: goesOn_def)
  show ?thesis using seen 1 2 3 by (meson converse_rtranclp_into_rtranclp rtranclp.rtrancl_into_rtrancl)
qed

text \<open>The pool accepts the client: it is of the pool's kind and carries an SDK client.\<close>

definition accepts :: "pkind \<Rightarrow> SecretClient \<Rightarrow> bool" where
  "accepts kind c = (case kind of KMS \<Rightarrow> kms_client c | OOS \<Rightarrow> oos_client c)"

lemma putClient_clients:
  "accepts kind c \<Longrightarrow> clientMap kind (putClient kind k c m) = gm_put (clientMap kind m) k c"
  by (cases kind) (simp_all add: accepts_def putClient_def clientMap_def kms_Register_eq oos_Register_eq)

text \<open>C14. A consumer's build on a cache miss can undo a rebuild. \<open>getOrCreateClient\<close> consults the freshness guard only
  for a cached client; a consumer that found none builds one, registers its refresher and later stores it.
  If the store controller rebuilds the client in between, then after both have returned the pool serves the
  consumer's older client, under the refresher of the newer one, and the older client's refresher has
  been stopped: its credential is no longer renewed.\<close>

theorem overlapping_builds_serve_stopped_client:
  assumes "pool_ok m" "accepts kind c1" "accepts kind c2" "gm_get (mg_RamProvider m) n = None"
    and "\<And>k. key_family n k \<Longrightarrow> gm_get (clientMap kind m) k = None"
  shows "\<exists>s'. pool_steps kind (starting m [createClientCall n c1 older, rebuildClientCall n c2 newer]) s' \<and> quiescent s' \<and>
    slot kind n (cn_pool s') = (Some c1, Some (Some newer)) \<and> cn_stopped s' = [older]"
proof -
  note simps = goesOn_def touched.simps release.simps act.simps
  let ?m1 = "fst (RegisterRamProvider n (Some older) m)"
  let ?m2 = "fst (RegisterRamProvider n (Some newer) ?m1)"
  let ?m3 = "putClient kind n c2 ?m2"
  let ?m4 = "putClient kind n c1 ?m3"
  have lock: "mg_RamLock m" using assms(1) by (simp add: pool_ok_def)
  have ram: "snd (RegisterRamProvider n (Some older) m) = []" "snd (RegisterRamProvider n (Some newer) ?m1) = [older]"
    "gm_get (mg_RamProvider ?m2) n = Some (Some newer)"
    using lock assms(4) by (simp_all add: RegisterRamProvider_def stopped_def)
  let ?at = "\<lambda>p ts st. \<lparr>cn_pool = p, cn_threads = ts, cn_stopped = st\<rparr>"
  have 1: "pool_step kind (starting m [createClientCall n c1 older, rebuildClientCall n c2 newer])
     (?at ?m1 [[StoreClient n c1], [RangeStart n, SwapRefresher n (Some newer), StoreClient n c2]] [])"
    using act_step [of 0 "[createClientCall n c1 older, rebuildClientCall n c2 newer]" _ _ kind m "[]"]
    by (simp add: starting_def createClientCall_def rebuildClientCall_def registerRamCall_def registerCall_def deletePrefixedCall_def simps ram)
  obtain seen where seen: "set seen = set (gm_keys (clientMap kind ?m1))"
    and 2: "pool_steps kind (?at ?m1 [[StoreClient n c1], [RangeStart n, SwapRefresher n (Some newer), StoreClient n c2]] [])
      (?at ?m1 (goesOn 1 (deletesOf n seen @ [SwapRefresher n (Some newer), StoreClient n c2])
        [[StoreClient n c1], [RangeStart n, SwapRefresher n (Some newer), StoreClient n c2]]) [])"
    using range_call [of 1 "[[StoreClient n c1], [RangeStart n, SwapRefresher n (Some newer), StoreClient n c2]]" n
        "[SwapRefresher n (Some newer), StoreClient n c2]" kind ?m1 "[]"] by auto
  have "clientMap kind ?m1 = clientMap kind m" by (cases kind) (simp_all add: clientMap_def RegisterRamProvider_def)
  then have "filter (key_family n) seen = []" using seen assms(5) by (auto simp: filter_empty_conv client_key)
  then have none: "deletesOf n seen = []" by (simp add: deletesOf_def)
  have 3: "pool_step kind (?at ?m1 [[StoreClient n c1], [SwapRefresher n (Some newer), StoreClient n c2]] [])
      (?at ?m2 [[StoreClient n c1], [StopInstance older, StoreClient n c2]] [])"
    using act_step [of 1 "[[StoreClient n c1], [SwapRefresher n (Some newer), StoreClient n c2]]" _ _ kind ?m1 "[]"]
    by (simp add: simps ram)
  have 4: "pool_step kind (?at ?m2 [[StoreClient n c1], [StopInstance older, StoreClient n c2]] [])
      (?at ?m2 [[StoreClient n c1], [StoreClient n c2]] [older])"
    using act_step [of 1 "[[StoreClient n c1], [StopInstance older, StoreClient n c2]]" _ _ kind ?m2 "[]"] by (simp add: simps)
  have 5: "pool_step kind (?at ?m2 [[StoreClient n c1], [StoreClient n c2]] [older]) (?at ?m3 [[StoreClient n c1], []] [older])"
    using act_step [of 1 "[[StoreClient n c1], [StoreClient n c2]]" _ _ kind ?m2 "[older]"] by (simp add: simps)
  have 6: "pool_step kind (?at ?m3 [[StoreClient n c1], []] [older]) (?at ?m4 [[], []] [older])"
    using act_step [of 0 "[[StoreClient n c1], []]" _ _ kind ?m3 "[older]"] by (simp add: simps)
  have "pool_steps kind (starting m [createClientCall n c1 older, rebuildClientCall n c2 newer]) (?at ?m4 [[], []] [older])"
    using 1 2 3 4 5 6 by (simp add: none goesOn_def)
  moreover have "slot kind n ?m4 = (Some c1, Some (Some newer))"
    using ram(3) by (simp add: slot_def putClient_clients assms(2,3))
  ultimately show ?thesis by (auto simp: quiescent_def)
qed

theorem overlapping_builds_serve_stopped_client_witness:
  "\<exists>s'. pool_steps KMS (starting (NewManager ''cn-hangzhou'') [createClientCall ''cluster/s'' (demoClient 5) 7, rebuildClientCall ''cluster/s'' (demoClient 6) 8]) s' \<and>
     quiescent s' \<and> slot KMS ''cluster/s'' (cn_pool s') = (Some (demoClient 5), Some (Some 8)) \<and> cn_stopped s' = [7]"
  by (rule overlapping_builds_serve_stopped_client [OF pool_ok_NewManager])
    (simp_all add: accepts_def kms_client_def demoClient_def NewManager_def gm_empty_def gm_get_def clientMap_def)

end
