(* ===== verification/Rotation.thy ===== *)
theory Rotation
  imports Dispatch
begin

text \<open>
  Rotating a credential while the controllers run: one store (of either kind), the Secret its client is
  built from, the Secret controller (\<open>controller/secret/secret_controller.go\<close>) and the store controller
  (\<open>controller/secretstore/secretstore_controller.go\<close>). Each \<open>Reconcile\<close> is cut at its calls of the API server, so
  the two rounds interleave, and credentials may change and rounds may fail between any two calls. Each
  controller runs one round at a time for an object, which is what the work queue guarantees.

  A turn is due when the filter of the controller lets the event of a change pass, or after an error. The
  rounds stand for those of a store with its finalizer and a valid spec that is not being deleted. A
  successful status write and a successful clearing patch are one step with the read before them: both
  carry the version they read. One step stands for the reads of one Secret by the auth code.
\<close>

section \<open>The state\<close>

datatype secretRound = SecretIdle | Listed store

datatype storeRound =
    StoreIdle | Fetched store | Retired store | Authenticated store "bytes gomap" | Registered store | Recorded store

record rotation =
  ro_secret :: Secret                    \<comment> \<open>the credential at the API server\<close>
  ro_store :: store                      \<comment> \<open>the store at the API server\<close>
  ro_client :: "bytes gomap option"      \<comment> \<open>the data the registered client was built from\<close>
  ro_secretDue :: bool
  ro_storeDue :: bool
  ro_secretRound :: secretRound
  ro_storeRound :: storeRound

definition snapshot :: "storeRound \<Rightarrow> store option" where
  "snapshot r = (case r of StoreIdle \<Rightarrow> None | Fetched s \<Rightarrow> Some s | Retired s \<Rightarrow> Some s | Authenticated s _ \<Rightarrow> Some s
     | Registered s \<Rightarrow> Some s | Recorded s \<Rightarrow> Some s)"

text \<open>A write to the store, with the event it causes.\<close>

definition wakes :: "store \<Rightarrow> store \<Rightarrow> bool" where
  "wakes old new = (case (old, new) of
      (SS a, SS b) \<Rightarrow> SecretStorePredicate (Updated False a b)
    | (CSS a, CSS b) \<Rightarrow> ClusterSecretStorePredicate (Updated False a b)
    | _ \<Rightarrow> False)"

definition writeStore :: "store \<Rightarrow> rotation \<Rightarrow> rotation" where
  "writeStore new \<sigma> = \<sigma>\<lparr>ro_store := new, ro_storeDue := ro_storeDue \<sigma> \<or> wakes (ro_store \<sigma>) new\<rparr>"

text \<open>The status of the round's store is written onto the store at the API server, unless it says nothing new.\<close>

definition reportStatus :: "int \<Rightarrow> store \<Rightarrow> SecretStoreStatusCondition \<Rightarrow> bool \<Rightarrow> rotation \<Rightarrow> rotation" where
  "reportStatus now s condition bump \<sigma> =
     (if \<not> bump \<and> alreadySaid s condition then \<sigma>
      else writeStore (setStatus (proposedStatus now s condition bump) (ro_store \<sigma>)) \<sigma>)"

section \<open>The Secret controller\<close>

datatype secretMove = SecretLists | SecretSkips | SecretPatches string

text \<open>The value of a patch is the clock in nanoseconds: not a value in use.\<close>

definition unusedValue :: "string \<Rightarrow> rotation \<Rightarrow> bool" where
  "unusedValue v \<sigma> \<longleftrightarrow> v \<noteq> [] \<and> v \<noteq> triggerOf (ro_store \<sigma>) \<and>
     (case snapshot (ro_storeRound \<sigma>) of None \<Rightarrow> True | Some s \<Rightarrow> v \<noteq> triggerOf s)"

definition secretStep :: "secretMove \<Rightarrow> rotation \<Rightarrow> rotation option" where
  "secretStep m \<sigma> = (case m of
      SecretLists \<Rightarrow>
        if ro_secretDue \<sigma> \<and> ro_secretRound \<sigma> = SecretIdle
        then Some (\<sigma>\<lparr>ro_secretDue := False, ro_secretRound := Listed (ro_store \<sigma>)\<rparr>) else None
    | SecretSkips \<Rightarrow> (case ro_secretRound \<sigma> of
         Listed s \<Rightarrow> if triggerOf s \<noteq> [] then Some (\<sigma>\<lparr>ro_secretRound := SecretIdle\<rparr>) else None
       | SecretIdle \<Rightarrow> None)
    | SecretPatches v \<Rightarrow> (case ro_secretRound \<sigma> of
         Listed s \<Rightarrow>
           if triggerOf s = [] \<and> unusedValue v \<sigma>
           then Some ((writeStore (withTrigger v (ro_store \<sigma>)) \<sigma>)\<lparr>ro_secretRound := SecretIdle\<rparr>) else None
       | SecretIdle \<Rightarrow> None))"

section \<open>The store controller\<close>

datatype storeMove =
    StoreFetches | StoreKeeps int | StoreRetires | StoreReads | StoreRegisters | StoreRecords int
  | StoreFinishes | StoreClears | StoreRequeues

definition needsRebuild :: "store \<Rightarrow> rotation \<Rightarrow> bool" where
  "needsRebuild s \<sigma> \<longleftrightarrow> triggerOf s \<noteq> [] \<or> ro_client \<sigma> = None \<or>
     ReadyConditionObservedGeneration (st_Conditions (st_Status s)) \<noteq> (m_Generation (st_meta s), True)"

definition withCapabilities :: "store \<Rightarrow> store" where
  "withCapabilities s = setStatus ((st_Status s)\<lparr>st_Capabilities := SecretStoreReadOnly\<rparr>) s"

definition storeStep :: "storeMove \<Rightarrow> rotation \<Rightarrow> rotation option" where
  "storeStep m \<sigma> = (case (m, ro_storeRound \<sigma>) of
      (StoreFetches, StoreIdle) \<Rightarrow>
        if ro_storeDue \<sigma> then Some (\<sigma>\<lparr>ro_storeDue := False, ro_storeRound := Fetched (ro_store \<sigma>)\<rparr>) else None
    | (StoreKeeps now, Fetched s) \<Rightarrow>
        if needsRebuild s \<sigma> then None
        else Some ((reportStatus now s (newCondition ConditionTrue ReasonStoreValid [] 0) False \<sigma>)\<lparr>ro_storeRound := StoreIdle\<rparr>)
    | (StoreRetires, Fetched s) \<Rightarrow>
        if needsRebuild s \<sigma> then Some (\<sigma>\<lparr>ro_client := None, ro_storeRound := Retired s\<rparr>) else None
    | (StoreReads, Retired s) \<Rightarrow> Some (\<sigma>\<lparr>ro_storeRound := Authenticated s (sec_Data (ro_secret \<sigma>))\<rparr>)
    | (StoreRegisters, Authenticated s d) \<Rightarrow> Some (\<sigma>\<lparr>ro_client := Some d, ro_storeRound := Registered s\<rparr>)
    | (StoreRecords now, Registered s) \<Rightarrow>
        Some ((reportStatus now (withCapabilities s) (newCondition ConditionTrue ReasonStoreValid [] (m_Generation (st_meta s))) True \<sigma>)
          \<lparr>ro_storeRound := Recorded s\<rparr>)
    | (StoreFinishes, Recorded s) \<Rightarrow> if triggerOf s = [] then Some (\<sigma>\<lparr>ro_storeRound := StoreIdle\<rparr>) else None
    | (StoreClears, Recorded s) \<Rightarrow>
        if triggerOf s \<noteq> [] \<and> triggerOf (ro_store \<sigma>) = triggerOf s
        then Some ((writeStore (withoutTrigger (ro_store \<sigma>)) \<sigma>)\<lparr>ro_storeRound := StoreIdle\<rparr>) else None
    | (StoreRequeues, Recorded s) \<Rightarrow>
        if triggerOf s \<noteq> [] \<and> triggerOf (ro_store \<sigma>) \<noteq> triggerOf s
        then Some (\<sigma>\<lparr>ro_storeDue := True, ro_storeRound := StoreIdle\<rparr>) else None
    | _ \<Rightarrow> None)"

section \<open>What happens meanwhile\<close>

text \<open>The credential changes, a user sets the trigger, the period elapses, a round fails and is queued again; a round of
  the Secret controller also fails on other stores, before or after its turn for this one. A rebuild
  that fails reports so in the status, if it can.\<close>

datatype disturbance = Rotate Secret | Annotate string | Period | SecretFails | StoreFails "(int \<times> string) option"

definition storeFailure :: "(int \<times> string) option \<Rightarrow> store \<Rightarrow> rotation \<Rightarrow> rotation" where
  "storeFailure w s \<sigma> = (case w of
      None \<Rightarrow> \<sigma>
    | Some (now, message) \<Rightarrow> reportStatus now s (newCondition ConditionFalse ReasonClientCreationFailed message 0) False \<sigma>)
      \<lparr>ro_storeDue := True, ro_storeRound := StoreIdle\<rparr>"

definition rebuilding :: "storeRound \<Rightarrow> bool" where
  "rebuilding r = (case r of Retired _ \<Rightarrow> True | Authenticated _ _ \<Rightarrow> True | _ \<Rightarrow> False)"

definition disturb :: "disturbance \<Rightarrow> rotation \<Rightarrow> rotation option" where
  "disturb d \<sigma> = (case d of
      Rotate new \<Rightarrow>
        if gm_ok (sec_Data new)
        then Some (\<sigma>\<lparr>ro_secret := new, ro_secretDue := ro_secretDue \<sigma> \<or> secretEventAdmitted (Updated False (ro_secret \<sigma>) new)\<rparr>) else None
    | Annotate v \<Rightarrow> if v \<noteq> [] then Some (writeStore (withTrigger v (ro_store \<sigma>)) \<sigma>) else None
    | Period \<Rightarrow> Some (\<sigma>\<lparr>ro_storeDue := True\<rparr>)
    | SecretFails \<Rightarrow> Some (\<sigma>\<lparr>ro_secretDue := True, ro_secretRound := SecretIdle\<rparr>)
    | StoreFails w \<Rightarrow> (case snapshot (ro_storeRound \<sigma>) of
         Some s \<Rightarrow> if w \<noteq> None \<and> \<not> rebuilding (ro_storeRound \<sigma>) then None else Some (storeFailure w s \<sigma>)
       | None \<Rightarrow> None))"

section \<open>Runs\<close>

datatype move = Outside disturbance | SecretDoes secretMove | StoreDoes storeMove

definition moves :: "move \<Rightarrow> rotation \<Rightarrow> rotation option" where
  "moves m \<sigma> = (case m of Outside d \<Rightarrow> disturb d \<sigma> | SecretDoes n \<Rightarrow> secretStep n \<sigma> | StoreDoes n \<Rightarrow> storeStep n \<sigma>)"

fun performs :: "move list \<Rightarrow> rotation \<Rightarrow> rotation option" where
  "performs [] \<sigma> = Some \<sigma>"
| "performs (m # ms) \<sigma> = (case moves m \<sigma> of None \<Rightarrow> None | Some \<tau> \<Rightarrow> performs ms \<tau>)"

text \<open>Runs in which every move is one the first argument permits.\<close>

inductive runs :: "(rotation \<Rightarrow> move \<Rightarrow> bool) \<Rightarrow> rotation \<Rightarrow> rotation \<Rightarrow> bool" for permits \<sigma> where
  here: "runs permits \<sigma> \<sigma>"
| onward: "runs permits \<sigma> \<tau> \<Longrightarrow> permits \<tau> m \<Longrightarrow> moves m \<tau> = Some \<upsilon> \<Longrightarrow> runs permits \<sigma> \<upsilon>"

definition byController :: "move \<Rightarrow> bool" where
  "byController m = (case m of Outside _ \<Rightarrow> False | _ \<Rightarrow> True)"

definition idle :: "rotation \<Rightarrow> bool" where
  "idle \<sigma> \<longleftrightarrow> \<not> ro_secretDue \<sigma> \<and> \<not> ro_storeDue \<sigma> \<and> ro_secretRound \<sigma> = SecretIdle \<and> ro_storeRound \<sigma> = StoreIdle"

definition current :: "rotation \<Rightarrow> bytes gomap \<Rightarrow> bool" where
  "current \<sigma> d \<longleftrightarrow> gm_eq d (sec_Data (ro_secret \<sigma>))"

definition servesCurrent :: "rotation \<Rightarrow> bool" where
  "servesCurrent \<sigma> \<longleftrightarrow> (case ro_client \<sigma> of None \<Rightarrow> False | Some d \<Rightarrow> current \<sigma> d)"

text \<open>A round for a trigger has read the credential and not yet finished.\<close>

definition exposed :: "rotation \<Rightarrow> bool" where
  "exposed \<sigma> = (case ro_storeRound \<sigma> of
      Authenticated s _ \<Rightarrow> triggerOf s \<noteq> []
    | Registered s \<Rightarrow> triggerOf s \<noteq> []
    | Recorded s \<Rightarrow> triggerOf s \<noteq> []
    | _ \<Rightarrow> False)"

definition spaced :: "rotation \<Rightarrow> move \<Rightarrow> bool" where
  "spaced \<sigma> m = (case m of Outside (Rotate _) \<Rightarrow> \<not> exposed \<sigma> | _ \<Rightarrow> True)"

text \<open>The process starts: no client, a turn for the store, perhaps one for the Secret.\<close>

definition startsUp :: "rotation \<Rightarrow> bool" where
  "startsUp \<sigma> \<longleftrightarrow> ro_client \<sigma> = None \<and> ro_storeDue \<sigma> \<and> ro_secretRound \<sigma> = SecretIdle \<and> ro_storeRound \<sigma> = StoreIdle \<and>
     gm_ok (sec_Data (ro_secret \<sigma>)) \<and> gm_ok (m_Annotations (st_meta (ro_store \<sigma>))) \<and> m_DeletionTimestamp (st_meta (ro_store \<sigma>)) = None"

section \<open>Facts\<close>

lemmas rotation_defs = secretStep_def storeStep_def disturb_def storeFailure_def

lemma gm_eq_trans: "gm_ok a \<Longrightarrow> gm_ok b \<Longrightarrow> gm_ok c \<Longrightarrow> gm_eq a b \<Longrightarrow> gm_eq b c \<Longrightarrow> gm_eq a c"
  by (simp add: gm_eq_iff)

lemma withTrigger_facts [simp]:
  "triggerOf (withTrigger v s) = v" "m_DeletionTimestamp (st_meta (withTrigger v s)) = m_DeletionTimestamp (st_meta s)"
  "m_Generation (st_meta (withTrigger v s)) = m_Generation (st_meta s)" "st_Status (withTrigger v s) = st_Status s"
  "gm_ok (m_Annotations (st_meta s)) \<Longrightarrow> gm_ok (m_Annotations (st_meta (withTrigger v s)))"
  by (cases s; simp add: withTrigger_def setMeta_def triggerOf_def st_meta_def st_Status_def gm_str_def gm_ok_put)+

lemma withoutTrigger_facts [simp]:
  "m_DeletionTimestamp (st_meta (withoutTrigger s)) = m_DeletionTimestamp (st_meta s)"
  "m_Generation (st_meta (withoutTrigger s)) = m_Generation (st_meta s)" "st_Status (withoutTrigger s) = st_Status s"
  "gm_ok (m_Annotations (st_meta s)) \<Longrightarrow> gm_ok (m_Annotations (st_meta (withoutTrigger s)))"
  by (cases s; simp add: withoutTrigger_def setMeta_def st_meta_def st_Status_def gm_ok_del)+

text \<open>Of the writes to a store that is not being deleted, only a new trigger wakes its controller.\<close>

lemma wakes_writes:
  assumes "m_DeletionTimestamp (st_meta s) = None"
  shows "wakes s (withTrigger v s) \<longleftrightarrow> v \<noteq> [] \<and> v \<noteq> triggerOf s"
    and "\<not> wakes s (setStatus st s)"
    and "gm_ok (m_Annotations (st_meta s)) \<Longrightarrow> \<not> wakes s (withoutTrigger s)"
proof -
  show "wakes s (withTrigger v s) \<longleftrightarrow> v \<noteq> [] \<and> v \<noteq> triggerOf s"
    using assms withTrigger_facts(1) [of v s]
    by (cases s) (auto simp: wakes_def withTrigger_def setMeta_def SecretStorePredicate_def ClusterSecretStorePredicate_def
        storeUpdateAdmitted_def pointersDiffer_def st_meta_def)
  show "\<not> wakes s (setStatus st s)"
    using assms setStatus_simps(3) [of st s]
    by (cases s) (auto simp: wakes_def setStatus_def SecretStorePredicate_def ClusterSecretStorePredicate_def
        storeUpdateAdmitted_def pointersDiffer_def st_meta_def)
  show "\<not> wakes s (withoutTrigger s)" if "gm_ok (m_Annotations (st_meta s))"
    using assms triggerOf_withoutTrigger [OF that]
    by (cases s) (auto simp: wakes_def withoutTrigger_def setMeta_def SecretStorePredicate_def ClusterSecretStorePredicate_def
        storeUpdateAdmitted_def pointersDiffer_def st_meta_def)
qed

lemma reportStatus_facts:
  "ro_secret (reportStatus now s c b \<sigma>) = ro_secret \<sigma>" "ro_client (reportStatus now s c b \<sigma>) = ro_client \<sigma>"
  "ro_secretDue (reportStatus now s c b \<sigma>) = ro_secretDue \<sigma>" "ro_secretRound (reportStatus now s c b \<sigma>) = ro_secretRound \<sigma>"
  "ro_storeRound (reportStatus now s c b \<sigma>) = ro_storeRound \<sigma>"
  "triggerOf (ro_store (reportStatus now s c b \<sigma>)) = triggerOf (ro_store \<sigma>)" "st_meta (ro_store (reportStatus now s c b \<sigma>)) = st_meta (ro_store \<sigma>)"
  "m_DeletionTimestamp (st_meta (ro_store \<sigma>)) = None \<Longrightarrow> ro_storeDue (reportStatus now s c b \<sigma>) = ro_storeDue \<sigma>"
  by (simp_all add: reportStatus_def writeStore_def wakes_writes)

lemma writeStore_facts:
  "ro_secret (writeStore new \<sigma>) = ro_secret \<sigma>" "ro_client (writeStore new \<sigma>) = ro_client \<sigma>"
  "ro_secretDue (writeStore new \<sigma>) = ro_secretDue \<sigma>" "ro_secretRound (writeStore new \<sigma>) = ro_secretRound \<sigma>"
  "ro_storeRound (writeStore new \<sigma>) = ro_storeRound \<sigma>" "ro_store (writeStore new \<sigma>) = new"
  "ro_storeDue (writeStore new \<sigma>) = (ro_storeDue \<sigma> \<or> wakes (ro_store \<sigma>) new)"
  by (simp_all add: writeStore_def)

lemmas effects = reportStatus_facts writeStore_facts

text \<open>The metadata the protocol relies on: each map has its keys once and the store is not being deleted.\<close>

definition healthy :: "rotation \<Rightarrow> bool" where
  "healthy \<sigma> \<longleftrightarrow> gm_ok (sec_Data (ro_secret \<sigma>)) \<and> gm_ok (m_Annotations (st_meta (ro_store \<sigma>))) \<and>
     m_DeletionTimestamp (st_meta (ro_store \<sigma>)) = None \<and> (case ro_client \<sigma> of None \<Rightarrow> True | Some d \<Rightarrow> gm_ok d) \<and>
     (case ro_storeRound \<sigma> of Authenticated _ d \<Rightarrow> gm_ok d | _ \<Rightarrow> True)"

text \<open>What a move does, one rule per move.\<close>

lemma secretStep_cases:
  assumes "secretStep m \<sigma> = Some \<tau>"
  obtains (list) "ro_secretDue \<sigma>" "ro_secretRound \<sigma> = SecretIdle" "\<tau> = \<sigma>\<lparr>ro_secretDue := False, ro_secretRound := Listed (ro_store \<sigma>)\<rparr>"
  | (skip) s where "ro_secretRound \<sigma> = Listed s" "triggerOf s \<noteq> []" "\<tau> = \<sigma>\<lparr>ro_secretRound := SecretIdle\<rparr>"
  | (patch) s v where "m = SecretPatches v" "ro_secretRound \<sigma> = Listed s" "triggerOf s = []" "unusedValue v \<sigma>"
      "\<tau> = (writeStore (withTrigger v (ro_store \<sigma>)) \<sigma>)\<lparr>ro_secretRound := SecretIdle\<rparr>"
  using assms by (auto simp: secretStep_def split: secretMove.splits secretRound.splits if_splits)

lemma storeStep_cases:
  assumes "storeStep m \<sigma> = Some \<tau>"
  obtains (fetch) "ro_storeDue \<sigma>" "ro_storeRound \<sigma> = StoreIdle" "\<tau> = \<sigma>\<lparr>ro_storeDue := False, ro_storeRound := Fetched (ro_store \<sigma>)\<rparr>"
  | (keep) now s where "ro_storeRound \<sigma> = Fetched s" "\<not> needsRebuild s \<sigma>"
      "\<tau> = (reportStatus now s (newCondition ConditionTrue ReasonStoreValid [] 0) False \<sigma>)\<lparr>ro_storeRound := StoreIdle\<rparr>"
  | (retire) s where "ro_storeRound \<sigma> = Fetched s" "needsRebuild s \<sigma>" "\<tau> = \<sigma>\<lparr>ro_client := None, ro_storeRound := Retired s\<rparr>"
  | (reads) s where "ro_storeRound \<sigma> = Retired s" "\<tau> = \<sigma>\<lparr>ro_storeRound := Authenticated s (sec_Data (ro_secret \<sigma>))\<rparr>"
  | (register) s d where "ro_storeRound \<sigma> = Authenticated s d" "\<tau> = \<sigma>\<lparr>ro_client := Some d, ro_storeRound := Registered s\<rparr>"
  | (recording) now s where "ro_storeRound \<sigma> = Registered s"
      "\<tau> = (reportStatus now (withCapabilities s) (newCondition ConditionTrue ReasonStoreValid [] (m_Generation (st_meta s))) True \<sigma>)
         \<lparr>ro_storeRound := Recorded s\<rparr>"
  | (finish) s where "ro_storeRound \<sigma> = Recorded s" "triggerOf s = []" "\<tau> = \<sigma>\<lparr>ro_storeRound := StoreIdle\<rparr>"
  | (clear) s where "ro_storeRound \<sigma> = Recorded s" "triggerOf s \<noteq> []" "triggerOf (ro_store \<sigma>) = triggerOf s"
      "\<tau> = (writeStore (withoutTrigger (ro_store \<sigma>)) \<sigma>)\<lparr>ro_storeRound := StoreIdle\<rparr>"
  | (requeue) s where "ro_storeRound \<sigma> = Recorded s" "triggerOf s \<noteq> []" "triggerOf (ro_store \<sigma>) \<noteq> triggerOf s"
      "\<tau> = \<sigma>\<lparr>ro_storeDue := True, ro_storeRound := StoreIdle\<rparr>"
proof (cases m)
  case StoreFetches
  then show thesis using assms fetch by (auto simp: storeStep_def split: storeRound.splits if_splits)
next
  case (StoreKeeps now)
  then show thesis using assms keep by (auto simp: storeStep_def split: storeRound.splits if_splits)
next
  case StoreRetires
  then show thesis using assms retire by (auto simp: storeStep_def split: storeRound.splits if_splits)
next
  case StoreReads
  then show thesis using assms reads by (auto simp: storeStep_def split: storeRound.splits if_splits)
next
  case StoreRegisters
  then show thesis using assms register by (auto simp: storeStep_def split: storeRound.splits if_splits)
next
  case (StoreRecords now)
  then show thesis using assms recording by (auto simp: storeStep_def split: storeRound.splits if_splits)
next
  case StoreFinishes
  then show thesis using assms finish by (auto simp: storeStep_def split: storeRound.splits if_splits)
next
  case StoreClears
  then show thesis using assms clear by (auto simp: storeStep_def split: storeRound.splits if_splits)
next
  case StoreRequeues
  then show thesis using assms requeue by (auto simp: storeStep_def split: storeRound.splits if_splits)
qed

lemma disturb_cases:
  assumes "disturb d \<sigma> = Some \<tau>"
  obtains (rotate) new where "d = Rotate new" "gm_ok (sec_Data new)"
      "\<tau> = \<sigma>\<lparr>ro_secret := new, ro_secretDue := ro_secretDue \<sigma> \<or> \<not> gm_eq (sec_Data (ro_secret \<sigma>)) (sec_Data new)\<rparr>"
  | (annotate) v where "d = Annotate v" "v \<noteq> []" "\<tau> = writeStore (withTrigger v (ro_store \<sigma>)) \<sigma>"
  | (period) "d = Period" "\<tau> = \<sigma>\<lparr>ro_storeDue := True\<rparr>"
  | (secretFails) "d = SecretFails" "\<tau> = \<sigma>\<lparr>ro_secretDue := True, ro_secretRound := SecretIdle\<rparr>"
  | (storeFails) s where "snapshot (ro_storeRound \<sigma>) = Some s" "\<tau> = \<sigma>\<lparr>ro_storeDue := True, ro_storeRound := StoreIdle\<rparr>"
  | (reported) now message s where "snapshot (ro_storeRound \<sigma>) = Some s" "rebuilding (ro_storeRound \<sigma>)"
      "\<tau> = (reportStatus now s (newCondition ConditionFalse ReasonClientCreationFailed message 0) False \<sigma>)
         \<lparr>ro_storeDue := True, ro_storeRound := StoreIdle\<rparr>"
proof (cases d)
  case (StoreFails w)
  then obtain s where s: "snapshot (ro_storeRound \<sigma>) = Some s" "w = None \<or> rebuilding (ro_storeRound \<sigma>)" "\<tau> = storeFailure w s \<sigma>"
    using assms by (cases w; cases "snapshot (ro_storeRound \<sigma>)") (simp_all add: disturb_def split: if_splits)
  show thesis
  proof (cases w)
    case None
    then show ?thesis using storeFails [OF s(1)] s(3) by (simp add: storeFailure_def)
  next
    case (Some x)
    then show ?thesis using reported [of s "fst x" "snd x"] s by (simp add: storeFailure_def split_beta)
  qed
next
  case (Rotate new)
  then show thesis using assms rotate [of new] by (simp add: disturb_def secretEventAdmitted_def split: if_splits)
next
  case (Annotate v)
  then show thesis using assms annotate [of v] by (simp add: disturb_def split: if_splits)
next
  case Period
  then show thesis using assms period by (simp add: disturb_def)
next
  case SecretFails
  then show thesis using assms secretFails by (simp add: disturb_def)
qed

section \<open>Rounds end\<close>

definition outdated :: "rotation \<Rightarrow> bool" where
  "outdated \<sigma> = (case snapshot (ro_storeRound \<sigma>) of None \<Rightarrow> False
     | Some s \<Rightarrow> triggerOf s \<noteq> [] \<and> triggerOf s \<noteq> triggerOf (ro_store \<sigma>))"

definition distance :: "storeRound \<Rightarrow> nat" where
  "distance r = (case r of StoreIdle \<Rightarrow> 0 | Fetched _ \<Rightarrow> 7 | Retired _ \<Rightarrow> 6 | Authenticated _ _ \<Rightarrow> 5 | Registered _ \<Rightarrow> 4 | Recorded _ \<Rightarrow> 3)"

definition workLeft :: "rotation \<Rightarrow> nat" where
  "workLeft \<sigma> = (if ro_secretDue \<sigma> then 31 else 0) + (if ro_secretRound \<sigma> = SecretIdle then 0 else 30) +
     (if ro_storeDue \<sigma> then 8 else 0) + distance (ro_storeRound \<sigma>) + (if outdated \<sigma> then 10 else 0)"

lemma moves_work:
  assumes "healthy \<sigma>" "byController m" "moves m \<sigma> = Some \<tau>"
  shows "workLeft \<tau> < workLeft \<sigma>"
proof -
  have d: "m_DeletionTimestamp (st_meta (ro_store \<sigma>)) = None" "gm_ok (m_Annotations (st_meta (ro_store \<sigma>)))"
    using assms(1) by (simp_all add: healthy_def)
  consider n where "secretStep n \<sigma> = Some \<tau>" | n where "storeStep n \<sigma> = Some \<tau>"
    using assms(2,3) by (auto simp: byController_def moves_def split: move.splits)
  then show ?thesis
  proof cases
    case 1
    then show ?thesis
      by (cases rule: secretStep_cases) (simp_all add: workLeft_def outdated_def effects split: option.split)
  next
    case 2
    then show ?thesis
      using d by (cases rule: storeStep_cases)
        (simp_all add: workLeft_def outdated_def effects distance_def snapshot_def wakes_writes)
  qed
qed

text \<open>Some string differs from two given ones and is not empty.\<close>

lemma unused_string: "\<exists>v. v \<noteq> [] \<and> v \<noteq> a \<and> v \<noteq> (b :: string)"
  by (intro exI [of _ "replicate (length a + length b + 1) CHR ''x''"]) (auto dest: arg_cong [where f = length])

lemma some_move: "idle \<sigma> \<or> (\<exists>m \<tau>. byController m \<and> moves m \<sigma> = Some \<tau>)"
proof -
  have s: "\<exists>m \<tau>. byController m \<and> moves m \<sigma> = Some \<tau>" if "secretStep n \<sigma> = Some \<tau>" for n \<tau>
    using that by (intro exI [of _ "SecretDoes n"]) (simp add: byController_def moves_def)
  have t: "\<exists>m \<tau>. byController m \<and> moves m \<sigma> = Some \<tau>" if "storeStep n \<sigma> = Some \<tau>" for n \<tau>
    using that by (intro exI [of _ "StoreDoes n"]) (simp add: byController_def moves_def)
  show ?thesis
  proof (cases "ro_secretRound \<sigma>")
    case (Listed l)
    obtain v where "v \<noteq> []" "v \<noteq> triggerOf (ro_store \<sigma>)" "v \<noteq> triggerOf (the (snapshot (ro_storeRound \<sigma>)))"
      using unused_string by blast
    then have "unusedValue v \<sigma>" by (cases "snapshot (ro_storeRound \<sigma>)") (simp_all add: unusedValue_def)
    then show ?thesis
      using Listed s [of SecretSkips] s [of "SecretPatches v"] by (cases "triggerOf l = []") (simp_all add: secretStep_def)
  next
    case SecretIdle
    show ?thesis
    proof (cases "ro_storeRound \<sigma>")
      case StoreIdle
      then show ?thesis
        using SecretIdle s [of SecretLists] t [of StoreFetches] by (auto simp: idle_def secretStep_def storeStep_def)
    next
      case (Fetched x)
      then show ?thesis using t [of "StoreKeeps 0"] t [of StoreRetires] by (cases "needsRebuild x \<sigma>") (simp_all add: storeStep_def)
    next
      case (Recorded x)
      then show ?thesis
        using t [of StoreFinishes] t [of StoreClears] t [of StoreRequeues]
        by (cases "triggerOf x = []"; cases "triggerOf (ro_store \<sigma>) = triggerOf x") (simp_all add: storeStep_def)
    qed (use t [of StoreReads] t [of StoreRegisters] t [of "StoreRecords 0"] in \<open>simp_all add: storeStep_def\<close>)
  qed
qed

lemma idle_stuck:
  assumes "idle \<sigma>" "byController m"
  shows "moves m \<sigma> = None"
  using assms by (auto simp: idle_def byController_def moves_def secretStep_def storeStep_def
      split: move.splits secretMove.splits storeMove.splits)

section \<open>The invariant\<close>

text \<open>What holds of the round of the store controller; its credential is that of the moment when it works for a trigger.\<close>

definition faithful :: "rotation \<Rightarrow> store \<Rightarrow> bool \<Rightarrow> bool" where
  "faithful \<sigma> s upToDate \<longleftrightarrow> triggerOf s = [] \<or> (triggerOf (ro_store \<sigma>) \<noteq> [] \<and> upToDate)"

definition roundOk :: "rotation \<Rightarrow> bool" where
  "roundOk \<sigma> = (case ro_storeRound \<sigma> of
      StoreIdle \<Rightarrow> True
    | Fetched s \<Rightarrow> faithful \<sigma> s True
    | Retired s \<Rightarrow> faithful \<sigma> s True \<and> ro_client \<sigma> = None
    | Authenticated s d \<Rightarrow> faithful \<sigma> s (current \<sigma> d) \<and> ro_client \<sigma> = None
    | Registered s \<Rightarrow> faithful \<sigma> s (servesCurrent \<sigma>)
    | Recorded s \<Rightarrow> faithful \<sigma> s (servesCurrent \<sigma>))"

text \<open>A trigger is never forgotten: a turn is due or the round in progress works for it.\<close>

definition remembered :: "rotation \<Rightarrow> bool" where
  "remembered \<sigma> \<longleftrightarrow> triggerOf (ro_store \<sigma>) = [] \<or> ro_storeDue \<sigma> \<or>
     (case snapshot (ro_storeRound \<sigma>) of None \<Rightarrow> False | Some s \<Rightarrow> triggerOf s = triggerOf (ro_store \<sigma>))"

text \<open>A client that is not built from the credential of the moment is about to be replaced.\<close>

definition rebuilds :: "rotation \<Rightarrow> bool" where
  "rebuilds \<sigma> = (case ro_storeRound \<sigma> of
      StoreIdle \<Rightarrow> ro_client \<sigma> = None \<and> ro_storeDue \<sigma>
    | Fetched s \<Rightarrow> triggerOf s \<noteq> [] \<or> ro_client \<sigma> = None
    | Retired s \<Rightarrow> True
    | Authenticated s d \<Rightarrow> current \<sigma> d
    | Registered s \<Rightarrow> False
    | Recorded s \<Rightarrow> False)"

definition triggers :: "rotation \<Rightarrow> bool" where
  "triggers \<sigma> \<longleftrightarrow> ro_secretDue \<sigma> \<or> (case ro_secretRound \<sigma> of SecretIdle \<Rightarrow> False | Listed s \<Rightarrow> triggerOf s = []) \<or>
     (triggerOf (ro_store \<sigma>) \<noteq> [] \<and> ro_storeDue \<sigma>)"

definition onTrack :: "rotation \<Rightarrow> bool" where
  "onTrack \<sigma> \<longleftrightarrow> healthy \<sigma> \<and> roundOk \<sigma> \<and> remembered \<sigma> \<and> (servesCurrent \<sigma> \<or> triggers \<sigma> \<or> rebuilds \<sigma>)"

lemmas track_defs = onTrack_def healthy_def roundOk_def remembered_def faithful_def triggers_def rebuilds_def servesCurrent_def current_def snapshot_def

lemma onTrack_start: "startsUp \<sigma> \<Longrightarrow> onTrack \<sigma>"
  by (simp add: startsUp_def track_defs)

lemma onTrack_secret:
  assumes "onTrack \<sigma>" "secretStep m \<sigma> = Some \<tau>"
  shows "onTrack \<tau>"
  using assms(2)
proof (cases rule: secretStep_cases)
  case list
  then show ?thesis using assms(1) by (auto simp: track_defs split: storeRound.splits option.splits)
next
  case (skip s)
  then show ?thesis using assms(1) by (simp add: track_defs split: storeRound.splits option.splits)
next
  case (patch s v)
  have "wakes (ro_store \<sigma>) (withTrigger v (ro_store \<sigma>))" "v \<noteq> []"
    using patch(4) assms(1) by (simp_all add: wakes_writes unusedValue_def onTrack_def healthy_def)
  then show ?thesis using patch assms(1) by (auto simp: track_defs effects split: storeRound.splits option.splits)
qed

lemma onTrack_store:
  assumes "onTrack \<sigma>" "storeStep m \<sigma> = Some \<tau>"
  shows "onTrack \<tau>"
proof -
  have d: "m_DeletionTimestamp (st_meta (ro_store \<sigma>)) = None" "gm_ok (m_Annotations (st_meta (ro_store \<sigma>)))" "gm_ok (sec_Data (ro_secret \<sigma>))"
    using assms(1) by (simp_all add: onTrack_def healthy_def)
  show ?thesis
    using assms(2)
  proof (cases rule: storeStep_cases)
    case fetch
    then show ?thesis using assms(1) by (auto simp: track_defs split: option.splits)
  next
    case (keep now s)
    then show ?thesis using assms(1) d by (auto simp: track_defs effects needsRebuild_def split: secretRound.splits)
  next
    case (retire s)
    then show ?thesis using assms(1) by (simp add: track_defs)
  next
    case (reads s)
    then show ?thesis using assms(1) d gm_eq_refl by (auto simp: track_defs)
  next
    case (register s d)
    then show ?thesis using assms(1) by (auto simp: track_defs)
  next
    case (recording now s)
    then show ?thesis using assms(1) d by (auto simp: track_defs effects split: option.splits secretRound.splits)
  next
    case (finish s)
    then show ?thesis using assms(1) by (auto simp: track_defs split: option.splits)
  next
    case (clear s)
    then show ?thesis using assms(1) d by (auto simp: track_defs effects triggerOf_withoutTrigger split: option.splits)
  next
    case (requeue s)
    then show ?thesis using assms(1) by (auto simp: track_defs split: option.splits)
  qed
qed

lemma current_rotate:
  assumes "healthy \<sigma>" "gm_ok (sec_Data new)" "gm_eq (sec_Data (ro_secret \<sigma>)) (sec_Data new)" "gm_ok d" "current \<sigma> d"
  shows "gm_eq d (sec_Data new)"
  using assms gm_eq_trans [of d "sec_Data (ro_secret \<sigma>)" "sec_Data new"] by (simp add: healthy_def current_def)

lemma onTrack_outside:
  assumes "onTrack \<sigma>" "spaced \<sigma> (Outside d)" "disturb d \<sigma> = Some \<tau>"
  shows "onTrack \<tau>"
proof -
  have d: "m_DeletionTimestamp (st_meta (ro_store \<sigma>)) = None" "gm_ok (m_Annotations (st_meta (ro_store \<sigma>)))" "healthy \<sigma>"
    using assms(1) by (simp_all add: onTrack_def healthy_def)
  show ?thesis
    using assms(3)
  proof (cases rule: disturb_cases)
    case (rotate new)
    have "\<not> exposed \<sigma>" using assms(2) rotate(1) by (simp add: spaced_def)
    then show ?thesis
      using assms(1) rotate current_rotate [OF d(3) rotate(2)]
      by (cases "ro_storeRound \<sigma>") (auto simp: track_defs exposed_def split: option.splits)
  next
    case (annotate v)
    then show ?thesis using assms(1) d(1,2) wakes_writes(1) [OF d(1), of v]
      by (auto simp: track_defs effects split: storeRound.splits option.splits)
  next
    case period
    then show ?thesis using assms(1) by (auto simp: track_defs split: storeRound.splits option.splits)
  next
    case secretFails
    then show ?thesis using assms(1) by (auto simp: track_defs split: storeRound.splits option.splits)
  next
    case (storeFails s)
    then show ?thesis using assms(1) by (auto simp: track_defs split: storeRound.splits option.splits)
  next
    case (reported now message s)
    then show ?thesis using assms(1) d by (auto simp: track_defs rebuilding_def effects split: storeRound.splits)
  qed
qed

lemma onTrack_moves: "onTrack \<sigma> \<Longrightarrow> spaced \<sigma> m \<Longrightarrow> moves m \<sigma> = Some \<tau> \<Longrightarrow> onTrack \<tau>"
  by (cases m) (auto simp: moves_def intro: onTrack_secret onTrack_store onTrack_outside)

lemma onTrack_runs: "runs spaced \<sigma> \<tau> \<Longrightarrow> onTrack \<sigma> \<Longrightarrow> onTrack \<tau>"
  by (induction rule: runs.induct) (auto intro: onTrack_moves)

lemma onTrack_idle: "onTrack \<sigma> \<Longrightarrow> idle \<sigma> \<Longrightarrow> servesCurrent \<sigma> \<and> triggerOf (ro_store \<sigma>) = []"
  by (simp add: onTrack_def idle_def remembered_def triggers_def rebuilds_def snapshot_def)

lemma runs_trans: "runs permits \<tau> \<upsilon> \<Longrightarrow> runs permits \<sigma> \<tau> \<Longrightarrow> runs permits \<sigma> \<upsilon>"
  by (induction rule: runs.induct) (auto intro: runs.intros)

lemma runs_mono: "runs permits \<sigma> \<tau> \<Longrightarrow> (\<And>\<upsilon> m. permits \<upsilon> m \<Longrightarrow> permits' \<upsilon> m) \<Longrightarrow> runs permits' \<sigma> \<tau>"
  by (induction rule: runs.induct) (auto intro: runs.intros)

lemma runs_move: "permits \<sigma> m \<Longrightarrow> moves m \<sigma> = Some \<tau> \<Longrightarrow> runs permits \<sigma> \<tau>"
  by (rule onward [OF here])

lemma performs_runs: "performs ms \<sigma> = Some \<tau> \<Longrightarrow> (\<And>\<upsilon> m. m \<in> set ms \<Longrightarrow> permits \<upsilon> m) \<Longrightarrow> runs permits \<sigma> \<tau>"
proof (induction ms arbitrary: \<sigma>)
  case (Cons m ms)
  then obtain \<sigma>' where m: "moves m \<sigma> = Some \<sigma>'" "performs ms \<sigma>' = Some \<tau>" by (auto split: option.splits)
  have "runs permits \<sigma> \<sigma>'" using m(1) Cons.prems(2) by (intro runs_move [of permits _ m]) simp_all
  with Cons.IH [OF m(2)] Cons.prems(2) show ?case by (auto intro: runs_trans)
qed (simp add: runs.here)

lemma healthy_step: "onTrack \<sigma> \<Longrightarrow> byController m \<Longrightarrow> moves m \<sigma> = Some \<tau> \<Longrightarrow> onTrack \<tau>"
  by (rule onTrack_moves) (auto simp: spaced_def byController_def split: move.splits)

lemma controllers_rest: "onTrack \<sigma> \<Longrightarrow> \<exists>\<tau>. runs (\<lambda>_. byController) \<sigma> \<tau> \<and> idle \<tau>"
proof (induction "workLeft \<sigma>" arbitrary: \<sigma> rule: less_induct)
  case less
  show ?case
  proof (cases "idle \<sigma>")
    case False
    then obtain m \<sigma>' where m: "byController m" "moves m \<sigma> = Some \<sigma>'" using some_move by blast
    have "workLeft \<sigma>' < workLeft \<sigma>" using moves_work [OF _ m] less.prems by (simp add: onTrack_def)
    from less.hyps [OF this healthy_step [OF less.prems m]]
    obtain \<tau> where t: "runs (\<lambda>_. byController) \<sigma>' \<tau>" "idle \<tau>" by blast
    moreover have "runs (\<lambda>_. byController) \<sigma> \<sigma>'" using m by (rule runs_move)
    ultimately show ?thesis using runs_trans by blast
  qed (auto intro: runs.here)
qed

lemma controllers_keep_secret: "runs (\<lambda>_. byController) \<sigma> \<tau> \<Longrightarrow> ro_secret \<tau> = ro_secret \<sigma>"
proof (induction rule: runs.induct)
  case (onward \<tau> m \<upsilon>)
  have "ro_secret \<upsilon> = ro_secret \<tau>"
  proof (cases m)
    case (SecretDoes n)
    then have "secretStep n \<tau> = Some \<upsilon>" using onward.hyps(3) by (simp add: moves_def)
    then show ?thesis by (cases rule: secretStep_cases) (simp_all add: effects)
  next
    case (StoreDoes n)
    then have "storeStep n \<tau> = Some \<upsilon>" using onward.hyps(3) by (simp add: moves_def)
    then show ?thesis by (cases rule: storeStep_cases) (simp_all add: effects)
  qed (use onward.hyps(2) in \<open>simp add: byController_def\<close>)
  with onward.IH show ?case by simp
qed simp

section \<open>Properties\<close>


definition startRotation :: rotation where
  "startRotation = \<lparr>ro_secret = demoCredential ''old'', ro_store = SS demoStore, ro_client = None, ro_secretDue = True, ro_storeDue = True,
     ro_secretRound = SecretIdle, ro_storeRound = StoreIdle\<rparr>"

lemma demo_metadata:
  "m_DeletionTimestamp (ss_meta demoStore) = None" "m_Annotations (ss_meta demoStore) = gm_empty" "triggerOf (SS demoStore) = []"
  by (simp_all add: demoStore_def noMeta_def triggerOf_def st_meta_def gm_str_def gm_empty_def gm_get_def)



section \<open>A lost rotation\<close>

text \<open>The order that loses a credential: it changes to \<open>s1\<close>, the store is triggered and its round reads \<open>s1\<close>; it changes to
  \<open>s2\<close>, the Secret controller finds the trigger and skips; the round clears the trigger.\<close>

definition lostRotation :: "Secret \<Rightarrow> Secret \<Rightarrow> string \<Rightarrow> int \<Rightarrow> move list" where
  "lostRotation s1 s2 v now =
     [Outside (Rotate s1), SecretDoes SecretLists, SecretDoes (SecretPatches v),
      StoreDoes StoreFetches, StoreDoes StoreRetires, StoreDoes StoreReads,
      Outside (Rotate s2), SecretDoes SecretLists, SecretDoes SecretSkips,
      StoreDoes StoreRegisters, StoreDoes (StoreRecords now), StoreDoes StoreClears]"

definition undisturbed :: "rotation \<Rightarrow> move \<Rightarrow> bool" where
  "undisturbed \<sigma> m = (case m of Outside (Rotate _) \<Rightarrow> False | Outside (Annotate _) \<Rightarrow> False | Outside SecretFails \<Rightarrow> False
     | _ \<Rightarrow> True)"

text \<open>A settled store of which the controllers keep the client.\<close>

definition settledOn :: "store \<Rightarrow> bool" where
  "settledOn s \<longleftrightarrow> triggerOf s = [] \<and> ReadyConditionObservedGeneration (st_Conditions (st_Status s)) = (m_Generation (st_meta s), True) \<and>
     m_DeletionTimestamp (st_meta s) = None"

definition keepsClient :: "bytes gomap \<Rightarrow> Secret \<Rightarrow> rotation \<Rightarrow> bool" where
  "keepsClient d sec \<sigma> \<longleftrightarrow> ro_client \<sigma> = Some d \<and> ro_secret \<sigma> = sec \<and> \<not> ro_secretDue \<sigma> \<and> ro_secretRound \<sigma> = SecretIdle \<and> settledOn (ro_store \<sigma>) \<and>
     (case ro_storeRound \<sigma> of StoreIdle \<Rightarrow> True
        | Fetched s \<Rightarrow> settledOn s \<and> m_Generation (st_meta s) = m_Generation (st_meta (ro_store \<sigma>)) | _ \<Rightarrow> False)"

lemma ready_proposed:
  "ReadyConditionObservedGeneration (st_Conditions (proposedStatus t s (newCondition status reason message g) b)) = (m_Generation (st_meta s), True)"
  by (simp add: proposedStatus_def setCondition_def Let_def ready_conditionOf conditionOf_put newCondition_def)

lemma settledOn_report:
  assumes "settledOn (ro_store \<sigma>)" "m_Generation (st_meta s) = m_Generation (st_meta (ro_store \<sigma>))"
  shows "settledOn (ro_store (reportStatus now s (newCondition status reason message g) b \<sigma>))"
  using assms by (simp add: settledOn_def reportStatus_def writeStore_def ready_proposed)

lemma keepsClient_moves:
  assumes "keepsClient d sec \<sigma>" "undisturbed \<sigma> m" "moves m \<sigma> = Some \<tau>"
  shows "keepsClient d sec \<tau>"
proof (cases m)
  case (SecretDoes n)
  then have "secretStep n \<sigma> = Some \<tau>" using assms(3) by (simp add: moves_def)
  then show ?thesis using assms(1) by (cases rule: secretStep_cases) (simp_all add: keepsClient_def)
next
  case (StoreDoes n)
  then have "storeStep n \<sigma> = Some \<tau>" using assms(3) by (simp add: moves_def)
  then show ?thesis
    using assms(1) settledOn_report [of \<sigma>]
    by (cases rule: storeStep_cases) (auto simp: keepsClient_def effects needsRebuild_def settledOn_def)
next
  case (Outside e)
  then have "disturb e \<sigma> = Some \<tau>" using assms(3) by (simp add: moves_def)
  then show ?thesis
    using assms(1,2) Outside
    by (cases rule: disturb_cases) (auto simp: keepsClient_def undisturbed_def snapshot_def rebuilding_def split: storeRound.splits)
qed

lemma keepsClient_runs: "runs undisturbed \<sigma> \<tau> \<Longrightarrow> keepsClient d sec \<sigma> \<Longrightarrow> keepsClient d sec \<tau>"
  by (induction rule: runs.induct) (auto intro: keepsClient_moves)

text \<open>C7. A credential can be lost. From a state at rest, a change that falls between the reading of the credential and the
  clearing of the trigger is dropped: the Secret controller has its turn for it, sees the trigger of the
  earlier change and skips the store, the round in progress clears that trigger, and the controllers are at
  rest with a client built from the earlier credential. The store says it is fresh, so consumers use that client; and it
  stays in service through all later turns of the store controller, periodic and failing ones included, until a
  credential changes again, a user sets the trigger, or the Secret controller is queued for a failure elsewhere.\<close>

theorem rotation_can_be_lost:
  assumes "idle \<sigma>" "healthy \<sigma>" "triggerOf (ro_store \<sigma>) = []" "v \<noteq> []"
    and "gm_ok (sec_Data s1)" "gm_ok (sec_Data s2)"
    and "\<not> gm_eq (sec_Data (ro_secret \<sigma>)) (sec_Data s1)" "\<not> gm_eq (sec_Data s1) (sec_Data s2)"
  shows "\<exists>\<tau>. performs (lostRotation s1 s2 v now) \<sigma> = Some \<tau> \<and> idle \<tau> \<and> ro_secret \<tau> = s2 \<and> ro_client \<tau> = Some (sec_Data s1) \<and>
    freshness clientKey storeDesc (m_Generation (st_meta (ro_store \<tau>))) (m_Annotations (st_meta (ro_store \<tau>)))
      (st_Conditions (st_Status (ro_store \<tau>))) = None \<and>
    (\<forall>\<upsilon>. runs undisturbed \<tau> \<upsilon> \<longrightarrow> ro_client \<upsilon> = Some (sec_Data s1) \<and> \<not> servesCurrent \<upsilon>)"
proof -
  define x where "x = ro_store \<sigma>"
  define y where "y = withTrigger v x"
  define st where "st = proposedStatus now (withCapabilities y) (newCondition ConditionTrue ReasonStoreValid [] (m_Generation (st_meta y))) True"
  define z where "z = withoutTrigger (setStatus st y)"
  define \<tau> where "\<tau> = \<sigma>\<lparr>ro_secret := s2, ro_client := Some (sec_Data s1), ro_store := z\<rparr>"
  have x: "ro_store \<sigma> = x" "triggerOf x = []" "m_DeletionTimestamp (st_meta x) = None" "gm_ok (m_Annotations (st_meta x))"
    using assms(2,3) by (simp_all add: x_def healthy_def)
  have i: "\<not> ro_secretDue \<sigma>" "\<not> ro_storeDue \<sigma>" "ro_secretRound \<sigma> = SecretIdle" "ro_storeRound \<sigma> = StoreIdle"
    using assms(1) by (simp_all add: idle_def)
  have w: "wakes x y" "\<not> wakes y (setStatus st y)" "\<not> wakes (setStatus st y) z"
    using x assms(4) by (simp_all add: wakes_writes y_def z_def)
  have t: "triggerOf y = v" "triggerOf z = []" using x by (simp_all add: y_def z_def triggerOf_withoutTrigger)
  have run: "performs (lostRotation s1 s2 v now) \<sigma> = Some \<tau>"
    using x i w t assms(4-8)
    by (simp add: lostRotation_def moves_def rotation_defs secretEventAdmitted_def unusedValue_def snapshot_def writeStore_def
        y_def [symmetric] needsRebuild_def reportStatus_def st_def [symmetric] z_def [symmetric] \<tau>_def)
  have "m_Generation (st_meta (withCapabilities y)) = m_Generation (st_meta z)" by (simp add: z_def withCapabilities_def)
  then have ready: "ReadyConditionObservedGeneration (st_Conditions st) = (m_Generation (st_meta z), True)"
    by (simp add: st_def ready_proposed)
  have zst: "st_Status z = st" by (simp add: z_def)
  have keeps: "keepsClient (sec_Data s1) s2 \<tau>"
    using i t(2) x(3) ready zst by (simp add: keepsClient_def settledOn_def \<tau>_def z_def y_def)
  then have "keepsClient (sec_Data s1) s2 \<upsilon>" if "runs undisturbed \<tau> \<upsilon>" for \<upsilon> using keepsClient_runs [OF that] by blast
  then have "ro_client \<upsilon> = Some (sec_Data s1) \<and> \<not> servesCurrent \<upsilon>" if "runs undisturbed \<tau> \<upsilon>" for \<upsilon>
    using that assms(8) by (fastforce simp: keepsClient_def servesCurrent_def current_def)
  moreover have "idle \<tau>" "ro_secret \<tau> = s2" "ro_client \<tau> = Some (sec_Data s1)" "ro_store \<tau> = z" using i by (simp_all add: idle_def \<tau>_def)
  moreover have "gm_str (m_Annotations (st_meta z)) TriggerReconcileAnnotation = []" using t(2) by (simp add: triggerOf_def)
  then have "freshness clientKey storeDesc (m_Generation (st_meta z)) (m_Annotations (st_meta z)) (st_Conditions (st_Status z)) = None"
    using ready zst by (simp add: freshness_def)
  ultimately show ?thesis using run by auto
qed

definition restingRotation :: rotation where
  "restingRotation = startRotation\<lparr>ro_client := Some (sec_Data (demoCredential ''old'')), ro_secretDue := False, ro_storeDue := False\<rparr>"

theorem rotation_can_be_lost_witness:
  "\<exists>\<tau>. performs (lostRotation (demoCredential ''new'') (demoCredential ''newer'') ''7'' 9) restingRotation = Some \<tau> \<and> idle \<tau> \<and> \<not> servesCurrent \<tau>"
proof -
  have i: "idle restingRotation" by (simp add: idle_def restingRotation_def startRotation_def)
  have h: "healthy restingRotation"
    using demo_metadata by (simp add: healthy_def restingRotation_def startRotation_def st_meta_def gm_ok_def gm_empty_def demoCredential_def)
  have t: "triggerOf (ro_store restingRotation) = []" using demo_metadata by (simp add: restingRotation_def startRotation_def)
  have d: "\<not> gm_eq (sec_Data (demoCredential a)) (sec_Data (demoCredential b))" if "a \<noteq> b" for a b
    using that by (simp add: demoCredential_def gm_eq_def gm_get_def)
  have o1: "gm_ok (sec_Data (demoCredential a))" for a by (simp add: demoCredential_def gm_ok_def)
  have "sec_Data (ro_secret restingRotation) = sec_Data (demoCredential ''old'')" by (simp add: restingRotation_def startRotation_def)
  then have "\<not> gm_eq (sec_Data (ro_secret restingRotation)) (sec_Data (demoCredential ''new''))" using d by simp
  from rotation_can_be_lost [OF i h t _ o1 o1 this d, of "''7''" "''newer''" 9 "[]" "[]"]
  obtain \<tau> where "performs (lostRotation (demoCredential ''new'') (demoCredential ''newer'') ''7'' 9) restingRotation = Some \<tau>" "idle \<tau>"
      "\<forall>\<upsilon>. runs undisturbed \<tau> \<upsilon> \<longrightarrow> \<not> servesCurrent \<upsilon>"
    by blast
  then show ?thesis using runs.here [of undisturbed \<tau>] by blast
qed

end
