(* ===== verification/Rotation_Code.thy ===== *)
theory Rotation_Code
  imports Rotation
begin

text \<open>
  The moves of theory \<open>Rotation\<close> against the handlers: a round of the store controller (\<open>Stores\<close>) that nothing
  interrupts, and what the Secret controller (\<open>Triggers\<close>) does to one store, are runs of the moves.
\<close>

section \<open>The code's rounds are runs\<close>

text \<open>The store at the API server after the writes of a trace, of which the newest comes first: a status update replaces
  the status, a patch made from the store as it is stores what it proposes.\<close>

fun storeAfter :: "event \<Rightarrow> store \<Rightarrow> store" where
  "storeAfter (UpdateStoreStatus s True) x = setStatus (st_Status s) x"
| "storeAfter (PatchStore old new True) x = (if old = x then new else x)"
| "storeAfter _ x = x"

definition serverStore :: "store \<Rightarrow> event list \<Rightarrow> store" where
  "serverStore s0 t = foldr storeAfter t s0"

definition sameKind :: "store \<Rightarrow> store \<Rightarrow> bool" where
  "sameKind a b = (case (a, b) of (SS _, SS _) \<Rightarrow> True | (CSS _, CSS _) \<Rightarrow> True | _ \<Rightarrow> False)"

text \<open>An API server that nobody else writes to and that accepts every write to the store.\<close>

definition answersWith :: "env \<Rightarrow> store \<Rightarrow> string \<Rightarrow> string \<Rightarrow> bool" where
  "answersWith E s0 ns n \<longleftrightarrow> (\<forall>t.
     (case serverStore s0 t of SS x \<Rightarrow> e_GetSecretStore E t ns n = Inr x | CSS x \<Rightarrow> e_GetClusterSecretStore E t n = Inr x) \<and>
     (\<forall>s. ok (e_UpdateStoreStatus E t s)) \<and> (\<forall>a b. ok (e_PatchStore E t a b)))"

lemma serverStore_simps [simp]:
  "serverStore s0 (UpdateStoreStatus s True # t) = setStatus (st_Status s) (serverStore s0 t)"
  "serverStore s0 (PatchStore old new True # t) = (if old = serverStore s0 t then new else serverStore s0 t)"
  "storeRead e \<Longrightarrow> serverStore s0 (e # t) = serverStore s0 t"
  "serverStore s0 (Clock i # t) = serverStore s0 t"
  by (simp_all add: serverStore_def) (cases e; simp)

lemma serverStore_kept:
  assumes "emits (\<lambda>e. \<not> storeWrite e) m"
  shows "serverStore s0 (tr (final m p)) = serverStore s0 (tr p)"
proof -
  obtain new where n: "tr (final m p) = new @ tr p" "list_all (\<lambda>e. \<not> storeWrite e) new"
    using assms by (auto simp: emits_def post_def)
  have "storeAfter e x = x" if "\<not> storeWrite e" for e x using that by (cases e) simp_all
  then have "foldr storeAfter new x = x" for x using n(2) by (induction new) simp_all
  then show ?thesis by (simp add: n(1) serverStore_def)
qed

lemma sameKind_simps [simp]: "sameKind s s" "sameKind s (setStatus st x) = sameKind s x" "sameKind (setStatus st s) x = sameKind s x"
  by (cases s; cases x; simp add: sameKind_def setStatus_def)+

lemma getStore_run:
  assumes "answersWith E s0 ns n" "sameKind kind (serverStore s0 (tr p))"
  shows "\<exists>rd. storeRead rd \<and> result (getStore E kind ns n) p = Inr (serverStore s0 (tr p)) \<and>
    final (getStore E kind ns n) p = p\<lparr>tr := rd # tr p\<rparr>"
  using assms(2) spec [OF assms(1) [unfolded answersWith_def], of "tr p"]
  by (intro exI [of _ "case kind of SS _ \<Rightarrow> GetSecretStore ns n | CSS _ \<Rightarrow> GetClusterSecretStore n"];
      cases kind; cases "serverStore s0 (tr p)") (auto simp: sameKind_def getStore_def api_defs run_simps)

lemma updateStatus_run:
  assumes a: "answersWith E s0 (m_Namespace (st_meta s)) (m_Name (st_meta s))" and x: "sameKind s (serverStore s0 (tr p))"
  shows "\<not> isl (result (updateStatus E s c b) p)"
    and "serverStore s0 (tr (final (updateStatus E s c b) p)) =
      (if \<not> b \<and> alreadySaid s c then serverStore s0 (tr p)
       else setStatus (proposedStatus (e_now E (tr p)) s c b) (serverStore s0 (tr p)))"
proof -
  have eq: "setCondition t (m_Generation (st_meta s)) c
      (if b then (st_Status s)\<lparr>st_ClientGeneration := st_ClientGeneration (st_Status s) + 1\<rparr> else st_Status s) =
      proposedStatus t s c b" for t
    by (simp add: proposedStatus_def Let_def)
  let ?p = "p\<lparr>tr := Clock (e_now E (tr p)) # tr p\<rparr>"
  obtain rd where rd: "storeRead rd"
      "result (getStore E s (m_Namespace (st_meta s)) (m_Name (st_meta s))) ?p = Inr (serverStore s0 (tr p))"
      "final (getStore E s (m_Namespace (st_meta s)) (m_Name (st_meta s))) ?p = ?p\<lparr>tr := rd # tr ?p\<rparr>"
    using getStore_run [OF a, of s ?p] x by auto
  have w: "ok (e_UpdateStoreStatus E t y)" for t y using a by (simp add: answersWith_def)
  then have "e_UpdateStoreStatus E t y \<noteq> Inl e" for t y e by (metis ok_def sum.case(1))
  then show "\<not> isl (result (updateStatus E s c b) p)"
    using rd by (simp add: updateStatus_def Let_def eq timeNow_def run_simps updateStoreStatus_api_def split: sum.split)
  show "serverStore s0 (tr (final (updateStatus E s c b) p)) =
      (if \<not> b \<and> alreadySaid s c then serverStore s0 (tr p)
       else setStatus (proposedStatus (e_now E (tr p)) s c b) (serverStore s0 (tr p)))"
    using rd w alreadySaid_nonempty [of s c]
    by (auto simp: updateStatus_def Let_def eq debounce_iff timeNow_def run_simps updateStoreStatus_api_def)
qed

lemma clearTrigger_run:
  assumes a: "answersWith E s0 ns n" and x: "sameKind s (serverStore s0 (tr p))" "triggerOf (serverStore s0 (tr p)) = v"
  shows "result (clearTrigger E r s ns n v) p = (0, None)"
    and "serverStore s0 (tr (final (clearTrigger E r s ns n v) p)) = withoutTrigger (serverStore s0 (tr p))"
proof -
  obtain rd where rd: "storeRead rd" "result (getStore E s ns n) p = Inr (serverStore s0 (tr p))"
      "final (getStore E s ns n) p = p\<lparr>tr := rd # tr p\<rparr>"
    using getStore_run [OF a x(1)] by auto
  have w: "ok (e_PatchStore E t y z)" for t y z using a by (simp add: answersWith_def)
  then have "\<exists>u. e_PatchStore E t y z = Inr u" for t y z by (metis ok_def obj_sumE sum.case(1))
  then have p: "e_PatchStore E t y z = Inr ()" for t y z by simp
  show "result (clearTrigger E r s ns n v) p = (0, None)"
    "serverStore s0 (tr (final (clearTrigger E r s ns n v) p)) = withoutTrigger (serverStore s0 (tr p))"
    using rd x(2) by (simp_all add: clearTrigger_def run_simps patchStore_def p ok_def)
qed

text \<open>The moves of a whole round without interruption, and its answer: \<open>made\<close> is what came of the new client.\<close>

definition roundMoves :: "int \<Rightarrow> store \<Rightarrow> bool \<Rightarrow> unit res \<Rightarrow> move list" where
  "roundMoves now s need made = StoreDoes StoreFetches #
     (if \<not> need then [StoreDoes (StoreKeeps now)]
      else StoreDoes StoreRetires # (case made of
          Inl err \<Rightarrow> [Outside (StoreFails (Some (now, err_msg err)))]
        | Inr _ \<Rightarrow> [StoreDoes StoreReads, StoreDoes StoreRegisters, StoreDoes (StoreRecords now),
            StoreDoes (if triggerOf s = [] then StoreFinishes else StoreClears)]))"

definition roundAnswer :: "int \<Rightarrow> bool \<Rightarrow> unit res \<Rightarrow> int \<times> goerror option" where
  "roundAnswer period need made = (if \<not> need then (period, None)
     else (case made of Inl err \<Rightarrow> (period, Some err) | Inr _ \<Rightarrow> (0, None)))"

text \<open>A state shows the process: the store as its writes left it, and whether the pool serves its client.\<close>

definition depicts :: "rotation \<Rightarrow> store \<Rightarrow> provider \<Rightarrow> string \<Rightarrow> proc \<Rightarrow> bool" where
  "depicts \<sigma> s0 pv clientName p \<longleftrightarrow> ro_store \<sigma> = serverStore s0 (tr p) \<and> (ro_client \<sigma> = None \<longleftrightarrow> isl (clientAt pv p clientName))"

lemma keeps_clearTrigger: "keeps clientsKept (clearTrigger E r s ns n v)"
  unfolding clearTrigger_def patchStore_def by (intro clients.rules clients_store_ops)

lemma isl_updateStatus_cases:
  "\<not> isl u \<Longrightarrow> (case u of Inl e \<Rightarrow> a e | Inr x \<Rightarrow> b) = b"
  by (cases u) simp_all

text \<open>The store a round leaves behind.\<close>

abbreviation validCondition :: "int \<Rightarrow> SecretStoreStatusCondition" where
  "validCondition \<equiv> newCondition ConditionTrue ReasonStoreValid []"

definition reported :: "int \<Rightarrow> store \<Rightarrow> SecretStoreStatusCondition \<Rightarrow> store" where
  "reported now s condition = (if alreadySaid s condition then s else setStatus (proposedStatus now s condition False) s)"

definition rebuilt :: "int \<Rightarrow> store \<Rightarrow> store" where
  "rebuilt now s = setStatus (proposedStatus now (withCapabilities s) (validCondition (m_Generation (st_meta s))) True) s"

definition roundStore :: "int \<Rightarrow> store \<Rightarrow> bool \<Rightarrow> unit res \<Rightarrow> store" where
  "roundStore now s need made = (if \<not> need then reported now s (validCondition 0)
     else (case made of
         Inl err \<Rightarrow> reported now s (newCondition ConditionFalse ReasonClientCreationFailed (err_msg err) 0)
       | Inr _ \<Rightarrow> if triggerOf s = [] then rebuilt now s else withoutTrigger (rebuilt now s)))"

lemma performs_round:
  assumes "healthy \<sigma>" "ro_storeRound \<sigma> = StoreIdle" "ro_storeDue \<sigma>" "s = ro_store \<sigma>"
  shows "\<exists>\<tau>. performs (roundMoves now s (needsRebuild s \<sigma>) made) \<sigma> = Some \<tau> \<and>
    ro_store \<tau> = roundStore now s (needsRebuild s \<sigma>) made \<and> ro_storeRound \<tau> = StoreIdle \<and>
    (ro_client \<tau> = None \<longleftrightarrow> (if needsRebuild s \<sigma> then isl made else ro_client \<sigma> = None)) \<and>
    (ro_storeDue \<tau> \<longleftrightarrow> needsRebuild s \<sigma> \<and> isl made)"
proof -
  have h: "ro_store \<sigma> = s" "m_DeletionTimestamp (st_meta s) = None" "gm_ok (m_Annotations (st_meta s))"
    using assms(1,4) by (simp_all add: healthy_def)
  note steps = roundMoves_def moves_def storeStep_def disturb_def storeFailure_def snapshot_def rebuilding_def reportStatus_def writeStore_def
    roundStore_def reported_def rebuilt_def needsRebuild_def
  show ?thesis
  proof (cases "needsRebuild s \<sigma>")
    case False
    then show ?thesis using assms(2,3) h by (auto simp: steps wakes_writes)
  next
    case True
    then show ?thesis using assms(2,3) h by (cases made) (auto simp: steps wakes_writes)
  qed
qed

text \<open>The process after a round: when the client is kept, and when it is rebuilt.\<close>

lemma kept_updateStatus: "isl (clientAt pv (final (updateStatus E y c b) x) n) = isl (clientAt pv x n)"
  using clientsKept_clientAt [OF keepsD [OF clients_store_ops(4)]] by simp

lemma run_need:
  assumes "storeConfiguresKMS s \<or> storeConfiguresOOS s"
  shows "result (if triggerOf s \<noteq> [] then ret True else needRecreateClient s n (Some k) (Some q)) p \<longleftrightarrow>
      triggerOf s \<noteq> [] \<or> result (needRecreateClient s n (Some k) (Some q)) p"
    and "final (if triggerOf s \<noteq> [] then ret True else needRecreateClient s n (Some k) (Some q)) p = p"
  using needRecreateClient_iff(2) [OF assms] by (simp_all add: run_simps)

lemma reconcileValid_keeps:
  fixes E :: env and r :: StoreReconciler
  assumes "storeConfiguresKMS s \<or> storeConfiguresOOS s" and srv: "serverStore s0 (tr p) = s"
    and a: "answersWith E s0 (m_Namespace (st_meta s)) (m_Name (st_meta s))"
    and no: "triggerOf s = []" "\<not> result (needRecreateClient s n (Some k) (Some q)) p"
  defines "m \<equiv> reconcileValid E r s (m_Namespace (st_meta s)) (m_Name (st_meta s)) n (Some k) (Some q)"
  shows "result m p = Some (sc_ReconciliationPeriod r, None) \<and>
    serverStore s0 (tr (final m p)) = reported (e_now E (tr p)) s (validCondition 0) \<and>
    isl (clientAt pv (final m p) n) = isl (clientAt pv p n)"
proof -
  let ?m = "updateStatus E s (validCondition 0) False"
  have "st_Conditions (st_Status s) \<noteq> []" using no(2) needRecreateClient_iff(1) [OF assms(1)] by auto
  then have "result m p = Some (sc_ReconciliationPeriod r, case result ?m p of Inl e \<Rightarrow> Some e | Inr _ \<Rightarrow> None)" "final m p = final ?m p"
    using run_need(2) [OF assms(1)] no by (simp_all add: m_def reconcileValid_def run_simps updateStatusWithReady_def Let_def)
  then show ?thesis
    using updateStatus_run [OF a, of p "validCondition 0" False] srv
    by (simp add: reported_def isl_updateStatus_cases kept_updateStatus)
qed

lemma reconcileValid_rebuilds:
  fixes E :: env and r :: StoreReconciler
  assumes at: "providersAt p k q" "storeConfiguresKMS s \<or> storeConfiguresOOS s" "n = storeClientName (asSecretStore s)"
    and srv: "serverStore s0 (tr p) = s"
    and a: "answersWith E s0 (m_Namespace (st_meta s)) (m_Name (st_meta s))"
    and need: "triggerOf s \<noteq> [] \<or> result (needRecreateClient s n (Some k) (Some q)) p"
  defines "m \<equiv> reconcileValid E r s (m_Namespace (st_meta s)) (m_Name (st_meta s)) n (Some k) (Some q)"
    and "made \<equiv> the (result (recreateClient E r n (Some k) (Some q) s) p)"
  shows "\<exists>now. serverStore s0 (tr (final m p)) = roundStore now s True made \<and>
    result m p = Some (roundAnswer (sc_ReconciliationPeriod r) True made) \<and>
    isl (clientAt (chosenProvider s k q) (final m p) n) = isl made"
proof -
  let ?pv = "chosenProvider s k q" and ?rc = "recreateClient E r n (Some k) (Some q) s"
  define p1 where "p1 = final ?rc p"
  have made: "result ?rc p = Some made" by (simp add: made_def recreateClient_run)
  have srv1: "serverStore s0 (tr p1) = s" using serverStore_kept [OF emits_recreate] srv by (simp add: p1_def)
  have "?pv = k \<or> ?pv = q" by (simp add: chosenProvider_def)
  from recreateClient_at [OF at(1) this at(3,2), of E r]
  have c1: "isl (clientAt ?pv p1 n) = isl made" by (cases made) (auto simp: p1_def made key_family_def)
  note run = m_def reconcileValid_def run_simps Let_def run_need [OF at(2)] p1_def [symmetric]
  show ?thesis
  proof (cases made)
    case (Inl err)
    let ?c = "newCondition ConditionFalse ReasonClientCreationFailed (err_msg err) 0"
    have "result m p = Some (sc_ReconciliationPeriod r, Some err)" "final m p = final (updateStatus E s ?c False) p1"
      using need made Inl by (simp_all add: run updateStatusWithError_def)
    then show ?thesis
      using updateStatus_run(2) [OF a, of p1 ?c False] srv1 Inl c1
      by (intro exI [of _ "e_now E (tr p1)"]) (simp add: roundStore_def reported_def roundAnswer_def kept_updateStatus)
  next
    case (Inr u)
    let ?m = "updateStatus E (withCapabilities s) (validCondition (m_Generation (st_meta s))) True"
    let ?clear = "clearTrigger E r s (m_Namespace (st_meta s)) (m_Name (st_meta s)) (triggerOf s)"
    have w: "st_meta (withCapabilities s) = st_meta s" "sameKind (withCapabilities s) s" by (simp_all add: withCapabilities_def)
    have up: "\<not> isl (result ?m p1)" "serverStore s0 (tr (final ?m p1)) = rebuilt (e_now E (tr p1)) s"
      using updateStatus_run [of E s0 "withCapabilities s" p1 _ True] a srv1 w by (simp_all add: rebuilt_def)
    have "result m p = Some (if triggerOf s = [] then (0, None) else result ?clear (final ?m p1))"
      "final m p = (if triggerOf s = [] then final ?m p1 else final ?clear (final ?m p1))"
      using need made Inr up(1) by (simp_all add: run updateStatusWithReadyAndGeneration_def withCapabilities_def isl_updateStatus_cases)
    moreover have "sameKind s (rebuilt t s)" "triggerOf (rebuilt t s) = triggerOf s" for t by (simp_all add: rebuilt_def)
    note clearTrigger_run [OF a, of s "final ?m p1" "triggerOf s", unfolded up(2), OF this]
    moreover have "isl (clientAt ?pv (final ?clear x) n) = isl (clientAt ?pv x n)" for x
      using clientsKept_clientAt [OF keepsD [OF keeps_clearTrigger]] by simp
    ultimately show ?thesis
      using up Inr c1 by (intro exI [of _ "e_now E (tr p1)"]) (simp add: roundStore_def roundAnswer_def kept_updateStatus)
  qed
qed

text \<open>The Secret controller's part: what its loop does to a store it has just listed is the move.\<close>

lemma triggerStore_is_move:
  assumes "ro_secretRound \<sigma> = Listed s" "s = ro_store \<sigma>" "serverStore s0 (tr p) = s" "referenced s"
    and a: "answersWith E s0 ns n" and v: "triggerOf s = [] \<Longrightarrow> unusedValue (string_of_int (e_now E (tr p))) \<sigma>"
  defines "m \<equiv> triggerStore E referenced () s"
  shows "\<exists>\<tau>. secretStep (if triggerOf s = [] then SecretPatches (string_of_int (e_now E (tr p))) else SecretSkips) \<sigma> = Some \<tau> \<and>
    serverStore s0 (tr (final m p)) = ro_store \<tau> \<and> ro_secretRound \<tau> = SecretIdle \<and> result m p = Inr ()"
proof -
  have "ok (e_PatchStore E t y z)" for t y z using a by (simp add: answersWith_def)
  then have "\<exists>u. e_PatchStore E t y z = Inr u" for t y z by (metis ok_def obj_sumE sum.case(1))
  then have patch: "e_PatchStore E t y z = Inr ()" for t y z by simp
  show ?thesis
    using assms(1-4) v
    by (simp add: m_def triggerStore_def PatchTriggerAnnotation_def secretStep_def run_simps timeNow_def patchStore_def patch ok_def
        writeStore_def)
qed


definition triggeredKms :: SecretStore where
  "triggeredKms = kmsStore\<lparr>ss_meta := (ss_meta kmsStore)\<lparr>m_Annotations := [(TriggerReconcileAnnotation, ''7'')], m_Finalizers := [secretFinalizer]\<rparr>\<rparr>"

text \<open>An environment that answers with the store as the round's writes leave it.\<close>

definition steadyEnv :: env where
  "steadyEnv = workerEnv\<lparr>
     e_GetSecretStore := \<lambda>t _ _. (case serverStore (SS triggeredKms) t of SS x \<Rightarrow> Inr x | CSS _ \<Rightarrow> Inl notFound),
     e_GetClusterSecretStore := \<lambda>t _. (case serverStore (SS triggeredKms) t of CSS x \<Rightarrow> Inr x | SS _ \<Rightarrow> Inl notFound)\<rparr>"


end
