(* ===== verification/Spec2Isabelle.thy ===== *)
theory Spec2Isabelle
  imports Process Shared_Laws Pool_Steps Rotation_Code
begin

text \<open>
  ack-secret-manager keeps Kubernetes Secrets in step with secrets of Alibaba Cloud KMS and OOS. This
  library models the operator's own Go code under \<open>src/pkg\<close> and \<open>src/cmd/manager\<close> and proves what the
  parts promise each other and their users.

  The program. An ExternalSecret names data sources, each read with a client of a SecretStore, of a
  ClusterSecretStore, or of the environment. The ExternalSecret controller fetches the sources, renders
  templates, and writes one Secret. The store controllers build the clients, keep them in one pool per
  provider and record each rebuild in the store's status. The trigger controllers watch the Secrets and
  ServiceAccounts that stores use as credentials and annotate the stores concerned. The
  ClusterExternalSecret controller stamps ExternalSecrets into the namespaces it selects. The parts meet
  in three places: the client pools of the process, the statuses and annotations of the stores, and the
  events of the watches.

  How effects are modelled. A handler is a step of the state monad over \<open>proc\<close>, the in-memory tables of the
  process and the list of events so far (\<open>Kube\<close>). All that is not code of the repository (the API
  server, the SDKs, the credential library, clocks, contexts, template, JSON, YAML, JMESPath, regular
  expression and selector engines) is the record \<open>env\<close>: a function per call that sees all earlier
  events, so it may fail at any time and change its mind; nothing is assumed of it unless a theorem says
  so. An \<open>error\<close> return is the left side of a sum, a Go map an association list in one iteration order
  (\<open>GoMap\<close>), bytes and strings character lists, durations integers in nanoseconds; the one product that
  could wrap in 64 bits is computed modulo two to the 64. Loops are structural recursion over lists, or over
  the attempts left (three for a fetch), so every handler terminates by construction.

  The theories, in import order:
    \<^item> \<open>Prelude\<close>, \<open>GoMap\<close>, \<open>Api_Types\<close>: strings, errors with unwrap chains, maps with their interface
      \<open>go_map\<close>, and the four kinds of \<open>pkg/apis\<close>.
    \<^item> \<open>Utils\<close> (\<open>pkg/utils\<close>): scope, retry, backoff, error classes, admission of namespaces.
    \<^item> \<open>Client_Registry\<close> (\<open>client_keys.go\<close>, the two \<open>client_manager.go\<close>, \<open>provider_manager.go\<close>): keys, the
      pools, their contract \<open>client_manager\<close> with an interpretation per provider.
    \<^item> \<open>Auth_Chain\<close>, \<open>Auth\<close> (\<open>auth.go\<close>, \<open>auth_helper.go\<close>, \<open>auth_adapter.go\<close>): credentials.
    \<^item> \<open>Kube\<close>: events, environment, the monad and its program logic (\<open>emits\<close>, \<open>post\<close>).
    \<^item> \<open>Secret_Data\<close> (\<open>process_secret_data.go\<close>, the two services): decoding of fetched data.
    \<^item> \<open>Provider_Clients\<close> (the two \<open>client_provider.go\<close>, \<open>endpoint_validation.go\<close>, \<open>provider.go\<close>).
    \<^item> \<open>Partial_Failure\<close>, \<open>Sync_Status\<close>, \<open>Secret_Write\<close>, \<open>Templates\<close>, \<open>Es_Clients\<close>, \<open>Es_Watch\<close>,
      \<open>Es_Reconcile\<close> (\<open>pkg/controller/externalsecret\<close>): the ExternalSecret controller.
    \<^item> \<open>Pools\<close>: relations between process states that steps respect (locale \<open>step_relation\<close>, with two
      interpretations: the invariant of the tables, and "no client changed").
    \<^item> \<open>Stores\<close>, \<open>Store_Protocol\<close> (\<open>pkg/controller/secretstore\<close>): the store controllers.
    \<^item> \<open>Ces\<close> (\<open>pkg/controller/clusterexternalsecret\<close>), \<open>Triggers\<close> (\<open>secret\<close>, \<open>serviceaccount\<close>).
    \<^item> \<open>Scope\<close> (\<open>cmd/manager/main.go\<close>): start-up. \<open>Dispatch\<close> (the \<open>SetupWithManager\<close> of the six controllers): which
      controllers an event of the API server gives a turn. \<open>Process\<close>: turns and events in any order, reachable states.
    \<^item> \<open>Shared_Laws\<close>: the laws of the shared operations; \<open>Refreshers\<close>: which credential refreshers the
      retirement of a family of keys stops, and the one a rejected endpoint leaves running.
    \<^item> \<open>Pool_Steps\<close>: the pools again, as goroutines use them: the calls of the pool operations as sequences of
      atomic accesses (to the \<open>sync.Map\<close>, the critical sections of \<open>RamLock\<close>, the calls of \<open>Stop\<close>), in all
      interleavings.
    \<^item> \<open>Rotation\<close>: the rotation of a credential while the Secret controller and a store controller run, their rounds
      cut at the calls of the API server and interleaved with changes and failures; \<open>Rotation_Code\<close>: the rounds of
      \<open>Stores\<close> and \<open>Triggers\<close> are runs of these moves.
  The three status comparisons of the controllers are interpretations of one locale, \<open>status_debounce\<close>
  (\<open>Sync_Status\<close>): a status equal in what counts is never written again.

  What the theorems show. For the ExternalSecret controller: which rounds may delete the Secret, what a
  partially failed round writes, that stale clients stop a round, that equal data is not written, that
  the finalizer goes only after the Secret. For clients: one is served only to namespaces with access and
  only while its store says it is fresh; a rebuild and a deletion retire the whole family of keys.
  For stores: validation is exact, the trigger annotation is cleared only after the rebuild it asked for
  is recorded, below, what consumers see then, and in \<open>Dispatch\<close>, whom each step of the protocol wakes. For credentials: references stay in their namespace,
  an explicit ServiceAccount never falls back to other tiers, credentials are served only while valid.
  For the ClusterExternalSecret controller: it acts only where it may and its ledger is exact. Some
  theorems state behaviour that looks unintended: an unreadable store deletes, a failed apply forgets,
  a rejected endpoint leaks a credential refresher, two overlapping builds leave a client in service whose
  refresher has been stopped, an ExternalSecret with a finalizer cannot leave an excluded namespace, and a
  credential that changes while a rebuild for an earlier change is running is never used.
  For the process: the tables are an invariant of all reachable states, no store round panics, a
  namespace scope keeps the operator away from the cluster-scoped kinds, status writes wake nobody. For the
  rotation of credentials: changes that do not fall into the window between the reading of a credential and the clearing of
  the trigger reach the client, whatever else happens; one that does is lost; the controllers always come to rest. For the
  pools under concurrency: calls end, no refresher is lost or stopped twice, a retired family stays retired, and
  \<open>DeletePrefixed\<close> run alone does what the atomic operation of the other theories does.

  Not modelled. Rounds are atomic in \<open>Process\<close>, while the environment may change between any two calls; the
  pool operations are broken into their steps in \<open>Pool_Steps\<close> and the rounds around one credential in \<open>Rotation\<close>, which
  leaves out edits of the spec, deletions, reads from an outdated cache and the consumers, whose part \<open>Dispatch\<close> and
  \<open>Pool_Steps\<close> show. The other rounds are not interleaved, and the bounded wait for a \<open>Stop\<close> is left out. Logging, metrics, leader election, the construction
  of the controller manager, caches and work queues (which delay and merge turns) are library code or have no effect on the state. The
  generated deep copies are the identity on values. A KMS certificate is the name of
  its constant; its text plays no part. White space is ASCII white space and letters outside ASCII are not classified.
\<close>

section \<open>Stores and their consumers\<close>


end
